theory Spec2Isabelle
  imports Complex_Main "HOL-Library.Product_Lexorder" "HOL-Library.Multiset"
begin

section \<open>Data model\<close>

text \<open>
  The tensile test module keeps every sample as a pandas DataFrame. A DataFrame is
  modelled as its list of column names, its list of rows and the names of its columns
  of dtype int64; a row carries its index label and one cell per column name. A cell
  is a number; floats are idealised as real numbers, with \<open>None\<close> standing for the one
  missing value NaN. Infinite values and rounding errors of the binary representation
  are not modelled. Every column that is not an int64 column is a float64 column. The
  cells of an int64 column are integers; sums, differences and products of two int64
  values wrap around at 64 bits.
\<close>

type_synonym cell = "real option"

record row =
  label :: nat
  cells :: "string \<Rightarrow> cell"

record frame =
  columns :: "string list"
  rows :: "row list"
  int64_columns :: "string list"

datatype error = ValueError string | KeyError string | IndexError string

subsection \<open>Float arithmetic on cells\<close>

text \<open>
  NaN propagates through every arithmetic operation and makes every comparison false.
  A float division by zero gives an infinity or NaN in numpy and raises nothing; the
  model has a single non-number value and returns it there.
\<close>

definition cadd :: "cell \<Rightarrow> cell \<Rightarrow> cell" where
  "cadd a b = (case a of None \<Rightarrow> None | Some x \<Rightarrow> (case b of None \<Rightarrow> None | Some y \<Rightarrow> Some (x + y)))"

definition csub :: "cell \<Rightarrow> cell \<Rightarrow> cell" where
  "csub a b = (case a of None \<Rightarrow> None | Some x \<Rightarrow> (case b of None \<Rightarrow> None | Some y \<Rightarrow> Some (x - y)))"

definition cmul :: "cell \<Rightarrow> cell \<Rightarrow> cell" where
  "cmul a b = (case a of None \<Rightarrow> None | Some x \<Rightarrow> (case b of None \<Rightarrow> None | Some y \<Rightarrow> Some (x * y)))"

definition cdiv :: "cell \<Rightarrow> cell \<Rightarrow> cell" where
  "cdiv a b = (case a of None \<Rightarrow> None | Some x \<Rightarrow>
     (case b of None \<Rightarrow> None | Some y \<Rightarrow> if y = 0 then None else Some (x / y)))"

definition cge :: "cell \<Rightarrow> real \<Rightarrow> bool" where
  "cge a p = (case a of None \<Rightarrow> False | Some x \<Rightarrow> p \<le> x)"

definition cle :: "cell \<Rightarrow> real \<Rightarrow> bool" where
  "cle a p = (case a of None \<Rightarrow> False | Some x \<Rightarrow> x \<le> p)"

subsection \<open>Integer arithmetic on cells\<close>

text \<open>
  numpy computes \<open>a + b\<close>, \<open>a - b\<close> and \<open>a * b\<close> of two int64 values in
  64 bits, two's complement, and raises nothing on overflow. A number is stored as
  int64 when it is an integer in the range of the type.
\<close>

definition wrap64 :: "int \<Rightarrow> int" where
  "wrap64 k = (k + 2 ^ 63) mod 2 ^ 64 - 2 ^ 63"

definition is_int64 :: "cell \<Rightarrow> bool" where
  "is_int64 c = (case c of None \<Rightarrow> False
     | Some v \<Rightarrow> of_int \<lfloor>v\<rfloor> = v \<and> - (2 ^ 63) \<le> v \<and> v < 2 ^ 63)"

definition iadd :: "cell \<Rightarrow> cell \<Rightarrow> cell" where
  "iadd a b = (case a of None \<Rightarrow> None | Some x \<Rightarrow>
     (case b of None \<Rightarrow> None | Some y \<Rightarrow> Some (of_int (wrap64 (\<lfloor>x\<rfloor> + \<lfloor>y\<rfloor>)))))"

definition isub :: "cell \<Rightarrow> cell \<Rightarrow> cell" where
  "isub a b = (case a of None \<Rightarrow> None | Some x \<Rightarrow>
     (case b of None \<Rightarrow> None | Some y \<Rightarrow> Some (of_int (wrap64 (\<lfloor>x\<rfloor> - \<lfloor>y\<rfloor>)))))"

definition imul :: "cell \<Rightarrow> cell \<Rightarrow> cell" where
  "imul a b = (case a of None \<Rightarrow> None | Some x \<Rightarrow>
     (case b of None \<Rightarrow> None | Some y \<Rightarrow> Some (of_int (wrap64 (\<lfloor>x\<rfloor> * \<lfloor>y\<rfloor>)))))"

subsection \<open>Rounding\<close>

text \<open>
  \<open>np.around(x, decimals=d)\<close> scales by \<open>10 ^ d\<close>, rounds to the nearest integer
  with ties going to the even neighbour, and scales back.
\<close>

definition rint :: "real \<Rightarrow> int" where
  "rint x = (let f = \<lfloor>x\<rfloor>; d = x - of_int f in
     if d < 1 / 2 then f else if 1 / 2 < d then f + 1 else if even f then f else f + 1)"

definition around :: "nat \<Rightarrow> real \<Rightarrow> real" where
  "around decimals x = of_int (rint (x * 10 ^ decimals)) / 10 ^ decimals"

definition around_cell :: "nat \<Rightarrow> cell \<Rightarrow> cell" where
  "around_cell decimals c = map_option (around decimals) c"

subsection \<open>Column access\<close>

text \<open>\<open>sample[c]\<close> raises KeyError when the frame has no column \<open>c\<close>.\<close>

definition column :: "frame \<Rightarrow> string \<Rightarrow> error + cell list" where
  "column f c = (if c \<in> set (columns f) then Inr (map (\<lambda>r. cells r c) (rows f)) else Inl (KeyError c))"

text \<open>A column together with the index labels, as a pandas Series.\<close>

definition series :: "frame \<Rightarrow> string \<Rightarrow> error + (nat \<times> cell) list" where
  "series f c = (if c \<in> set (columns f) then Inr (map (\<lambda>r. (label r, cells r c)) (rows f))
                 else Inl (KeyError c))"

section \<open>Property aggregation on the cleaned curve\<close>

subsection \<open>Strength\<close>

text \<open>\<open>Series.max()\<close> skips NaN and is NaN on a series without a number.\<close>

fun max_from :: "real \<Rightarrow> cell list \<Rightarrow> real" where
  "max_from m [] = m"
| "max_from m (None # cs) = max_from m cs"
| "max_from m (Some v # cs) = max_from (if m < v then v else m) cs"

fun series_max :: "cell list \<Rightarrow> cell" where
  "series_max [] = None"
| "series_max (None # cs) = series_max cs"
| "series_max (Some v # cs) = Some (max_from v cs)"

text \<open>The body of the loop of \<open>calc_strength\<close>.\<close>

definition sample_strength :: "frame \<Rightarrow> error + cell" where
  "sample_strength sample =
     (case column sample ''stress'' of Inl e \<Rightarrow> Inl e
      | Inr stress \<Rightarrow> Inr (around_cell 1 (series_max stress)))"

subsection \<open>Toughness\<close>

text \<open>
  \<open>np.trapz(y, x=x)\<close> is \<open>(diff(x) * (y[1:] + y[:-1]) / 2.0).sum()\<close>. The
  difference is an int64 operation when \<open>x\<close> is an int64 array, the sum when \<open>y\<close>
  is one, and the product when both are; the division by 2.0 and the final sum are
  float operations.
\<close>

fun cdiff :: "cell list \<Rightarrow> cell list" where
  "cdiff (a # b # xs) = csub b a # cdiff (b # xs)"
| "cdiff xs = []"

fun idiff :: "cell list \<Rightarrow> cell list" where
  "idiff (a # b # xs) = isub b a # idiff (b # xs)"
| "idiff xs = []"

definition csum :: "cell list \<Rightarrow> cell" where
  "csum xs = fold (\<lambda>x acc. cadd acc x) xs (Some 0)"

definition trapz :: "bool \<Rightarrow> bool \<Rightarrow> cell list \<Rightarrow> cell list \<Rightarrow> cell" where
  "trapz y_int x_int y x =
     (let d = (if x_int then idiff x else cdiff x);
          s = (if y_int then map2 iadd (tl y) (butlast y) else map2 cadd (tl y) (butlast y));
          products = (if x_int \<and> y_int then map2 imul d s else map2 cmul d s)
      in csum (map (\<lambda>p. cdiv p (Some 2)) products))"

text \<open>The body of the loop of \<open>calc_toughness\<close>.\<close>

definition sample_toughness :: "real \<Rightarrow> frame \<Rightarrow> error + cell" where
  "sample_toughness strain_conversion_factor sample =
     (case column sample ''stress'' of Inl e \<Rightarrow> Inl e
      | Inr stress \<Rightarrow>
        (case column sample ''strain'' of Inl e \<Rightarrow> Inl e
         | Inr strain \<Rightarrow>
           Inr (around_cell 1
                  (cdiv (trapz (''stress'' \<in> set (int64_columns sample))
                               (''strain'' \<in> set (int64_columns sample)) stress strain)
                        (Some strain_conversion_factor)))))"


subsection \<open>Elongation at break\<close>

text \<open>
  \<open>Series.idxmax()\<close> returns the label of the first occurrence of the maximum,
  skipping NaN, and raises ValueError on an empty series. On a series that holds
  nothing but NaN the label it returns is NaN, which the lookup \<open>.at\<close> then does not
  find.
\<close>

fun argmax_from :: "nat \<times> real \<Rightarrow> (nat \<times> cell) list \<Rightarrow> nat \<times> real" where
  "argmax_from b [] = b"
| "argmax_from b ((l, None) # s) = argmax_from b s"
| "argmax_from (lb, m) ((l, Some v) # s) = argmax_from (if m < v then (l, v) else (lb, m)) s"

fun first_number :: "(nat \<times> cell) list \<Rightarrow> ((nat \<times> real) \<times> (nat \<times> cell) list) option" where
  "first_number [] = None"
| "first_number ((l, None) # s) = first_number s"
| "first_number ((l, Some v) # s) = Some ((l, v), s)"

definition idxmax :: "(nat \<times> cell) list \<Rightarrow> error + nat option" where
  "idxmax s =
     (if s = [] then Inl (ValueError ''attempt to get argmax of an empty sequence'')
      else (case first_number s of
              None \<Rightarrow> Inr None
            | Some (b, rest) \<Rightarrow> Inr (Some (fst (argmax_from b rest)))))"

text \<open>
  \<open>series.at[l]\<close>: the value at index label \<open>l\<close>; KeyError when no row has it.
  Index labels are unique in every frame of this module (see \<open>labels_distinct\<close>).
\<close>

definition series_at :: "(nat \<times> cell) list \<Rightarrow> nat option \<Rightarrow> error + cell" where
  "series_at s l =
     (case l of None \<Rightarrow> Inl (KeyError ''nan'')
      | Some k \<Rightarrow> (case map_of s k of None \<Rightarrow> Inl (KeyError ''label'') | Some v \<Rightarrow> Inr v))"

text \<open>The body of the loop of \<open>calc_elongation_at_break\<close>.\<close>

definition sample_elongation_at_break :: "frame \<Rightarrow> error + cell" where
  "sample_elongation_at_break sample =
     (case series sample ''strain'' of Inl e \<Rightarrow> Inl e
      | Inr strain \<Rightarrow>
        (case series sample ''stress'' of Inl e \<Rightarrow> Inl e
         | Inr stress \<Rightarrow>
           (case idxmax stress of Inl e \<Rightarrow> Inl e
            | Inr l \<Rightarrow>
              (case series_at strain l of Inl e \<Rightarrow> Inl e
               | Inr v \<Rightarrow> Inr (around_cell 1 v)))))"

section \<open>Cleaning a sample: \<open>streamline_data\<close>\<close>

subsection \<open>The pandas operations it uses\<close>

text \<open>
  \<open>drop_duplicates(c, keep='first')\<close> keeps, of the rows that share a value in
  column \<open>c\<close>, the first one. Missing values count as equal to each other.
\<close>

fun keep_first :: "string \<Rightarrow> cell list \<Rightarrow> row list \<Rightarrow> row list" where
  "keep_first c seen [] = []"
| "keep_first c seen (r # rs) =
     (if cells r c \<in> set seen then keep_first c seen rs
      else r # keep_first c (cells r c # seen) rs)"

definition drop_duplicates :: "string \<Rightarrow> frame \<Rightarrow> error + frame" where
  "drop_duplicates c f =
     (if c \<in> set (columns f) then Inr (f\<lparr>rows := keep_first c [] (rows f)\<rparr>) else Inl (KeyError c))"

text \<open>
  \<open>sort_values(by=[c])\<close> sorts ascending with the missing values last. Its default
  algorithm is not stable; \<open>streamline_data\<close> calls it on a column without duplicates,
  where every sorting algorithm returns the same frame.
\<close>

definition sort_rank :: "cell \<Rightarrow> bool \<times> real" where
  "sort_rank v = (case v of None \<Rightarrow> (True, 0) | Some x \<Rightarrow> (False, x))"

definition sort_values :: "string \<Rightarrow> frame \<Rightarrow> error + frame" where
  "sort_values c f =
     (if c \<in> set (columns f)
      then Inr (f\<lparr>rows := sort_key (\<lambda>r. sort_rank (cells r c)) (rows f)\<rparr>)
      else Inl (KeyError c))"

text \<open>
  \<open>where(cond)\<close> replaces every cell of a row that fails \<open>cond\<close> by NaN. NaN
  is a float, so the int64 columns become float64 columns when a row fails, and stay as
  they are when none does.
\<close>

definition where_rows :: "(row \<Rightarrow> bool) \<Rightarrow> frame \<Rightarrow> frame" where
  "where_rows cond f =
     f\<lparr>rows := map (\<lambda>r. if cond r then r else r\<lparr>cells := (\<lambda>c. None)\<rparr>) (rows f),
       int64_columns := (if list_all cond (rows f) then int64_columns f else [])\<rparr>"

text \<open>\<open>dropna()\<close> drops every row that has a missing value in some column.\<close>

definition complete_row :: "string list \<Rightarrow> row \<Rightarrow> bool" where
  "complete_row cols r = list_all (\<lambda>c. cells r c \<noteq> None) cols"

definition dropna :: "frame \<Rightarrow> frame" where
  "dropna f = f\<lparr>rows := filter (complete_row (columns f)) (rows f)\<rparr>"

text \<open>\<open>series.iloc[0]\<close> raises IndexError on an empty series.\<close>

definition iloc0 :: "cell list \<Rightarrow> error + cell" where
  "iloc0 xs = (case xs of [] \<Rightarrow> Inl (IndexError ''single positional indexer is out-of-bounds'')
               | x # _ \<Rightarrow> Inr x)"

text \<open>
  \<open>sample[c] = values\<close> with an array of floats: ValueError unless there is one
  value per row; a new column is appended, an old one overwritten; the column is a
  float64 column afterwards.
\<close>

definition set_cell :: "string \<Rightarrow> row \<Rightarrow> cell \<Rightarrow> row" where
  "set_cell c r v = r\<lparr>cells := (cells r)(c := v)\<rparr>"

definition assign_values :: "string \<Rightarrow> cell list \<Rightarrow> frame \<Rightarrow> error + frame" where
  "assign_values c vs f =
     (if length vs \<noteq> length (rows f)
      then Inl (ValueError ''Length of values does not match length of index'')
      else Inr \<lparr>columns = (if c \<in> set (columns f) then columns f else columns f @ [c]),
                rows = map2 (set_cell c) (rows f) vs,
                int64_columns = removeAll c (int64_columns f)\<rparr>)"

subsection \<open>The collaborators outside the repository\<close>

text \<open>
  \<open>derivative\<close> (little_helpers), \<open>smoothing\<close> (pyPreprocessing),
  \<open>lin_reg_all_sections\<close> (pyRegression) and \<open>pd.concat\<close> are imported from other
  packages. They are parameters of the model; the latter three may raise.
\<close>

record regression =
  regression_results :: frame
  linear_limit :: cell
  linear_limit_stress :: cell
  slope_at_limit :: cell
  intercept_at_limit :: cell

record externals =
  derivative :: "cell list \<Rightarrow> cell list \<Rightarrow> cell list"
  smoothing :: "cell list \<Rightarrow> cell list \<Rightarrow> nat \<Rightarrow> nat \<Rightarrow> nat \<Rightarrow> error + (cell list \<times> cell list)"
  lin_reg_all_sections :: "cell list \<Rightarrow> cell list \<Rightarrow> real \<Rightarrow> error + regression"
  concat :: "frame \<Rightarrow> frame \<Rightarrow> error + frame"

subsection \<open>\<open>streamline_data\<close> on the value of a frame\<close>

text \<open>
  The new strain of a row, \<open>(h_0 - tool_distance) / h_0 * strain_conversion_factor\<close>.
  The difference is an int64 operation when the tool distance is an int64 column; the
  division and the product are float operations, and the new strain is a float.
\<close>

definition rebased_strain :: "bool \<Rightarrow> cell \<Rightarrow> real \<Rightarrow> cell \<Rightarrow> cell" where
  "rebased_strain distance_int h_0 factor tool_distance =
     cmul (cdiv ((if distance_int then isub else csub) h_0 tool_distance) h_0) (Some factor)"

definition streamline_frame :: "real option \<Rightarrow> real \<Rightarrow> externals \<Rightarrow> frame \<Rightarrow> error + frame" where
  "streamline_frame preload factor ext sample =
     (case drop_duplicates ''strain'' sample of Inl e \<Rightarrow> Inl e
      | Inr s1 \<Rightarrow>
     (case sort_values ''strain'' s1 of Inl e \<Rightarrow> Inl e
      | Inr s2 \<Rightarrow>
     (case preload of
        None \<Rightarrow> Inr (dropna s2)
      | Some p \<Rightarrow>
        (case column s2 ''stress'' of Inl e \<Rightarrow> Inl e
         | Inr _ \<Rightarrow>
           (let s3 = dropna (where_rows (\<lambda>r. cge (cells r ''stress'') p) s2) in
            (case column s3 ''tool_distance'' of Inl e \<Rightarrow> Inl e
             | Inr tool_distance \<Rightarrow>
            (case iloc0 tool_distance of Inl e \<Rightarrow> Inl e
             | Inr h_0 \<Rightarrow>
               (let s4 = s3\<lparr>rows := map (\<lambda>r. set_cell ''strain'' r
                                  (rebased_strain (''tool_distance'' \<in> set (int64_columns s3))
                                     h_0 factor (cells r ''tool_distance''))) (rows s3),
                            int64_columns := removeAll ''strain'' (int64_columns s3)\<rparr> in
                (case column s4 ''strain'' of Inl e \<Rightarrow> Inl e
                 | Inr strain \<Rightarrow>
                (case column s4 ''stress'' of Inl e \<Rightarrow> Inl e
                 | Inr stress \<Rightarrow>
                   assign_values ''deriv'' (derivative ext strain stress) s4))))))))))"

section \<open>The class \<open>tensile_test\<close>\<close>

subsection \<open>Objects and references\<close>

text \<open>
  The lists \<open>raw_original\<close>, \<open>raw\<close>, \<open>raw_processed\<close> and
  \<open>raw_processed_cropped\<close> hold references to DataFrame objects, and
  \<open>streamline_data\<close> changes the object it is given in place. The heap maps a
  reference to the value of its object; \<open>next_ref\<close> is the first reference not in
  use. Temporary frames that no attribute refers to are kept as values.
\<close>

type_synonym ref = nat

record heap =
  mem :: "ref \<Rightarrow> frame"
  next_ref :: ref

definition new_frame :: "frame \<Rightarrow> heap \<Rightarrow> ref \<times> heap" where
  "new_frame f h = (next_ref h, \<lparr>mem = (mem h)(next_ref h := f), next_ref = Suc (next_ref h)\<rparr>)"

fun new_frames :: "frame list \<Rightarrow> heap \<Rightarrow> ref list \<times> heap" where
  "new_frames [] h = ([], h)"
| "new_frames (f # fs) h =
     (case new_frame f h of (r, h1) \<Rightarrow> (case new_frames fs h1 of (rs, h2) \<Rightarrow> (r # rs, h2)))"

text \<open>\<open>deepcopy\<close> of a list of frames: a new list of new objects with the same values.\<close>

definition deepcopy :: "ref list \<Rightarrow> heap \<Rightarrow> ref list \<times> heap" where
  "deepcopy rs h = new_frames (map (mem h) rs) h"

subsection \<open>The results table\<close>

text \<open>
  \<open>self.results\<close> has the column \<open>name\<close> and seven numeric columns, whose titles
  are built from the units. Assigning a list to a column of a table that has no row
  yet creates one row per value, the other columns missing; otherwise the list must
  have one value per row.
\<close>

record result_row =
  name :: "string option"
  entries :: "string \<Rightarrow> cell"

definition set_results_name :: "string list \<Rightarrow> result_row list \<Rightarrow> error + result_row list" where
  "set_results_name ns rs =
     (if rs = [] then Inr (map (\<lambda>n. \<lparr>name = Some n, entries = (\<lambda>t. None)\<rparr>) ns)
      else if length ns \<noteq> length rs
      then Inl (ValueError ''Length of values does not match length of index'')
      else Inr (map2 (\<lambda>r n. r\<lparr>name := Some n\<rparr>) rs ns))"

definition set_results_column :: "string \<Rightarrow> cell list \<Rightarrow> result_row list \<Rightarrow> error + result_row list" where
  "set_results_column title vs rs =
     (if rs = [] then Inr (map (\<lambda>v. \<lparr>name = None, entries = (\<lambda>t. None)(title := v)\<rparr>) vs)
      else if length vs \<noteq> length rs
      then Inl (ValueError ''Length of values does not match length of index'')
      else Inr (map2 (\<lambda>r v. r\<lparr>entries := (entries r)(title := v)\<rparr>) rs vs))"

subsection \<open>The object\<close>

text \<open>
  The workbook behind \<open>import_file\<close> is given as its sheets, each a name and the
  data rows below the header lines, a row being the list of its cell values. Reading
  the file itself belongs to pandas. The attributes that a method creates
  (\<open>raw_processed\<close>, \<open>strength\<close>, ...) are empty until then.
\<close>

type_synonym workbook = "(string \<times> cell list list) list"

record tensile_test =
  unit_strain :: string
  unit_stress :: string
  preload :: "real option"
  strain_conversion_factor :: real
  e_modulus_title :: string
  linear_limit_title :: string
  strength_title :: string
  toughness_title :: string
  elongation_at_break_title :: string
  slope_limit_title :: string
  intercept_limit_title :: string
  results :: "result_row list"
  import_file :: workbook
  import_mode :: string
  raw_original :: "ref list"
  raw :: "ref list"
  r_squared_lower_limit :: "real option"
  raw_processed :: "ref list"
  raw_processed_cropped :: "ref list"
  strength :: "cell list"
  toughness :: "cell list"
  elongation_at_break :: "cell list"

subsection \<open>\<open>import_data\<close>\<close>

text \<open>
  \<open>parse(sheet, names=...)\<close>: the columns get the given names, the rows the index
  labels 0, 1, 2, ...; a cell the sheet does not have is missing. A column whose
  cells are all integers in the range of int64 becomes an int64 column, every other
  column a float64 column. The sheets are taken to have the layout their import mode
  expects.
\<close>

definition row_cells :: "string list \<Rightarrow> cell list \<Rightarrow> string \<Rightarrow> cell" where
  "row_cells names vals c = (case map_of (zip names vals) c of Some v \<Rightarrow> v | None \<Rightarrow> None)"

definition parse :: "string list \<Rightarrow> cell list list \<Rightarrow> frame" where
  "parse names sheet =
     \<lparr>columns = names,
      rows = map2 (\<lambda>i vals. \<lparr>label = i, cells = row_cells names vals\<rparr>) [0..<length sheet] sheet,
      int64_columns = filter (\<lambda>c. list_all (\<lambda>vals. is_int64 (row_cells names vals c)) sheet) names\<rparr>"

definition load_sheets :: "nat \<Rightarrow> string list \<Rightarrow> tensile_test \<Rightarrow> heap \<Rightarrow> error + (tensile_test \<times> heap)" where
  "load_sheets skip names self h =
     (let sheets = drop skip (import_file self) in
      (case set_results_name (map fst sheets) (results self) of Inl e \<Rightarrow> Inl e
       | Inr res \<Rightarrow>
         (case new_frames (map (\<lambda>sheet. parse names (snd sheet)) sheets) h of
            (refs, h1) \<Rightarrow> Inr (self\<lparr>results := res, raw_original := refs\<rparr>, h1))))"

definition import_data :: "tensile_test \<Rightarrow> heap \<Rightarrow> error + (tensile_test \<times> heap)" where
  "import_data self h =
     (if import_mode self = ''Marc_Stuhlmueller''
      then load_sheets 3 [''strain'', ''Standardkraft'', ''stress''] self h
      else if import_mode self = ''Philipp Manglkammer''
      then load_sheets 3 [''stress'', ''strain''] self h
      else if import_mode self = ''Lena_Schunter''
      then load_sheets 2 [''tool_distance'', ''strain'', ''stress''] self h
      else Inl (ValueError ''No valid import mode entered.''))"

subsection \<open>\<open>streamline_data\<close> on the object\<close>

text \<open>
  Every step of \<open>streamline_data\<close> works in place, so the object behind \<open>sample\<close>
  takes the cleaned value and the method returns the reference it was given.
\<close>

definition streamline_data :: "tensile_test \<Rightarrow> externals \<Rightarrow> heap \<Rightarrow> ref \<Rightarrow> error + (heap \<times> ref)" where
  "streamline_data self ext h sample =
     (case streamline_frame (preload self) (strain_conversion_factor self) ext (mem h sample) of
        Inl e \<Rightarrow> Inl e
      | Inr cleaned \<Rightarrow> Inr (h\<lparr>mem := (mem h)(sample := cleaned)\<rparr>, sample))"

fun streamline_all :: "tensile_test \<Rightarrow> externals \<Rightarrow> ref list \<Rightarrow> heap \<Rightarrow> error + heap" where
  "streamline_all self ext [] h = Inr h"
| "streamline_all self ext (sample # samples) h =
     (case streamline_data self ext h sample of Inl e \<Rightarrow> Inl e
      | Inr (h1, _) \<Rightarrow> streamline_all self ext samples h1)"

subsection \<open>\<open>__init__\<close>\<close>

text \<open>
  The unit check comes first: \<open>''\<close> gives the conversion factor 1, \<open>'%'\<close> gives
  100, any other unit raises ValueError before anything is imported. The message of
  that error is shortened here to its first sentence.
\<close>

definition new_tensile_test ::
  "workbook \<Rightarrow> string \<Rightarrow> string \<Rightarrow> string \<Rightarrow> real option \<Rightarrow> real \<Rightarrow> tensile_test" where
  "new_tensile_test file mode u_strain u_stress pre factor =
     \<lparr>unit_strain = u_strain, unit_stress = u_stress, preload = pre,
      strain_conversion_factor = factor,
      e_modulus_title = ''e_modulus ['' @ u_stress @ '']'',
      linear_limit_title = ''linear_limit ['' @ u_strain @ '']'',
      strength_title = ''strength ['' @ u_stress @ '']'',
      toughness_title = ''toughness ['' @ u_stress @ ''] (Pa = J/m^3)'',
      elongation_at_break_title = ''elongation_at_break ['' @ u_strain @ '']'',
      slope_limit_title = ''slope_limit ['' @ u_stress @ ''/'' @ u_strain @ '']'',
      intercept_limit_title = ''intercept_limit ['' @ u_stress @ '']'',
      results = [], import_file = file, import_mode = mode,
      raw_original = [], raw = [], r_squared_lower_limit = None,
      raw_processed = [], raw_processed_cropped = [],
      strength = [], toughness = [], elongation_at_break = []\<rparr>"

text \<open>The part of \<open>__init__\<close> after the unit check: import, deep copy, cleaning.\<close>

definition construct :: "externals \<Rightarrow> tensile_test \<Rightarrow> heap \<Rightarrow> error + (tensile_test \<times> heap)" where
  "construct ext self0 h =
     (case import_data self0 h of Inl e \<Rightarrow> Inl e
      | Inr (self1, h1) \<Rightarrow>
        (case deepcopy (raw_original self1) h1 of
           (copies, h2) \<Rightarrow>
             (case streamline_all (self1\<lparr>raw := copies\<rparr>) ext copies h2 of Inl e \<Rightarrow> Inl e
              | Inr h3 \<Rightarrow> Inr (self1\<lparr>raw := copies\<rparr>, h3))))"

definition init ::
  "externals \<Rightarrow> heap \<Rightarrow> workbook \<Rightarrow> string \<Rightarrow> string \<Rightarrow> string \<Rightarrow> real option
     \<Rightarrow> error + (tensile_test \<times> heap)" where
  "init ext h file mode u_strain u_stress pre =
     (if u_strain = [] then construct ext (new_tensile_test file mode u_strain u_stress pre 1) h
      else if u_strain = ''%'' then construct ext (new_tensile_test file mode u_strain u_stress pre 100) h
      else Inl (ValueError ''No valid unit_strain.''))"

subsection \<open>\<open>smooth_data\<close>\<close>

text \<open>
  The default number of data points, \<open>int(10**np.ceil(np.log10(n)))\<close>: the least
  power of ten that is not below \<open>n\<close>, and 0 for \<open>n = 0\<close>.
\<close>

function power_of_ten_from :: "nat \<Rightarrow> nat \<Rightarrow> nat" where
  "power_of_ten_from p n = (if n \<le> p \<or> p = 0 then p else power_of_ten_from (10 * p) n)"
  by pat_completeness auto
termination
  by (relation "measure (\<lambda>(p, n). n - p)") auto

definition default_data_points :: "nat \<Rightarrow> nat" where
  "default_data_points n = (if n = 0 then 0 else power_of_ten_from 1 n)"

text \<open>
  \<open>pd.DataFrame(list(zip(x, y)), columns=['strain', 'stress'])\<close> of two float
  arrays: both columns are float64 columns.
\<close>

definition frame_of_curve :: "cell list \<Rightarrow> cell list \<Rightarrow> frame" where
  "frame_of_curve x y =
     (parse [''strain'', ''stress''] (map2 (\<lambda>a b. [a, b]) x y))\<lparr>int64_columns := []\<rparr>"

definition smooth_data :: "externals \<Rightarrow> frame \<Rightarrow> nat \<Rightarrow> nat \<Rightarrow> nat option \<Rightarrow> error + frame" where
  "smooth_data ext sample window poly_order data_points =
     (case column sample ''stress'' of Inl e \<Rightarrow> Inl e
      | Inr smoothed_sample \<Rightarrow>
     (case column sample ''strain'' of Inl e \<Rightarrow> Inl e
      | Inr x_coordinate \<Rightarrow>
        (let n = (case data_points of None \<Rightarrow> default_data_points (length x_coordinate)
                  | Some k \<Rightarrow> k) in
         (case smoothing ext smoothed_sample x_coordinate window poly_order n of Inl e \<Rightarrow> Inl e
          | Inr (strain_interpolated, smoothed) \<Rightarrow>
              Inr (frame_of_curve strain_interpolated smoothed)))))"

subsection \<open>\<open>calc_e_modulus\<close>\<close>

text \<open>
  \<open>frame.drop(labels)\<close> removes the rows with these index labels and raises KeyError
  when one of the labels is not in the index.
\<close>

definition drop_labels :: "nat list \<Rightarrow> frame \<Rightarrow> error + frame" where
  "drop_labels ls f =
     (if list_all (\<lambda>l. l \<in> label ` set (rows f)) ls
      then Inr (f\<lparr>rows := filter (\<lambda>r. label r \<notin> set ls) (rows f)\<rparr>)
      else Inl (KeyError ''not found in axis''))"

definition reset_index :: "frame \<Rightarrow> frame" where
  "reset_index f = f\<lparr>rows := map2 (\<lambda>i r. r\<lparr>label := i\<rparr>) [0..<length (rows f)] (rows f)\<rparr>"

text \<open>
  The extraction of the strain range: both label lists are computed on the uncropped
  copy, then dropped one after the other.
\<close>

definition crop :: "real \<Rightarrow> real \<Rightarrow> frame \<Rightarrow> error + frame" where
  "crop lower_strain_limit upper_strain_limit sample =
     (case column sample ''strain'' of Inl e \<Rightarrow> Inl e
      | Inr _ \<Rightarrow>
        (let indexNames = map label (filter (\<lambda>r. cle (cells r ''strain'') lower_strain_limit) (rows sample));
             indexNames_2 = map label (filter (\<lambda>r. cge (cells r ''strain'') upper_strain_limit) (rows sample))
         in (case drop_labels indexNames sample of Inl e \<Rightarrow> Inl e
             | Inr c1 \<Rightarrow>
            (case drop_labels indexNames_2 c1 of Inl e \<Rightarrow> Inl e
             | Inr c2 \<Rightarrow> Inr (reset_index c2)))))"

text \<open>
  The Young's modulus of one sample:
  \<open>(np.around(curr_slope_at_limit, decimals=3) * self.strain_conversion_factor).round(3)\<close>.
\<close>

definition e_modulus_of_slope :: "real \<Rightarrow> cell \<Rightarrow> cell" where
  "e_modulus_of_slope factor curr_slope_at_limit =
     around_cell 3 (cmul (around_cell 3 curr_slope_at_limit) (Some factor))"

text \<open>The body of the second loop of \<open>calc_e_modulus\<close>.\<close>

definition sample_e_modulus ::
  "externals \<Rightarrow> real \<Rightarrow> real \<Rightarrow> real \<Rightarrow> real \<Rightarrow> frame \<Rightarrow> error + (frame \<times> regression \<times> cell)" where
  "sample_e_modulus ext factor r_squared_limit lower_strain_limit upper_strain_limit sample =
     (case crop lower_strain_limit upper_strain_limit sample of Inl e \<Rightarrow> Inl e
      | Inr sample_cropped \<Rightarrow>
     (case column sample_cropped ''strain'' of Inl e \<Rightarrow> Inl e
      | Inr strain \<Rightarrow>
     (case column sample_cropped ''stress'' of Inl e \<Rightarrow> Inl e
      | Inr stress \<Rightarrow>
     (case lin_reg_all_sections ext strain stress r_squared_limit of Inl e \<Rightarrow> Inl e
      | Inr reg \<Rightarrow>
     (case concat ext sample_cropped (regression_results reg) of Inl e \<Rightarrow> Inl e
      | Inr joined \<Rightarrow>
          Inr (joined, reg, e_modulus_of_slope factor (slope_at_limit reg)))))))"

fun smooth_all ::
  "externals \<Rightarrow> nat \<Rightarrow> nat \<Rightarrow> nat option \<Rightarrow> ref list \<Rightarrow> heap \<Rightarrow> error + (ref list \<times> heap)" where
  "smooth_all ext window poly_order data_points [] h = Inr ([], h)"
| "smooth_all ext window poly_order data_points (sample # samples) h =
     (case smooth_data ext (mem h sample) window poly_order data_points of Inl e \<Rightarrow> Inl e
      | Inr smoothed \<Rightarrow>
        (case new_frame smoothed h of
           (r, h1) \<Rightarrow>
             (case smooth_all ext window poly_order data_points samples h1 of Inl e \<Rightarrow> Inl e
              | Inr (rs, h2) \<Rightarrow> Inr (r # rs, h2))))"

fun regress_all ::
  "externals \<Rightarrow> real \<Rightarrow> real \<Rightarrow> real \<Rightarrow> real \<Rightarrow> ref list \<Rightarrow> heap
     \<Rightarrow> error + ((ref \<times> regression \<times> cell) list \<times> heap)" where
  "regress_all ext factor r2 lower upper [] h = Inr ([], h)"
| "regress_all ext factor r2 lower upper (sample # samples) h =
     (case sample_e_modulus ext factor r2 lower upper (mem h sample) of Inl e \<Rightarrow> Inl e
      | Inr (joined, reg, curr_e_modulus) \<Rightarrow>
        (case new_frame joined h of
           (r, h1) \<Rightarrow>
             (case regress_all ext factor r2 lower upper samples h1 of Inl e \<Rightarrow> Inl e
              | Inr (outs, h2) \<Rightarrow> Inr ((r, reg, curr_e_modulus) # outs, h2))))"

definition calc_e_modulus ::
  "externals \<Rightarrow> tensile_test \<Rightarrow> heap \<Rightarrow> real \<Rightarrow> real \<Rightarrow> real \<Rightarrow> bool \<Rightarrow> nat \<Rightarrow> nat \<Rightarrow> nat option
     \<Rightarrow> error + (tensile_test \<times> heap)" where
  "calc_e_modulus ext self h r_squared_limit lower_strain_limit upper_strain_limit
       smooth sav_gol_window sav_gol_polyorder data_points =
     (case (if smooth then smooth_all ext sav_gol_window sav_gol_polyorder data_points (raw self) h
            else Inr (raw self, h)) of Inl e \<Rightarrow> Inl e
      | Inr (processed, h1) \<Rightarrow>
     (case regress_all ext (strain_conversion_factor self) r_squared_limit
             lower_strain_limit upper_strain_limit processed h1 of Inl e \<Rightarrow> Inl e
      | Inr (outs, h2) \<Rightarrow>
     (case set_results_column (e_modulus_title self) (map (\<lambda>(r, reg, e). e) outs) (results self) of
        Inl e \<Rightarrow> Inl e
      | Inr res1 \<Rightarrow>
     (case set_results_column (linear_limit_title self)
             (map (\<lambda>(r, reg, e). linear_limit reg) outs) res1 of Inl e \<Rightarrow> Inl e
      | Inr res2 \<Rightarrow>
     (case set_results_column (slope_limit_title self)
             (map (\<lambda>(r, reg, e). slope_at_limit reg) outs) res2 of Inl e \<Rightarrow> Inl e
      | Inr res3 \<Rightarrow>
     (case set_results_column (intercept_limit_title self)
             (map (\<lambda>(r, reg, e). intercept_at_limit reg) outs) res3 of Inl e \<Rightarrow> Inl e
      | Inr res4 \<Rightarrow>
          Inr (self\<lparr>r_squared_lower_limit := Some r_squared_limit,
                     raw_processed := processed,
                     raw_processed_cropped := map fst outs,
                     results := res4\<rparr>, h2)))))))"

subsection \<open>\<open>calc_strength\<close>, \<open>calc_toughness\<close>, \<open>calc_elongation_at_break\<close>\<close>

text \<open>A loop that appends one value per sample, and stops at the first exception.\<close>

fun collect :: "('a \<Rightarrow> error + 'b) \<Rightarrow> 'a list \<Rightarrow> error + 'b list" where
  "collect g [] = Inr []"
| "collect g (x # xs) =
     (case g x of Inl e \<Rightarrow> Inl e
      | Inr y \<Rightarrow> (case collect g xs of Inl e \<Rightarrow> Inl e | Inr ys \<Rightarrow> Inr (y # ys)))"

definition calc_strength :: "tensile_test \<Rightarrow> heap \<Rightarrow> error + tensile_test" where
  "calc_strength self h =
     (case collect sample_strength (map (mem h) (raw self)) of Inl e \<Rightarrow> Inl e
      | Inr vs \<Rightarrow>
        (case set_results_column (strength_title self) vs (results self) of Inl e \<Rightarrow> Inl e
         | Inr res \<Rightarrow> Inr (self\<lparr>strength := vs, results := res\<rparr>)))"

definition calc_toughness :: "tensile_test \<Rightarrow> heap \<Rightarrow> error + tensile_test" where
  "calc_toughness self h =
     (case collect (sample_toughness (strain_conversion_factor self)) (map (mem h) (raw self)) of
        Inl e \<Rightarrow> Inl e
      | Inr vs \<Rightarrow>
        (case set_results_column (toughness_title self) vs (results self) of Inl e \<Rightarrow> Inl e
         | Inr res \<Rightarrow> Inr (self\<lparr>toughness := vs, results := res\<rparr>)))"

definition calc_elongation_at_break :: "tensile_test \<Rightarrow> heap \<Rightarrow> error + tensile_test" where
  "calc_elongation_at_break self h =
     (case collect sample_elongation_at_break (map (mem h) (raw self)) of Inl e \<Rightarrow> Inl e
      | Inr vs \<Rightarrow>
        (case set_results_column (elongation_at_break_title self) vs (results self) of Inl e \<Rightarrow> Inl e
         | Inr res \<Rightarrow> Inr (self\<lparr>elongation_at_break := vs, results := res\<rparr>)))"

section \<open>Notions used in the statements\<close>

text \<open>Index labels are unique: every import gives a frame the labels 0, 1, 2, ...\<close>

definition labels_distinct :: "frame \<Rightarrow> bool" where
  "labels_distinct f = distinct (map label (rows f))"

text \<open>The strain column, and the order of two float cells (false on a missing value).\<close>

definition strain_values :: "frame \<Rightarrow> cell list" where
  "strain_values f = map (\<lambda>r. cells r ''strain'') (rows f)"

definition cless :: "cell \<Rightarrow> cell \<Rightarrow> bool" where
  "cless a b = (case a of None \<Rightarrow> False | Some x \<Rightarrow> (case b of None \<Rightarrow> False | Some y \<Rightarrow> x < y))"

definition strictly_increasing :: "cell list \<Rightarrow> bool" where
  "strictly_increasing cs = sorted_wrt cless cs"

text \<open>No cell of a column of the frame is missing.\<close>

definition value_complete :: "frame \<Rightarrow> bool" where
  "value_complete f = list_all (complete_row (columns f)) (rows f)"

text \<open>
  \<open>is_rounding d x y\<close>: \<open>y\<close> is \<open>x\<close> rounded to \<open>d\<close> decimals, that is, \<open>y\<close> is
  an integer multiple of \<open>1 / 10 ^ d\<close> at distance at most half such a unit from
  \<open>x\<close>, and the multiple with the even multiplier when \<open>x\<close> lies half-way between
  two of them. This does not refer to \<open>around\<close>. A missing value rounds to a missing
  value.
\<close>

definition is_rounding :: "nat \<Rightarrow> real \<Rightarrow> real \<Rightarrow> bool" where
  "is_rounding d x y =
     (let k = \<lfloor>y * 10 ^ d\<rfloor> in
      y = of_int k / 10 ^ d \<and> \<bar>y - x\<bar> \<le> 1 / (2 * 10 ^ d) \<and>
      (\<bar>y - x\<bar> = 1 / (2 * 10 ^ d) \<longrightarrow> even k))"

definition is_cell_rounding :: "nat \<Rightarrow> cell \<Rightarrow> cell \<Rightarrow> bool" where
  "is_cell_rounding d c c' =
     (case c of None \<Rightarrow> c' = None
      | Some x \<Rightarrow> (case c' of None \<Rightarrow> False | Some y \<Rightarrow> is_rounding d x y))"


text \<open>A strain strictly between the two limits.\<close>

definition strictly_between :: "real \<Rightarrow> real \<Rightarrow> cell \<Rightarrow> bool" where
  "strictly_between lower upper c = (case c of None \<Rightarrow> False | Some s \<Rightarrow> lower < s \<and> s < upper)"

text \<open>
  Collaborators for concrete runs: a regression that reports a fixed slope, a smoother
  that returns the curve as it is, a derivative without numbers, a \<open>concat\<close> that
  returns its first frame.
\<close>

definition stub_externals :: "cell \<Rightarrow> externals" where
  "stub_externals slope =
     \<lparr>derivative = (\<lambda>x y. map (\<lambda>v. None) x),
      smoothing = (\<lambda>y x window poly_order n. Inr (x, y)),
      lin_reg_all_sections = (\<lambda>x y r. Inr \<lparr>regression_results = \<lparr>columns = [], rows = [], int64_columns = []\<rparr>,
         linear_limit = None, linear_limit_stress = None, slope_at_limit = slope,
         intercept_at_limit = None\<rparr>),
      concat = (\<lambda>a b. Inr a)\<rparr>"

text \<open>
  The rows of a sample after the first two steps of \<open>streamline_data\<close> (duplicate
  strains removed, sorted by strain); of these, the rows that the preload branch
  keeps; the frame after the preload filter; and the kept rows with their strain
  recomputed from the tool distance.
\<close>

definition deduplicated_sorted :: "row list \<Rightarrow> row list" where
  "deduplicated_sorted rs = sort_key (\<lambda>r. sort_rank (cells r ''strain'')) (keep_first ''strain'' [] rs)"

definition kept_rows :: "real \<Rightarrow> frame \<Rightarrow> row list" where
  "kept_rows p f = filter (\<lambda>r. cge (cells r ''stress'') p \<and> complete_row (columns f) r)
                     (deduplicated_sorted (rows f))"

definition after_preload_filter :: "real \<Rightarrow> frame \<Rightarrow> frame" where
  "after_preload_filter p f =
     f\<lparr>rows := kept_rows p f,
       int64_columns := (if list_all (\<lambda>r. cge (cells r ''stress'') p) (deduplicated_sorted (rows f))
                         then int64_columns f else [])\<rparr>"

definition rebased_rows :: "real \<Rightarrow> real \<Rightarrow> frame \<Rightarrow> row list" where
  "rebased_rows p factor f =
     map (\<lambda>r. set_cell ''strain'' r
            (rebased_strain (''tool_distance'' \<in> set (int64_columns (after_preload_filter p f)))
               (cells (hd (kept_rows p f)) ''tool_distance'') factor (cells r ''tool_distance'')))
         (kept_rows p f)"

text \<open>
  A cell that holds an integer of magnitude at most \<open>2 ^ n\<close>; a column of such cells.
\<close>

definition integer_below :: "nat \<Rightarrow> cell \<Rightarrow> bool" where
  "integer_below n c = (case c of None \<Rightarrow> False | Some v \<Rightarrow> of_int \<lfloor>v\<rfloor> = v \<and> \<bar>v\<bar> \<le> 2 ^ n)"

definition integers_below :: "nat \<Rightarrow> string \<Rightarrow> row list \<Rightarrow> bool" where
  "integers_below n c rs = list_all (\<lambda>r. integer_below n (cells r c)) rs"

text \<open>
  What an import mode fixes: how many leading sheets are skipped and how the columns
  of the remaining sheets are named.
\<close>

definition mode_layout :: "string \<Rightarrow> (nat \<times> string list) option" where
  "mode_layout mode =
     (if mode = ''Marc_Stuhlmueller'' then Some (3, [''strain'', ''Standardkraft'', ''stress''])
      else if mode = ''Philipp Manglkammer'' then Some (3, [''stress'', ''strain''])
      else if mode = ''Lena_Schunter'' then Some (2, [''tool_distance'', ''strain'', ''stress''])
      else None)"

text \<open>The frames an import creates, and the rows of the results table it creates.\<close>

definition imported_frames :: "nat \<Rightarrow> string list \<Rightarrow> workbook \<Rightarrow> frame list" where
  "imported_frames skip names file = map (\<lambda>sheet. parse names (snd sheet)) (drop skip file)"

definition named_rows :: "nat \<Rightarrow> workbook \<Rightarrow> result_row list" where
  "named_rows skip file = map (\<lambda>sheet. \<lparr>name = Some (fst sheet), entries = (\<lambda>t. None)\<rparr>) (drop skip file)"

text \<open>A heap without objects.\<close>

definition empty_heap :: heap where
  "empty_heap = \<lparr>mem = (\<lambda>r. \<lparr>columns = [], rows = [], int64_columns = []\<rparr>), next_ref = 0\<rparr>"

text \<open>
  A workbook for concrete runs in the layout of the mode \<open>Lena_Schunter\<close>: two
  leading sheets that the import skips, a sample with two rows, and a sample whose
  only row lacks its tool distance.
\<close>

definition example_workbook :: workbook where
  "example_workbook =
     [(''Parameter'', []), (''Statistik'', []),
      (''Probe 1'', [[Some 10, Some 0, Some 5], [Some 12, Some 1, Some 6]]),
      (''Probe 2'', [[None, Some 0, Some 5]])]"

section \<open>The linear region detector\<close>

text \<open>
  Modelled from the spec: the regression sweep \<open>lin_reg_all_sections\<close> that
  \<open>calc_e_modulus\<close> calls belongs to the package pyRegression and is not among the
  sources. The definitions of this section follow section 4.3 of the specification.
  The sweep keeps running sums of x, y, xy, x*x and y*y (the last is needed for
  R squared), adds one point per step, and fits the line from the sums. A window whose
  strain has no variance has no fit (the NumericDegeneracyError of that window) and
  is left out of the scan. R squared is the squared correlation; it is a float, missing when
  the stress has no variance. The specification does not say what is reported when no
  window qualifies; the model reports nothing then.
\<close>

record running_sums =
  count :: nat
  sum_x :: real
  sum_y :: real
  sum_xy :: real
  sum_xx :: real
  sum_yy :: real

definition no_points :: running_sums where
  "no_points = \<lparr>count = 0, sum_x = 0, sum_y = 0, sum_xy = 0, sum_xx = 0, sum_yy = 0\<rparr>"

definition add_point :: "running_sums \<Rightarrow> real \<times> real \<Rightarrow> running_sums" where
  "add_point s p =
     \<lparr>count = Suc (count s), sum_x = sum_x s + fst p, sum_y = sum_y s + snd p,
      sum_xy = sum_xy s + fst p * snd p, sum_xx = sum_xx s + fst p * fst p,
      sum_yy = sum_yy s + snd p * snd p\<rparr>"

datatype fit = Fit (fit_slope: real) (fit_intercept: real) (fit_r_squared: cell)

definition fit_of_sums :: "running_sums \<Rightarrow> fit option" where
  "fit_of_sums s =
     (let n = real (count s);
          var_x = n * sum_xx s - sum_x s * sum_x s;
          var_y = n * sum_yy s - sum_y s * sum_y s;
          cov = n * sum_xy s - sum_x s * sum_y s
      in if var_x = 0 then None
         else Some (Fit (cov / var_x) ((sum_y s - cov / var_x * sum_x s) / n)
                        (cdiv (Some (cov * cov)) (Some (var_x * var_y)))))"

text \<open>
  The scan over the windows k = 2..M: \<open>s\<close> holds the sums of the points before the
  window's last point, \<open>best\<close> the last qualifying window so far (the strain of its
  last point and its fit).
\<close>

fun sweep :: "real \<Rightarrow> running_sums \<Rightarrow> (real \<times> fit) option \<Rightarrow> (real \<times> real) list
                \<Rightarrow> fit option list \<times> (real \<times> fit) option" where
  "sweep tau s best [] = ([], best)"
| "sweep tau s best (p # ps) =
     (let s1 = add_point s p;
          f = fit_of_sums s1;
          best1 = (case f of None \<Rightarrow> best
                   | Some ft \<Rightarrow> if cge (fit_r_squared ft) tau then Some (fst p, ft) else best)
      in (case sweep tau s1 best1 ps of (trace, result) \<Rightarrow> (f # trace, result)))"

datatype detector_error = InsufficientDataError

definition linear_region_detector ::
  "real \<Rightarrow> (real \<times> real) list \<Rightarrow> detector_error + (fit option list \<times> (real \<times> fit) option)" where
  "linear_region_detector tau points =
     (case points of
        p1 # p2 # rest \<Rightarrow> Inr (sweep tau (add_point no_points p1) None (p2 # rest))
      | _ \<Rightarrow> Inl InsufficientDataError)"

text \<open>
  The same in the words of the specification, without the running sums: the
  least-squares fit of the first k points, whether window k qualifies, and the last
  qualifying window of a list of window sizes.
\<close>

definition sums_of :: "(real \<times> real) list \<Rightarrow> running_sums" where
  "sums_of ps =
     \<lparr>count = length ps, sum_x = sum_list (map fst ps), sum_y = sum_list (map snd ps),
      sum_xy = sum_list (map (\<lambda>p. fst p * snd p) ps),
      sum_xx = sum_list (map (\<lambda>p. fst p * fst p) ps),
      sum_yy = sum_list (map (\<lambda>p. snd p * snd p) ps)\<rparr>"

definition window_fit :: "(real \<times> real) list \<Rightarrow> nat \<Rightarrow> fit option" where
  "window_fit points k = fit_of_sums (sums_of (take k points))"

definition qualifies :: "real \<Rightarrow> (real \<times> real) list \<Rightarrow> nat \<Rightarrow> bool" where
  "qualifies tau points k =
     (case window_fit points k of None \<Rightarrow> False | Some ft \<Rightarrow> cge (fit_r_squared ft) tau)"

definition last_qualifying :: "real \<Rightarrow> (real \<times> real) list \<Rightarrow> nat list \<Rightarrow> nat option" where
  "last_qualifying tau points ks =
     (case filter (qualifies tau points) (rev ks) of [] \<Rightarrow> None | k # _ \<Rightarrow> Some k)"

text \<open>
  The piecewise curve of the specification: strain 0..9, stress 2 * strain below
  strain 5 and 10 + 0.1 * (strain - 5) from there on.
\<close>

definition piecewise_curve :: "(real \<times> real) list" where
  "piecewise_curve =
     map (\<lambda>i. (real i, if i < 5 then 2 * real i else 10 + (real i - 5) / 10)) [0..<10]"

text \<open>What is reported for window k: the strain of its last point and its fit.\<close>

definition report :: "(real \<times> real) list \<Rightarrow> nat \<Rightarrow> (real \<times> fit) option" where
  "report points k =
     (case window_fit points k of None \<Rightarrow> None | Some ft \<Rightarrow> Some (fst (points ! (k - 1)), ft))"

section \<open>Properties of strength and elongation at break\<close>

lemma max_from_complete:
  "max_from m (map Some vs) = Max (set (m # vs))"
proof (induction vs arbitrary: m)
  case Nil
  then show ?case by simp
next
  case (Cons v vs)
  have "max_from m (map Some (v # vs)) = Max (set ((if m < v then v else m) # vs))"
    using Cons.IH by simp
  also have "\<dots> = Max (set (m # v # vs))"
    by (cases vs) (auto simp: max_def)
  finally show ?case .
qed

lemma argmax_from_complete:
  assumes "argmax_from (lb, m) (map (\<lambda>(l, x). (l, Some x)) s) = (l, v)"
  shows "((l, v) = (lb, m) \<and> (\<forall>p\<in>set s. snd p \<le> m)) \<or>
         (\<exists>i<length s. s ! i = (l, v) \<and> m < v \<and> (\<forall>j<i. snd (s ! j) < v) \<and> (\<forall>p\<in>set s. snd p \<le> v))"
  using assms
proof (induction s arbitrary: lb m)
  case Nil
  then show ?case by simp
next
  case (Cons p s)
  obtain l' x where p: "p = (l', x)" by (cases p)
  show ?case
  proof (cases "m < x")
    case True
    with Cons.prems p have "argmax_from (l', x) (map (\<lambda>(l, x). (l, Some x)) s) = (l, v)" by simp
    from Cons.IH[OF this] show ?thesis
    proof
      assume a: "(l, v) = (l', x) \<and> (\<forall>p\<in>set s. snd p \<le> x)"
      have "(p # s) ! 0 = (l, v) \<and> m < v \<and> (\<forall>j<0. snd ((p # s) ! j) < v) \<and> (\<forall>q\<in>set (p # s). snd q \<le> v)"
        using a p True by auto
      then show ?thesis by blast
    next
      assume "\<exists>i<length s. s ! i = (l, v) \<and> x < v \<and> (\<forall>j<i. snd (s ! j) < v) \<and> (\<forall>p\<in>set s. snd p \<le> v)"
      then obtain i where i: "i < length s" "s ! i = (l, v)" "x < v" "\<forall>j<i. snd (s ! j) < v" "\<forall>p\<in>set s. snd p \<le> v"
        by blast
      have "\<forall>j<Suc i. snd ((p # s) ! j) < v"
      proof (intro allI impI)
        fix j assume "j < Suc i"
        then show "snd ((p # s) ! j) < v" using i p by (cases j) auto
      qed
      moreover have "Suc i < length (p # s)" "(p # s) ! Suc i = (l, v)" "m < v" "\<forall>q\<in>set (p # s). snd q \<le> v"
        using i p True by auto
      ultimately show ?thesis by blast
    qed
  next
    case False
    with Cons.prems p have "argmax_from (lb, m) (map (\<lambda>(l, x). (l, Some x)) s) = (l, v)" by simp
    from Cons.IH[OF this] show ?thesis
    proof
      assume "(l, v) = (lb, m) \<and> (\<forall>p\<in>set s. snd p \<le> m)"
      then show ?thesis using False p by auto
    next
      assume "\<exists>i<length s. s ! i = (l, v) \<and> m < v \<and> (\<forall>j<i. snd (s ! j) < v) \<and> (\<forall>p\<in>set s. snd p \<le> v)"
      then obtain i where i: "i < length s" "s ! i = (l, v)" "m < v" "\<forall>j<i. snd (s ! j) < v" "\<forall>p\<in>set s. snd p \<le> v"
        by blast
      have "\<forall>j<Suc i. snd ((p # s) ! j) < v"
      proof (intro allI impI)
        fix j assume "j < Suc i"
        then show "snd ((p # s) ! j) < v" using i p False by (cases j) auto
      qed
      moreover have "Suc i < length (p # s)" "(p # s) ! Suc i = (l, v)" "\<forall>q\<in>set (p # s). snd q \<le> v"
        using i p False by auto
      ultimately show ?thesis using i(3) by blast
    qed
  qed
qed

lemma idxmax_complete:
  assumes "s \<noteq> []"
  shows "\<exists>i<length s. idxmax (map (\<lambda>(l, x). (l, Some x)) s) = Inr (Some (fst (s ! i))) \<and>
           (\<forall>p\<in>set s. snd p \<le> snd (s ! i)) \<and> (\<forall>j<i. snd (s ! j) < snd (s ! i))"
proof -
  obtain l0 v0 t where s: "s = (l0, v0) # t" using assms by (cases s) auto
  obtain l v where r: "argmax_from (l0, v0) (map (\<lambda>(l, x). (l, Some x)) t) = (l, v)"
    by (cases "argmax_from (l0, v0) (map (\<lambda>(l, x). (l, Some x)) t)")
  have idx: "idxmax (map (\<lambda>(l, x). (l, Some x)) s) = Inr (Some l)"
    using s r by (simp add: idxmax_def)
  from argmax_from_complete[OF r] show ?thesis
  proof
    assume "(l, v) = (l0, v0) \<and> (\<forall>p\<in>set t. snd p \<le> v0)"
    then have "0 < length s \<and> idxmax (map (\<lambda>(l, x). (l, Some x)) s) = Inr (Some (fst (s ! 0))) \<and>
           (\<forall>p\<in>set s. snd p \<le> snd (s ! 0)) \<and> (\<forall>j<0. snd (s ! j) < snd (s ! 0))"
      using idx s by auto
    then show ?thesis by blast
  next
    assume "\<exists>i<length t. t ! i = (l, v) \<and> v0 < v \<and> (\<forall>j<i. snd (t ! j) < v) \<and> (\<forall>p\<in>set t. snd p \<le> v)"
    then obtain i where i: "i < length t" "t ! i = (l, v)" "v0 < v" "\<forall>j<i. snd (t ! j) < v" "\<forall>p\<in>set t. snd p \<le> v"
      by blast
    have "\<forall>j<Suc i. snd (s ! j) < snd (s ! Suc i)"
    proof (intro allI impI)
      fix j assume "j < Suc i"
      then show "snd (s ! j) < snd (s ! Suc i)" using i s by (cases j) auto
    qed
    moreover have "Suc i < length s" "idxmax (map (\<lambda>(l, x). (l, Some x)) s) = Inr (Some (fst (s ! Suc i)))"
      "\<forall>p\<in>set s. snd p \<le> snd (s ! Suc i)"
      using i s idx by auto
    ultimately show ?thesis by blast
  qed
qed


lemma series_max_complete:
  assumes "vs \<noteq> []"
  shows "series_max (map Some vs) = Some (Max (set vs))"
proof -
  obtain v t where "vs = v # t" using assms by (cases vs) auto
  then show ?thesis using max_from_complete[of v t] by simp
qed

lemma map_of_labelled:
  assumes "distinct (map label rs)" "i < length rs"
  shows "map_of (map (\<lambda>r. (label r, g r)) rs) (label (rs ! i)) = Some (g (rs ! i))"
proof -
  have "distinct (map fst (map (\<lambda>r. (label r, g r)) rs))"
    using assms(1) by (simp add: comp_def)
  moreover have "(label (rs ! i), g (rs ! i)) \<in> set (map (\<lambda>r. (label r, g r)) rs)"
    using assms(2) by force
  ultimately show ?thesis by (rule map_of_is_SomeI)
qed

lemma strength_elongation_general:
  assumes cols: "''stress'' \<in> set (columns f)" "''strain'' \<in> set (columns f)"
    and ne: "rows f \<noteq> []"
    and complete: "\<forall>r\<in>set (rows f). cells r ''stress'' \<noteq> None"
    and dist: "labels_distinct f"
  shows "\<exists>i<length (rows f). \<exists>m. cells (rows f ! i) ''stress'' = Some m \<and>
           (\<forall>r\<in>set (rows f). cle (cells r ''stress'') m) \<and>
           (\<forall>j<i. \<not> cge (cells (rows f ! j) ''stress'') m) \<and>
           sample_strength f = Inr (Some (around 1 m)) \<and>
           sample_elongation_at_break f = Inr (around_cell 1 (cells (rows f ! i) ''strain''))"
proof -
  define val where "val = (\<lambda>r::row. the (cells r ''stress''))"
  define s where "s = map (\<lambda>r. (label r, val r)) (rows f)"
  have val: "\<And>r. r \<in> set (rows f) \<Longrightarrow> cells r ''stress'' = Some (val r)"
    using complete by (auto simp: val_def)
  have ser: "series f ''stress'' = Inr (map (\<lambda>(l, x). (l, Some x)) s)"
    using cols val by (simp add: series_def s_def)
  have col: "column f ''stress'' = Inr (map Some (map val (rows f)))"
    using cols val by (simp add: column_def)
  have "s \<noteq> []" using ne by (simp add: s_def)
  from idxmax_complete[OF this] obtain i where i: "i < length s"
    "idxmax (map (\<lambda>(l, x). (l, Some x)) s) = Inr (Some (fst (s ! i)))"
    "\<forall>p\<in>set s. snd p \<le> snd (s ! i)" "\<forall>j<i. snd (s ! j) < snd (s ! i)"
    by blast
  have len: "i < length (rows f)" using i(1) by (simp add: s_def)
  have si: "s ! i = (label (rows f ! i), val (rows f ! i))"
    using len by (simp add: s_def)
  have sj: "\<And>j. j < length (rows f) \<Longrightarrow> snd (s ! j) = val (rows f ! j)"
    by (simp add: s_def)
  let ?m = "val (rows f ! i)"
  have m_at: "cells (rows f ! i) ''stress'' = Some ?m"
    using val len by simp
  have upper: "\<forall>r\<in>set (rows f). val r \<le> ?m"
    using i(3) si by (auto simp: s_def)
  have all_le: "\<forall>r\<in>set (rows f). cle (cells r ''stress'') ?m"
    using upper val by (simp add: cle_def)
  have first: "\<forall>j<i. \<not> cge (cells (rows f ! j) ''stress'') ?m"
  proof (intro allI impI)
    fix j assume j: "j < i"
    then have "val (rows f ! j) < ?m" using i(4) si sj len by auto
    moreover have "cells (rows f ! j) ''stress'' = Some (val (rows f ! j))"
      using val j len by simp
    ultimately show "\<not> cge (cells (rows f ! j) ''stress'') ?m" by (simp add: cge_def)
  qed
  have "Max (set (map val (rows f))) = ?m"
  proof (rule Max_eqI)
    show "finite (set (map val (rows f)))" by simp
    show "\<And>y. y \<in> set (map val (rows f)) \<Longrightarrow> y \<le> ?m" using upper by auto
    show "?m \<in> set (map val (rows f))" using len by simp
  qed
  then have "series_max (map Some (map val (rows f))) = Some ?m"
    using series_max_complete[of "map val (rows f)"] ne by simp
  then have strength: "sample_strength f = Inr (Some (around 1 ?m))"
    using col by (simp add: sample_strength_def around_cell_def)
  have "series_at (map (\<lambda>r. (label r, cells r ''strain'')) (rows f)) (Some (label (rows f ! i)))
          = Inr (cells (rows f ! i) ''strain'')"
    using map_of_labelled[OF dist[unfolded labels_distinct_def] len, of "\<lambda>r. cells r ''strain''"]
    by (simp add: series_at_def)
  then have elong: "sample_elongation_at_break f = Inr (around_cell 1 (cells (rows f ! i) ''strain''))"
    using cols ser i(2) si by (simp add: sample_elongation_at_break_def series_def)
  show ?thesis using len m_at all_le first strength elong by blast
qed

lemma upt_3: "[0..<3] = [0, 1, 2]"
  by (simp add: upt_rec)

text \<open>
  Rounding: \<open>rint\<close> returns an integer nearest to its argument, the even one of the
  two when the argument lies half-way; so \<open>around\<close> returns the rounding in the sense
  of \<open>is_rounding\<close>, and there is only one such number.
\<close>

lemma rint_nearest:
  "\<bar>of_int (rint x) - x\<bar> \<le> 1 / 2 \<and> (\<bar>of_int (rint x) - x\<bar> = 1 / 2 \<longrightarrow> even (rint x))"
proof -
  define f where "f = \<lfloor>x\<rfloor>"
  define d where "d = x - of_int f"
  have d: "0 \<le> d" "d < 1" unfolding d_def f_def by linarith+
  have r: "rint x = (if d < 1 / 2 then f else if 1 / 2 < d then f + 1 else if even f then f else f + 1)"
    unfolding rint_def Let_def d_def f_def by (rule refl)
  have down: "rint x = f \<Longrightarrow> \<bar>of_int (rint x) - x\<bar> = d"
    using d by (simp add: d_def)
  have up: "rint x = f + 1 \<Longrightarrow> \<bar>of_int (rint x) - x\<bar> = 1 - d"
    using d by (simp add: d_def)
  consider "d < 1 / 2" | "1 / 2 < d" | "d = 1 / 2" "even f" | "d = 1 / 2" "odd f" by fastforce
  then show ?thesis
  proof cases
    case 1
    then have rx: "rint x = f" by (simp add: r)
    show ?thesis unfolding down[OF rx] using 1 by simp
  next
    case 2
    then have rx: "rint x = f + 1" by (simp add: r)
    show ?thesis unfolding up[OF rx] using 2 by simp
  next
    case 3
    then have rx: "rint x = f" by (simp add: r)
    show ?thesis unfolding down[OF rx] using 3 by (simp add: rx)
  next
    case 4
    then have rx: "rint x = f + 1" by (simp add: r)
    show ?thesis unfolding up[OF rx] using 4 by (simp add: rx)
  qed
qed

lemma around_is_rounding: "is_rounding d x (around d x)"
proof -
  define k where "k = rint (x * 10 ^ d)"
  have a: "around d x = of_int k / 10 ^ d" by (simp add: around_def k_def)
  have pos: "(0::real) < 10 ^ d" by simp
  have "around d x - x = (of_int k - x * 10 ^ d) / 10 ^ d"
    using pos by (simp add: a field_simps)
  then have dist: "\<bar>around d x - x\<bar> = \<bar>of_int k - x * 10 ^ d\<bar> / 10 ^ d"
    using pos by (simp add: abs_divide)
  have n: "\<bar>of_int k - x * 10 ^ d\<bar> \<le> 1 / 2"
    "\<bar>of_int k - x * 10 ^ d\<bar> = 1 / 2 \<longrightarrow> even k"
    using rint_nearest[of "x * 10 ^ d"] by (simp_all add: k_def)
  have le: "\<bar>around d x - x\<bar> \<le> 1 / (2 * 10 ^ d)"
    using n(1) pos by (simp add: dist field_simps)
  have tie: "\<bar>around d x - x\<bar> = 1 / (2 * 10 ^ d) \<longrightarrow> even k"
    using n(2) pos by (simp add: dist field_simps)
  have fl: "\<lfloor>around d x * 10 ^ d\<rfloor> = k" by (simp add: a)
  show ?thesis
    unfolding is_rounding_def Let_def fl using a le tie by simp
qed

lemma is_rounding_unique:
  assumes "is_rounding d x y" "is_rounding d x z"
  shows "y = z"
proof -
  define k where "k = \<lfloor>y * 10 ^ d\<rfloor>"
  define l where "l = \<lfloor>z * 10 ^ d\<rfloor>"
  define u where "u = x * 10 ^ d"
  have pos: "(0::real) < 10 ^ d" by simp
  have y: "y = of_int k / 10 ^ d" "\<bar>y - x\<bar> \<le> 1 / (2 * 10 ^ d)"
    "\<bar>y - x\<bar> = 1 / (2 * 10 ^ d) \<longrightarrow> even k"
    using assms(1) by (simp_all add: is_rounding_def Let_def k_def)
  have z: "z = of_int l / 10 ^ d" "\<bar>z - x\<bar> \<le> 1 / (2 * 10 ^ d)"
    "\<bar>z - x\<bar> = 1 / (2 * 10 ^ d) \<longrightarrow> even l"
    using assms(2) by (simp_all add: is_rounding_def Let_def l_def)
  have "y - x = (of_int k - u) / 10 ^ d"
    using pos by (simp add: y(1) u_def field_simps)
  then have dy: "\<bar>y - x\<bar> = \<bar>of_int k - u\<bar> / 10 ^ d"
    using pos by (simp add: abs_divide)
  have "z - x = (of_int l - u) / 10 ^ d"
    using pos by (simp add: z(1) u_def field_simps)
  then have dz: "\<bar>z - x\<bar> = \<bar>of_int l - u\<bar> / 10 ^ d"
    using pos by (simp add: abs_divide)
  have ky: "\<bar>of_int k - u\<bar> \<le> 1 / 2" "\<bar>of_int k - u\<bar> = 1 / 2 \<longrightarrow> even k"
    using y(2,3) pos by (simp_all add: dy field_simps)
  have lz: "\<bar>of_int l - u\<bar> \<le> 1 / 2" "\<bar>of_int l - u\<bar> = 1 / 2 \<longrightarrow> even l"
    using z(2,3) pos by (simp_all add: dz field_simps)
  have "k = l"
  proof (rule ccontr)
    assume ne: "k \<noteq> l"
    have "\<bar>(of_int k :: real) - of_int l\<bar> \<le> 1" using ky(1) lz(1) by linarith
    then have "\<bar>k - l\<bar> \<le> 1" by linarith
    with ne have kl: "k = l + 1 \<or> l = k + 1" by linarith
    then have "(of_int k :: real) = of_int l + 1 \<or> (of_int l :: real) = of_int k + 1"
      by auto
    then have "\<bar>of_int k - u\<bar> = 1 / 2 \<and> \<bar>of_int l - u\<bar> = 1 / 2"
      using ky(1) lz(1) by linarith
    then have "even k \<and> even l" using ky(2) lz(2) by simp
    with kl show False by auto
  qed
  then show ?thesis by (simp add: y(1) z(1))
qed

lemma around_cell_is_rounding: "is_cell_rounding d c (around_cell d c)"
  by (cases c) (simp_all add: is_cell_rounding_def around_cell_def around_is_rounding)

text \<open>
  The methods \<open>calc_strength\<close>, \<open>calc_toughness\<close> and \<open>calc_elongation_at_break\<close>
  store, sample by sample, what the body of their loop computes, in the attribute and
  in the column of the results table.
\<close>

lemma collect_values:
  "collect g xs = Inr ys \<Longrightarrow> length ys = length xs \<and> (\<forall>i<length xs. g (xs ! i) = Inr (ys ! i))"
proof (induction xs arbitrary: ys)
  case Nil
  then show ?case by simp
next
  case (Cons x xs)
  from Cons.prems obtain y zs where y: "g x = Inr y" and zs: "collect g xs = Inr zs"
    and ys: "ys = y # zs"
    by (auto split: sum.splits)
  from Cons.IH[OF zs] have len: "length zs = length xs"
    and each: "\<forall>i<length xs. g (xs ! i) = Inr (zs ! i)" by simp_all
  have "\<forall>i<length (x # xs). g ((x # xs) ! i) = Inr (ys ! i)"
  proof (intro allI impI)
    fix i assume "i < length (x # xs)"
    then show "g ((x # xs) ! i) = Inr (ys ! i)" using y each ys by (cases i) simp_all
  qed
  then show ?case using len ys by simp
qed

lemma set_results_column_values:
  assumes "set_results_column title vs rs = Inr res"
  shows "map (\<lambda>r. entries r title) res = vs"
proof (cases "rs = []")
  case True
  then have "res = map (\<lambda>v. \<lparr>name = None, entries = (\<lambda>t. None)(title := v)\<rparr>) vs"
    using assms by (auto simp: set_results_column_def)
  then show ?thesis by (simp add: comp_def)
next
  case False
  then have len: "length vs = length rs"
    and res: "res = map2 (\<lambda>r v. r\<lparr>entries := (entries r)(title := v)\<rparr>) rs vs"
    using assms by (auto simp: set_results_column_def split: if_splits)
  show ?thesis unfolding res using len by (auto intro: nth_equalityI)
qed

lemma calc_strength_values:
  assumes "calc_strength self h = Inr t"
  shows "length (strength t) = length (raw self) \<and>
         (\<forall>i<length (raw self). sample_strength (mem h (raw self ! i)) = Inr (strength t ! i)) \<and>
         map (\<lambda>r. entries r (strength_title self)) (results t) = strength t"
proof -
  from assms obtain vs res where
    c: "collect sample_strength (map (mem h) (raw self)) = Inr vs"
    and r: "set_results_column (strength_title self) vs (results self) = Inr res"
    and t: "t = self\<lparr>strength := vs, results := res\<rparr>"
    by (auto simp: calc_strength_def split: sum.splits)
  from collect_values[OF c] set_results_column_values[OF r] show ?thesis by (simp add: t)
qed

lemma calc_elongation_at_break_values:
  assumes "calc_elongation_at_break self h = Inr t"
  shows "length (elongation_at_break t) = length (raw self) \<and>
         (\<forall>i<length (raw self).
            sample_elongation_at_break (mem h (raw self ! i)) = Inr (elongation_at_break t ! i)) \<and>
         map (\<lambda>r. entries r (elongation_at_break_title self)) (results t) = elongation_at_break t"
proof -
  from assms obtain vs res where
    c: "collect sample_elongation_at_break (map (mem h) (raw self)) = Inr vs"
    and r: "set_results_column (elongation_at_break_title self) vs (results self) = Inr res"
    and t: "t = self\<lparr>elongation_at_break := vs, results := res\<rparr>"
    by (auto simp: calc_elongation_at_break_def split: sum.splits)
  from collect_values[OF c] set_results_column_values[OF r] show ?thesis by (simp add: t)
qed

text \<open>
  C9: on a non-empty curve with the columns strain and stress, no missing stress and
  unique index labels (every cleaned curve is one), there is a position \<open>i\<close> whose
  stress \<open>m\<close> is the maximum stress, no earlier position reaches \<open>m\<close>, the strength is
  \<open>m\<close> rounded to 1 decimal and the elongation at break is the strain at \<open>i\<close> rounded
  to 1 decimal. Rounded to 1 decimal means the nearest multiple of 0.1, the even
  multiple on a tie (\<open>is_rounding\<close>). \<open>calc_strength\<close> and \<open>calc_elongation_at_break\<close>
  store these values for every sample of the working list, in their attribute and in
  their column of the results table. For strain = [0, 1, 2] and stress = [1, 5, 3] the
  strength is 5.0 and the elongation at break is 1.0; for strain = [0, 1.25, 2] and
  stress = [1, 5.27, 3] they are 5.3 and 1.2; the maximum stresses 5.25 and 5.75 give
  the strengths 5.2 and 5.8; for stress = [1, 5, 5] the elongation at break is the
  strain of the first of the two maxima.
\<close>

theorem strength_and_elongation_at_break:
  "(\<forall>f. ''stress'' \<in> set (columns f) \<and> ''strain'' \<in> set (columns f) \<and> rows f \<noteq> [] \<and>
        (\<forall>r\<in>set (rows f). cells r ''stress'' \<noteq> None) \<and> labels_distinct f \<longrightarrow>
        (\<exists>i<length (rows f). \<exists>m. cells (rows f ! i) ''stress'' = Some m \<and>
           (\<forall>r\<in>set (rows f). cle (cells r ''stress'') m) \<and>
           (\<forall>j<i. \<not> cge (cells (rows f ! j) ''stress'') m) \<and>
           sample_strength f = Inr (Some (around 1 m)) \<and>
           is_rounding 1 m (around 1 m) \<and>
           sample_elongation_at_break f = Inr (around_cell 1 (cells (rows f ! i) ''strain'')) \<and>
           is_cell_rounding 1 (cells (rows f ! i) ''strain'')
             (around_cell 1 (cells (rows f ! i) ''strain'')))) \<and>
   (\<forall>self h t. calc_strength self h = Inr t \<longrightarrow>
        length (strength t) = length (raw self) \<and>
        (\<forall>i<length (raw self). sample_strength (mem h (raw self ! i)) = Inr (strength t ! i)) \<and>
        map (\<lambda>r. entries r (strength_title self)) (results t) = strength t) \<and>
   (\<forall>self h t. calc_elongation_at_break self h = Inr t \<longrightarrow>
        length (elongation_at_break t) = length (raw self) \<and>
        (\<forall>i<length (raw self).
           sample_elongation_at_break (mem h (raw self ! i)) = Inr (elongation_at_break t ! i)) \<and>
        map (\<lambda>r. entries r (elongation_at_break_title self)) (results t) = elongation_at_break t) \<and>
   sample_strength (frame_of_curve [Some 0, Some 1, Some 2] [Some 1, Some 5, Some 3]) = Inr (Some 5) \<and>
   sample_elongation_at_break (frame_of_curve [Some 0, Some 1, Some 2] [Some 1, Some 5, Some 3])
     = Inr (Some 1) \<and>
   sample_strength (frame_of_curve [Some 0, Some (5 / 4), Some 2] [Some 1, Some (527 / 100), Some 3])
     = Inr (Some (53 / 10)) \<and>
   sample_elongation_at_break
       (frame_of_curve [Some 0, Some (5 / 4), Some 2] [Some 1, Some (527 / 100), Some 3])
     = Inr (Some (12 / 10)) \<and>
   sample_strength (frame_of_curve [Some 0, Some 1] [Some 1, Some (21 / 4)]) = Inr (Some (52 / 10)) \<and>
   sample_strength (frame_of_curve [Some 0, Some 1] [Some 1, Some (23 / 4)]) = Inr (Some (58 / 10)) \<and>
   sample_elongation_at_break (frame_of_curve [Some 0, Some 1, Some 2] [Some 1, Some 5, Some 5])
     = Inr (Some 1)"
proof (intro conjI allI impI)
  fix f
  assume "''stress'' \<in> set (columns f) \<and> ''strain'' \<in> set (columns f) \<and> rows f \<noteq> [] \<and>
        (\<forall>r\<in>set (rows f). cells r ''stress'' \<noteq> None) \<and> labels_distinct f"
  then obtain i m where "i < length (rows f)" "cells (rows f ! i) ''stress'' = Some m"
    "\<forall>r\<in>set (rows f). cle (cells r ''stress'') m"
    "\<forall>j<i. \<not> cge (cells (rows f ! j) ''stress'') m"
    "sample_strength f = Inr (Some (around 1 m))"
    "sample_elongation_at_break f = Inr (around_cell 1 (cells (rows f ! i) ''strain''))"
    using strength_elongation_general[of f] by blast
  then show "\<exists>i<length (rows f). \<exists>m. cells (rows f ! i) ''stress'' = Some m \<and>
           (\<forall>r\<in>set (rows f). cle (cells r ''stress'') m) \<and>
           (\<forall>j<i. \<not> cge (cells (rows f ! j) ''stress'') m) \<and>
           sample_strength f = Inr (Some (around 1 m)) \<and>
           is_rounding 1 m (around 1 m) \<and>
           sample_elongation_at_break f = Inr (around_cell 1 (cells (rows f ! i) ''strain'')) \<and>
           is_cell_rounding 1 (cells (rows f ! i) ''strain'')
             (around_cell 1 (cells (rows f ! i) ''strain''))"
    using around_is_rounding[of 1 m] around_cell_is_rounding[of 1 "cells (rows f ! i) ''strain''"]
    by blast
next
  fix self h t assume "calc_strength self h = Inr t"
  from calc_strength_values[OF this]
  show "length (strength t) = length (raw self)"
    and "\<And>i. i < length (raw self) \<Longrightarrow> sample_strength (mem h (raw self ! i)) = Inr (strength t ! i)"
    and "map (\<lambda>r. entries r (strength_title self)) (results t) = strength t"
    by simp_all
next
  fix self h t assume "calc_elongation_at_break self h = Inr t"
  from calc_elongation_at_break_values[OF this]
  show "length (elongation_at_break t) = length (raw self)"
    and "\<And>i. i < length (raw self) \<Longrightarrow>
           sample_elongation_at_break (mem h (raw self ! i)) = Inr (elongation_at_break t ! i)"
    and "map (\<lambda>r. entries r (elongation_at_break_title self)) (results t) = elongation_at_break t"
    by simp_all
next
  show "sample_strength (frame_of_curve [Some 0, Some 1, Some 2] [Some 1, Some 5, Some 3]) = Inr (Some 5)"
    by (simp add: frame_of_curve_def parse_def row_cells_def upt_3 sample_strength_def
        column_def around_cell_def around_def rint_def)
next
  show "sample_elongation_at_break (frame_of_curve [Some 0, Some 1, Some 2] [Some 1, Some 5, Some 3])
     = Inr (Some 1)"
    by (simp add: frame_of_curve_def parse_def row_cells_def upt_3 sample_elongation_at_break_def
        series_def idxmax_def series_at_def around_cell_def around_def rint_def)
next
  show "sample_strength (frame_of_curve [Some 0, Some (5 / 4), Some 2] [Some 1, Some (527 / 100), Some 3])
     = Inr (Some (53 / 10))"
    by code_simp
next
  show "sample_elongation_at_break
       (frame_of_curve [Some 0, Some (5 / 4), Some 2] [Some 1, Some (527 / 100), Some 3])
     = Inr (Some (12 / 10))"
    by code_simp
next
  show "sample_strength (frame_of_curve [Some 0, Some 1] [Some 1, Some (21 / 4)]) = Inr (Some (52 / 10))"
    by code_simp
next
  show "sample_strength (frame_of_curve [Some 0, Some 1] [Some 1, Some (23 / 4)]) = Inr (Some (58 / 10))"
    by code_simp
next
  show "sample_elongation_at_break (frame_of_curve [Some 0, Some 1, Some 2] [Some 1, Some 5, Some 5])
     = Inr (Some 1)"
    by code_simp
qed

theorem strength_and_elongation_at_break_witness:
  "(\<exists>i<length (rows (frame_of_curve [Some 0, Some (5 / 4), Some 2] [Some 1, Some (527 / 100), Some 3])).
      \<exists>m. cells (rows (frame_of_curve [Some 0, Some (5 / 4), Some 2]
                        [Some 1, Some (527 / 100), Some 3]) ! i) ''stress'' = Some m \<and>
      sample_strength (frame_of_curve [Some 0, Some (5 / 4), Some 2] [Some 1, Some (527 / 100), Some 3])
        = Inr (Some (around 1 m)) \<and>
      is_rounding 1 m (around 1 m) \<and>
      sample_elongation_at_break
          (frame_of_curve [Some 0, Some (5 / 4), Some 2] [Some 1, Some (527 / 100), Some 3])
        = Inr (around_cell 1
            (cells (rows (frame_of_curve [Some 0, Some (5 / 4), Some 2]
                           [Some 1, Some (527 / 100), Some 3]) ! i) ''strain''))) \<and>
   (\<exists>t. calc_strength
           ((new_tensile_test [] ''Philipp Manglkammer'' [] ''MPa'' None 1)\<lparr>raw := [0]\<rparr>)
           (snd (new_frame (frame_of_curve [Some 0, Some (5 / 4), Some 2]
                              [Some 1, Some (527 / 100), Some 3]) empty_heap)) = Inr t \<and>
         strength t = [Some (53 / 10)] \<and>
         map (\<lambda>r. entries r ''strength [MPa]'') (results t) = strength t) \<and>
   (\<exists>t. calc_elongation_at_break
           ((new_tensile_test [] ''Philipp Manglkammer'' [] ''MPa'' None 1)\<lparr>raw := [0]\<rparr>)
           (snd (new_frame (frame_of_curve [Some 0, Some (5 / 4), Some 2]
                              [Some 1, Some (527 / 100), Some 3]) empty_heap)) = Inr t \<and>
         elongation_at_break t = [Some (12 / 10)] \<and>
         map (\<lambda>r. entries r ''elongation_at_break []'') (results t) = elongation_at_break t)"
proof -
  let ?f = "frame_of_curve [Some 0, Some (5 / 4), Some 2] [Some 1, Some (527 / 100), Some 3]"
  let ?self = "(new_tensile_test [] ''Philipp Manglkammer'' [] ''MPa'' None 1)\<lparr>raw := [0]\<rparr>"
  let ?h = "snd (new_frame ?f empty_heap)"
  note claim = strength_and_elongation_at_break
  have hyp: "''stress'' \<in> set (columns ?f) \<and> ''strain'' \<in> set (columns ?f) \<and> rows ?f \<noteq> [] \<and>
        (\<forall>r\<in>set (rows ?f). cells r ''stress'' \<noteq> None) \<and> labels_distinct ?f"
    by code_simp
  from claim have
    "\<forall>f. ''stress'' \<in> set (columns f) \<and> ''strain'' \<in> set (columns f) \<and> rows f \<noteq> [] \<and>
        (\<forall>r\<in>set (rows f). cells r ''stress'' \<noteq> None) \<and> labels_distinct f \<longrightarrow>
        (\<exists>i<length (rows f). \<exists>m. cells (rows f ! i) ''stress'' = Some m \<and>
           (\<forall>r\<in>set (rows f). cle (cells r ''stress'') m) \<and>
           (\<forall>j<i. \<not> cge (cells (rows f ! j) ''stress'') m) \<and>
           sample_strength f = Inr (Some (around 1 m)) \<and>
           is_rounding 1 m (around 1 m) \<and>
           sample_elongation_at_break f = Inr (around_cell 1 (cells (rows f ! i) ''strain'')) \<and>
           is_cell_rounding 1 (cells (rows f ! i) ''strain'')
             (around_cell 1 (cells (rows f ! i) ''strain'')))"
    by (rule conjunct1)
  with hyp have first: "\<exists>i<length (rows ?f). \<exists>m. cells (rows ?f ! i) ''stress'' = Some m \<and>
      sample_strength ?f = Inr (Some (around 1 m)) \<and> is_rounding 1 m (around 1 m) \<and>
      sample_elongation_at_break ?f = Inr (around_cell 1 (cells (rows ?f ! i) ''strain''))"
    by blast
  have mem: "mem ?h 0 = ?f" by (simp add: new_frame_def empty_heap_def)
  have sf: "sample_strength ?f = Inr (Some (53 / 10))"
    and ef: "sample_elongation_at_break ?f = Inr (Some (12 / 10))"
    using claim by simp_all
  have obj: "raw ?self = [0]" "results ?self = []" "strength_title ?self = ''strength [MPa]''"
    "elongation_at_break_title ?self = ''elongation_at_break []''"
    by (simp_all add: new_tensile_test_def)
  have "\<exists>t. calc_strength ?self ?h = Inr t \<and> strength t = [Some (53 / 10)]"
    by (simp add: calc_strength_def obj mem sf set_results_column_def)
  then obtain t where t: "calc_strength ?self ?h = Inr t" "strength t = [Some (53 / 10)]" by blast
  from claim t(1) have "map (\<lambda>r. entries r (strength_title ?self)) (results t) = strength t"
    by blast
  with t have second: "\<exists>t. calc_strength ?self ?h = Inr t \<and> strength t = [Some (53 / 10)] \<and>
         map (\<lambda>r. entries r ''strength [MPa]'') (results t) = strength t"
    unfolding obj(3) by blast
  have "\<exists>t. calc_elongation_at_break ?self ?h = Inr t \<and> elongation_at_break t = [Some (12 / 10)]"
    by (simp add: calc_elongation_at_break_def obj mem ef set_results_column_def)
  then obtain u where u: "calc_elongation_at_break ?self ?h = Inr u"
    "elongation_at_break u = [Some (12 / 10)]" by blast
  from claim u(1) have
    "map (\<lambda>r. entries r (elongation_at_break_title ?self)) (results u) = elongation_at_break u"
    by blast
  with u have third: "\<exists>t. calc_elongation_at_break ?self ?h = Inr t \<and>
         elongation_at_break t = [Some (12 / 10)] \<and>
         map (\<lambda>r. entries r ''elongation_at_break []'') (results t) = elongation_at_break t"
    unfolding obj(4) by blast
  from first second third show ?thesis by blast
qed

section \<open>Properties of the toughness\<close>

text \<open>Integer operations on small integers do not wrap around.\<close>

lemma wrap64_id: "- (2 ^ 63) \<le> k \<Longrightarrow> k < 2 ^ 63 \<Longrightarrow> wrap64 k = k"
  by (simp add: wrap64_def)

lemma integer_below_obtain:
  assumes "integer_below n c"
  obtains k where "c = Some (of_int k)" "\<bar>k\<bar> \<le> 2 ^ n"
proof -
  from assms obtain v where v: "c = Some v" "of_int \<lfloor>v\<rfloor> = v" "\<bar>v\<bar> \<le> 2 ^ n"
    by (cases c) (simp_all add: integer_below_def del: of_int_floor_cancel)
  have "\<bar>of_int \<lfloor>v\<rfloor> :: real\<bar> \<le> 2 ^ n" unfolding v(2) by (rule v(3))
  then have "\<bar>of_int \<lfloor>v\<rfloor> :: real\<bar> \<le> of_int (2 ^ n)" by simp
  then have "\<bar>\<lfloor>v\<rfloor>\<bar> \<le> 2 ^ n" by linarith
  moreover have "c = Some (of_int \<lfloor>v\<rfloor>)" unfolding v(2) by (rule v(1))
  ultimately show thesis using that[of "\<lfloor>v\<rfloor>"] by blast
qed























section \<open>Properties of the elastic modulus\<close>

lemma rint_of_int: "rint (of_int k) = k"
  by (simp add: rint_def)

lemma around_of_rounded: "around d (of_int k / 10 ^ d) = of_int k / 10 ^ d"
  using rint_of_int[of k] by (simp add: around_def)

lemma around_idem: "around d (around d x) = around d x"
  unfolding around_def[of d x] by (rule around_of_rounded)

lemma around_3_times_100: "around 3 (around 3 x * 100) = around 3 x * 100"
proof -
  have "around 3 x * 100 * 10 ^ 3 = of_int (rint (x * 10 ^ 3) * 100)"
    by (simp add: around_def)
  then have "rint (around 3 x * 100 * 10 ^ 3) = rint (x * 10 ^ 3) * 100"
    using rint_of_int by (simp only:)
  then show ?thesis by (simp add: around_def)
qed

lemma e_modulus_cases:
  "e_modulus_of_slope factor None = None"
  "e_modulus_of_slope factor (Some s) = Some (around 3 (around 3 s * factor))"
  "e_modulus_of_slope 1 (Some s) = Some (around 3 (s * 1))"
  "e_modulus_of_slope 100 (Some s) = Some (around 3 s * 100)"
  by (simp_all add: e_modulus_of_slope_def around_cell_def cmul_def around_idem around_3_times_100)

lemma sample_e_modulus_value:
  assumes "sample_e_modulus ext factor r2 lower upper sample = Inr (joined, reg, e)"
  shows "e = e_modulus_of_slope factor (slope_at_limit reg)"
  using assms
  by (auto simp: sample_e_modulus_def split: sum.splits)

text \<open>
  C2 as stated fails: with the conversion factor 100 and the slope 0.0126 the code
  reports 1.3, while the product 1.26 rounded to 3 decimals is 1.26.
\<close>

theorem e_modulus_rounds_product_counterexample:
  "e_modulus_of_slope 100 (Some (126 / 10000)) = Some (13 / 10) \<and>
   around_cell 3 (cmul (Some (126 / 10000)) (Some 100)) = Some (126 / 100)"
  by (simp add: e_modulus_of_slope_def around_cell_def cmul_def around_def rint_def)

text \<open>
  C2, amended: the reported elastic modulus is the slope at the limit rounded to 3
  decimals, multiplied by the strain conversion factor, and rounded to 3 decimals
  again. For the factor 1 this is the product rounded to 3 decimals; for the factor
  100 it is 100 times the rounded slope.
\<close>

theorem e_modulus_rounds_slope_first:
  "(sample_e_modulus ext factor r2 lower upper sample = Inr (joined, reg, e) \<longrightarrow>
      e = around_cell 3 (cmul (around_cell 3 (slope_at_limit reg)) (Some factor))) \<and>
   e_modulus_of_slope factor (Some s) = Some (around 3 (around 3 s * factor)) \<and>
   e_modulus_of_slope 1 (Some s) = Some (around 3 (s * 1)) \<and>
   e_modulus_of_slope 100 (Some s) = Some (around 3 s * 100)"
proof (intro conjI impI)
  assume "sample_e_modulus ext factor r2 lower upper sample = Inr (joined, reg, e)"
  then show "e = around_cell 3 (cmul (around_cell 3 (slope_at_limit reg)) (Some factor))"
    using sample_e_modulus_value by (simp add: e_modulus_of_slope_def)
qed (simp_all add: e_modulus_cases around_idem around_3_times_100)

theorem e_modulus_rounds_slope_first_witness:
  "sample_e_modulus (stub_externals (Some (126 / 10000))) 100 (995 / 1000) 0 50
       (frame_of_curve [Some 0, Some 1, Some 2] [Some 0, Some 2, Some 4])
     = Inr (frame_of_curve [Some 1, Some 2] [Some 2, Some 4],
            \<lparr>regression_results = \<lparr>columns = [], rows = [], int64_columns = []\<rparr>, linear_limit = None,
             linear_limit_stress = None, slope_at_limit = Some (126 / 10000),
             intercept_at_limit = None\<rparr>,
            Some (13 / 10)) \<and>
   Some (13 / 10) = around_cell 3 (cmul (around_cell 3 (Some (126 / 10000))) (Some 100))"
proof -
  have run: "sample_e_modulus (stub_externals (Some (126 / 10000))) 100 (995 / 1000) 0 50
       (frame_of_curve [Some 0, Some 1, Some 2] [Some 0, Some 2, Some 4])
     = Inr (frame_of_curve [Some 1, Some 2] [Some 2, Some 4],
            \<lparr>regression_results = \<lparr>columns = [], rows = [], int64_columns = []\<rparr>, linear_limit = None,
             linear_limit_stress = None, slope_at_limit = Some (126 / 10000),
             intercept_at_limit = None\<rparr>,
            Some (13 / 10))"
    by (simp add: sample_e_modulus_def stub_externals_def crop_def frame_of_curve_def parse_def
        row_cells_def upt_3 column_def cle_def cge_def drop_labels_def reset_index_def
        upt_rec[of 0 2] upt_rec[of 1 2] e_modulus_of_slope_def around_cell_def cmul_def
        around_def rint_def)
  with e_modulus_rounds_slope_first[of "stub_externals (Some (126 / 10000))" 100 "995 / 1000" 0 50
      "frame_of_curve [Some 0, Some 1, Some 2] [Some 0, Some 2, Some 4]"
      "frame_of_curve [Some 1, Some 2] [Some 2, Some 4]"
      "\<lparr>regression_results = \<lparr>columns = [], rows = [], int64_columns = []\<rparr>, linear_limit = None,
             linear_limit_stress = None, slope_at_limit = Some (126 / 10000),
             intercept_at_limit = None\<rparr>" "Some (13 / 10)"]
  show ?thesis by simp
qed

section \<open>The strain range of the regression\<close>

lemma drop_labels_rows:
  assumes dist: "distinct (map label (rows f))" and sub: "set qs \<subseteq> set (rows f)"
  shows "drop_labels (map label qs) f = Inr (f\<lparr>rows := filter (\<lambda>r. r \<notin> set qs) (rows f)\<rparr>)"
proof -
  have inj: "inj_on label (set (rows f))"
    using dist by (simp add: distinct_map)
  have present: "list_all (\<lambda>l. l \<in> label ` set (rows f)) (map label qs)"
    using sub by (auto simp: list_all_iff)
  have "filter (\<lambda>r. label r \<notin> set (map label qs)) (rows f) = filter (\<lambda>r. r \<notin> set qs) (rows f)"
  proof (rule filter_cong[OF refl])
    fix r assume r: "r \<in> set (rows f)"
    have "label r \<in> label ` set qs \<longleftrightarrow> r \<in> set qs"
      using inj r sub by (auto dest: inj_onD)
    then show "(label r \<notin> set (map label qs)) = (r \<notin> set qs)" by simp
  qed
  then show ?thesis using present by (simp add: drop_labels_def)
qed

lemma crop_general:
  assumes dist: "labels_distinct f" and col: "''strain'' \<in> set (columns f)"
    and lim: "lower < upper"
  shows "crop lower upper f =
     Inr (reset_index (f\<lparr>rows := filter (\<lambda>r. \<not> cle (cells r ''strain'') lower \<and>
                                          \<not> cge (cells r ''strain'') upper) (rows f)\<rparr>))"
proof -
  let ?P = "\<lambda>r::row. cle (cells r ''strain'') lower"
  let ?Q = "\<lambda>r::row. cge (cells r ''strain'') upper"
  let ?c1 = "f\<lparr>rows := filter (\<lambda>r. \<not> ?P r) (rows f)\<rparr>"
  have d: "distinct (map label (rows f))" using dist by (simp add: labels_distinct_def)
  have excl: "\<And>r. ?Q r \<Longrightarrow> \<not> ?P r"
    using lim by (auto simp: cle_def cge_def split: option.splits)
  have "drop_labels (map label (filter ?P (rows f))) f
      = Inr (f\<lparr>rows := filter (\<lambda>r. r \<notin> set (filter ?P (rows f))) (rows f)\<rparr>)"
    using d by (intro drop_labels_rows) auto
  moreover have "filter (\<lambda>r. r \<notin> set (filter ?P (rows f))) (rows f) = filter (\<lambda>r. \<not> ?P r) (rows f)"
    by (rule filter_cong) auto
  ultimately have first: "drop_labels (map label (filter ?P (rows f))) f = Inr ?c1" by simp
  have "drop_labels (map label (filter ?Q (rows f))) ?c1
      = Inr (?c1\<lparr>rows := filter (\<lambda>r. r \<notin> set (filter ?Q (rows f))) (rows ?c1)\<rparr>)"
  proof (rule drop_labels_rows)
    show "distinct (map label (rows ?c1))" using d by (simp add: distinct_map_filter)
    show "set (filter ?Q (rows f)) \<subseteq> set (rows ?c1)" using excl by auto
  qed
  moreover have "filter (\<lambda>r. r \<notin> set (filter ?Q (rows f))) (rows ?c1)
      = filter (\<lambda>r. \<not> ?P r \<and> \<not> ?Q r) (rows f)"
    by (auto intro: filter_cong)
  ultimately have second: "drop_labels (map label (filter ?Q (rows f))) ?c1
      = Inr (f\<lparr>rows := filter (\<lambda>r. \<not> ?P r \<and> \<not> ?Q r) (rows f)\<rparr>)"
    by simp
  show ?thesis
    using col first second by (simp add: crop_def column_def)
qed

lemma reset_index_cells:
  "map cells (rows (reset_index f)) = map cells (rows f)"
  by (auto simp: reset_index_def intro: nth_equalityI)

lemma reset_index_labels:
  "map label (rows (reset_index f)) = [0..<length (rows f)]"
  by (auto simp: reset_index_def intro: nth_equalityI)

text \<open>
  C3 as stated fails: with the limits 0 and 50, the point with strain 0, equal to the
  lower limit, is dropped from the curve with the strains 0, 1, 2.
\<close>

theorem crop_lower_limit_counterexample:
  "crop 0 50 (frame_of_curve [Some 0, Some 1, Some 2] [Some 0, Some 2, Some 4])
     = Inr (frame_of_curve [Some 1, Some 2] [Some 2, Some 4])"
  by (simp add: crop_def frame_of_curve_def parse_def row_cells_def upt_3 column_def cle_def
      cge_def drop_labels_def reset_index_def upt_rec[of 0 2] upt_rec[of 1 2])

text \<open>
  C3, amended: for a processed curve with unique index labels and no missing strain,
  and limits with lower < upper, the sub-curve handed to the regression holds, in
  their order and with the labels 0, 1, 2, ..., exactly the points whose strain lies
  in the open interval between the limits; a point with strain equal to either limit
  is excluded.
\<close>

theorem crop_keeps_open_strain_interval:
  "labels_distinct f \<and> ''strain'' \<in> set (columns f) \<and>
   (\<forall>r\<in>set (rows f). cells r ''strain'' \<noteq> None) \<and> lower < upper \<longrightarrow>
   (\<exists>c. crop lower upper f = Inr c \<and> columns c = columns f \<and>
        map cells (rows c) =
          map cells (filter (\<lambda>r. strictly_between lower upper (cells r ''strain'')) (rows f)) \<and>
        map label (rows c) = [0..<length (rows c)])"
proof
  assume h: "labels_distinct f \<and> ''strain'' \<in> set (columns f) \<and>
   (\<forall>r\<in>set (rows f). cells r ''strain'' \<noteq> None) \<and> lower < upper"
  let ?kept = "filter (\<lambda>r. \<not> cle (cells r ''strain'') lower \<and> \<not> cge (cells r ''strain'') upper) (rows f)"
  let ?c = "reset_index (f\<lparr>rows := ?kept\<rparr>)"
  have run: "crop lower upper f = Inr ?c"
    using h crop_general by blast
  have "?kept = filter (\<lambda>r. strictly_between lower upper (cells r ''strain'')) (rows f)"
    using h by (intro filter_cong) (auto simp: cle_def cge_def strictly_between_def)
  then have "map cells (rows ?c) =
          map cells (filter (\<lambda>r. strictly_between lower upper (cells r ''strain'')) (rows f))"
    by (simp add: reset_index_cells)
  moreover have "map label (rows ?c) = [0..<length (rows ?c)]"
    by (simp add: reset_index_labels) (simp add: reset_index_def)
  moreover have "columns ?c = columns f" by (simp add: reset_index_def)
  ultimately show "\<exists>c. crop lower upper f = Inr c \<and> columns c = columns f \<and>
        map cells (rows c) =
          map cells (filter (\<lambda>r. strictly_between lower upper (cells r ''strain'')) (rows f)) \<and>
        map label (rows c) = [0..<length (rows c)]"
    using run by blast
qed

theorem crop_keeps_open_strain_interval_witness:
  "\<exists>c. crop 0 2 (frame_of_curve [Some 0, Some 1, Some 2] [Some 0, Some 2, Some 4]) = Inr c \<and>
        columns c = [''strain'', ''stress''] \<and>
        map (\<lambda>r. cells r ''strain'') (rows c) = [Some 1] \<and>
        map label (rows c) = [0]"
proof -
  let ?f = "frame_of_curve [Some 0, Some 1, Some 2] [Some 0, Some 2, Some 4]"
  have hyp: "labels_distinct ?f \<and> ''strain'' \<in> set (columns ?f) \<and>
      (\<forall>r\<in>set (rows ?f). cells r ''strain'' \<noteq> None) \<and> (0::real) < 2"
    by (simp add: frame_of_curve_def parse_def row_cells_def upt_3 labels_distinct_def)
  from crop_keeps_open_strain_interval[of ?f 0 2] hyp obtain c where c:
    "crop 0 2 ?f = Inr c" "columns c = columns ?f"
    "map cells (rows c) = map cells (filter (\<lambda>r. strictly_between 0 2 (cells r ''strain'')) (rows ?f))"
    "map label (rows c) = [0..<length (rows c)]"
    by blast
  have kept: "filter (\<lambda>r. strictly_between 0 2 (cells r ''strain'')) (rows ?f)
      = [\<lparr>label = 1, cells = row_cells [''strain'', ''stress''] [Some 1, Some 2]\<rparr>]"
    by (simp add: frame_of_curve_def parse_def row_cells_def upt_3 strictly_between_def)
  have "map (\<lambda>r. cells r ''strain'') (rows c) = map (\<lambda>g. g ''strain'') (map cells (rows c))"
    by simp
  also have "\<dots> = [Some 1]"
    unfolding c(3) kept by (simp add: row_cells_def)
  finally have strains: "map (\<lambda>r. cells r ''strain'') (rows c) = [Some 1]" .
  then have "length (rows c) = 1"
    using length_map[of "\<lambda>r. cells r ''strain''" "rows c"] by simp
  then have "map label (rows c) = [0]" using c(4) by simp
  moreover have "columns c = [''strain'', ''stress'']"
    using c(2) by (simp add: frame_of_curve_def parse_def)
  ultimately show ?thesis using c(1) strains by (intro exI[of _ c]) simp
qed

section \<open>Properties of the cleaning\<close>

lemma keep_first_set: "set (keep_first c seen rs) \<subseteq> set rs"
  by (induction rs arbitrary: seen) auto

lemma keep_first_keys:
  "distinct (map (\<lambda>r. cells r c) (keep_first c seen rs)) \<and>
   (\<forall>r\<in>set (keep_first c seen rs). cells r c \<notin> set seen)"
proof (induction rs arbitrary: seen)
  case Nil
  then show ?case by simp
next
  case (Cons r rs)
  show ?case
  proof (cases "cells r c \<in> set seen")
    case True
    then show ?thesis using Cons.IH[of seen] by simp
  next
    case False
    then show ?thesis using Cons.IH[of "cells r c # seen"] by auto
  qed
qed

lemma keep_first_id:
  "distinct (map (\<lambda>r. cells r c) rs) \<Longrightarrow> (\<forall>r\<in>set rs. cells r c \<notin> set seen)
     \<Longrightarrow> keep_first c seen rs = rs"
proof (induction rs arbitrary: seen)
  case Nil
  then show ?case by simp
next
  case (Cons a rs)
  have "keep_first c (cells a c # seen) rs = rs"
    using Cons.prems by (intro Cons.IH) (auto simp: image_iff)
  then show ?case using Cons.prems by simp
qed

lemma keep_first_labels:
  "distinct (map label rs) \<Longrightarrow> distinct (map label (keep_first c seen rs))"
proof (induction rs arbitrary: seen)
  case Nil
  then show ?case by simp
next
  case (Cons a rs)
  then show ?case using keep_first_set[of c _ rs] by (auto simp: image_iff)
qed

lemma sort_rank_inj: "sort_rank a = sort_rank b \<Longrightarrow> a = b"
  by (auto simp: sort_rank_def split: option.splits)

lemma distinct_map_sort_key:
  "distinct (map g (sort_key k xs)) = distinct (map g xs)"
proof -
  have "mset (map g (sort_key k xs)) = mset (map g xs)" by simp
  then show ?thesis by (rule mset_eq_imp_distinct_iff)
qed

lemma sorted_deduplicated:
  fixes rs :: "row list" and c :: string
  defines "out \<equiv> sort_key (\<lambda>r. sort_rank (cells r c)) (keep_first c [] rs)"
  shows "sorted (map (\<lambda>r. sort_rank (cells r c)) out)"
    and "distinct (map (\<lambda>r. cells r c) out)"
    and "set out \<subseteq> set rs"
    and "distinct (map label rs) \<Longrightarrow> distinct (map label out)"
proof -
  show "sorted (map (\<lambda>r. sort_rank (cells r c)) out)"
    unfolding out_def by (rule sorted_sort_key)
  show "distinct (map (\<lambda>r. cells r c) out)"
    unfolding out_def using keep_first_keys[of c "[]" rs] by (simp add: distinct_map_sort_key)
  show "set out \<subseteq> set rs"
    unfolding out_def using keep_first_set[of c "[]" rs] by simp
  show "distinct (map label rs) \<Longrightarrow> distinct (map label out)"
    unfolding out_def
    using keep_first_labels[of rs c "[]"] by (simp add: distinct_map_sort_key)
qed

lemma strictly_increasing_filter_complete:
  fixes rs :: "row list"
  assumes srt: "sorted (map (\<lambda>r. sort_rank (cells r c)) rs)"
    and dist: "distinct (map (\<lambda>r. cells r c) rs)"
    and some: "\<forall>r\<in>set rs. P r \<longrightarrow> cells r c \<noteq> None"
  shows "strictly_increasing (map (\<lambda>r. cells r c) (filter P rs))"
proof -
  let ?k = "\<lambda>r::row. sort_rank (cells r c)"
  have "sorted (map ?k (filter P rs))" using srt by (rule sorted_filter)
  moreover have "distinct (map (\<lambda>r. cells r c) (filter P rs))"
    using dist by (rule distinct_map_filter)
  then have "distinct (map ?k (filter P rs))"
    by (auto simp: distinct_map intro!: inj_onI dest: sort_rank_inj inj_onD)
  ultimately have "sorted_wrt (<) (map ?k (filter P rs))"
    by (simp add: strict_sorted_iff)
  then have "sorted_wrt (\<lambda>a b. ?k a < ?k b) (filter P rs)"
    by (simp add: sorted_wrt_map)
  then have "sorted_wrt (\<lambda>a b. cless (cells a c) (cells b c)) (filter P rs)"
  proof (rule sorted_wrt_mono_rel[rotated])
    fix a b assume "a \<in> set (filter P rs)" "b \<in> set (filter P rs)" "?k a < ?k b"
    then show "cless (cells a c) (cells b c)"
      using some by (auto simp: cless_def sort_rank_def split: option.splits)
  qed
  then show ?thesis by (simp add: strictly_increasing_def sorted_wrt_map)
qed


lemma streamline_frame_no_preload:
  "streamline_frame None factor ext f =
     (if ''strain'' \<in> set (columns f)
      then Inr (f\<lparr>rows := filter (complete_row (columns f)) (deduplicated_sorted (rows f))\<rparr>)
      else Inl (KeyError ''strain''))"
  by (simp add: streamline_frame_def drop_duplicates_def sort_values_def dropna_def
      deduplicated_sorted_def)

lemma complete_row_strain:
  "''strain'' \<in> set cols \<Longrightarrow> complete_row cols r \<Longrightarrow> cells r ''strain'' \<noteq> None"
  by (auto simp: complete_row_def list_all_iff)

lemma cleaned_no_preload:
  assumes "streamline_frame None factor ext f = Inr g"
  shows "strictly_increasing (strain_values g)"
    and "distinct (strain_values g)"
    and "value_complete g"
    and "streamline_frame None factor ext g = Inr g"
    and "columns g = columns f"
    and "labels_distinct f \<Longrightarrow> labels_distinct g"
    and "set (rows g) \<subseteq> set (rows f)"
proof -
  let ?ds = "deduplicated_sorted (rows f)"
  let ?P = "complete_row (columns f)"
  have col: "''strain'' \<in> set (columns f)"
    using assms by (auto simp: streamline_frame_no_preload split: if_splits)
  have g: "g = f\<lparr>rows := filter ?P ?ds\<rparr>"
    using assms col by (simp add: streamline_frame_no_preload)
  have srt: "sorted (map (\<lambda>r. sort_rank (cells r ''strain'')) ?ds)"
    and dist: "distinct (map (\<lambda>r. cells r ''strain'') ?ds)"
    and sub: "set ?ds \<subseteq> set (rows f)"
    and lab: "distinct (map label (rows f)) \<Longrightarrow> distinct (map label ?ds)"
    unfolding deduplicated_sorted_def by (rule sorted_deduplicated)+
  show inc: "strictly_increasing (strain_values g)"
    unfolding g strain_values_def using srt dist col
    by (simp add: strictly_increasing_filter_complete complete_row_strain)
  show d: "distinct (strain_values g)"
    unfolding g strain_values_def using dist by (simp add: distinct_map_filter)
  show "value_complete g"
    unfolding g by (simp add: value_complete_def list_all_iff)
  show "columns g = columns f" unfolding g by simp
  show "labels_distinct f \<Longrightarrow> labels_distinct g"
    unfolding g labels_distinct_def using lab by (simp add: distinct_map_filter)
  show "set (rows g) \<subseteq> set (rows f)" unfolding g using sub by auto
  have "keep_first ''strain'' [] (rows g) = rows g"
    using d by (intro keep_first_id) (simp_all add: strain_values_def)
  moreover have "sorted (map (\<lambda>r. sort_rank (cells r ''strain'')) (rows g))"
    unfolding g using srt by (simp add: sorted_filter)
  ultimately have "deduplicated_sorted (rows g) = rows g"
    by (simp add: deduplicated_sorted_def sort_key_id_if_sorted)
  moreover have "filter (complete_row (columns g)) (rows g) = rows g"
    unfolding g by simp
  ultimately show "streamline_frame None factor ext g = Inr g"
    using col unfolding streamline_frame_no_preload by (simp add: g)
qed


lemma where_dropna_rows:
  assumes "cols \<noteq> []"
  shows "filter (complete_row cols) (map (\<lambda>r. if cond r then r else r\<lparr>cells := (\<lambda>c. None)\<rparr>) rs)
       = filter (\<lambda>r. cond r \<and> complete_row cols r) rs"
proof -
  have blank: "\<And>r::row. \<not> complete_row cols (r\<lparr>cells := (\<lambda>c. None)\<rparr>)"
    using assms by (cases cols) (simp_all add: complete_row_def)
  show ?thesis by (induction rs) (simp_all add: blank)
qed

lemma iloc0_map: "xs \<noteq> [] \<Longrightarrow> iloc0 (map g xs) = Inr (g (hd xs))"
  by (cases xs) (simp_all add: iloc0_def)

lemma masked_dropna:
  assumes "columns f \<noteq> []"
  shows "dropna (where_rows (\<lambda>r. cge (cells r ''stress'') p) (f\<lparr>rows := deduplicated_sorted (rows f)\<rparr>))
       = after_preload_filter p f"
  using where_dropna_rows[OF assms]
  by (simp add: dropna_def where_rows_def kept_rows_def after_preload_filter_def)

lemma after_preload_filter_simps:
  "columns (after_preload_filter p f) = columns f"
  "rows (after_preload_filter p f) = kept_rows p f"
  by (simp_all add: after_preload_filter_def)

lemma streamline_frame_preload:
  "streamline_frame (Some p) factor ext f =
     (if ''strain'' \<notin> set (columns f) then Inl (KeyError ''strain'')
      else if ''stress'' \<notin> set (columns f) then Inl (KeyError ''stress'')
      else if ''tool_distance'' \<notin> set (columns f) then Inl (KeyError ''tool_distance'')
      else if kept_rows p f = [] then Inl (IndexError ''single positional indexer is out-of-bounds'')
      else assign_values ''deriv''
             (derivative ext (map (\<lambda>r. cells r ''strain'') (rebased_rows p factor f))
                             (map (\<lambda>r. cells r ''stress'') (rebased_rows p factor f)))
             ((after_preload_filter p f)\<lparr>rows := rebased_rows p factor f,
                int64_columns := removeAll ''strain'' (int64_columns (after_preload_filter p f))\<rparr>))"
proof (cases "''strain'' \<in> set (columns f)")
  case False
  then show ?thesis by (simp add: streamline_frame_def drop_duplicates_def)
next
  case True
  then have ne: "columns f \<noteq> []" by auto
  show ?thesis
  proof (cases "kept_rows p f = []")
    case True
    then show ?thesis
      using \<open>''strain'' \<in> set (columns f)\<close>
      by (simp add: streamline_frame_def drop_duplicates_def sort_values_def
          deduplicated_sorted_def[symmetric] masked_dropna[OF ne] column_def iloc0_def
          after_preload_filter_simps)
  next
    case False
    then show ?thesis
      using \<open>''strain'' \<in> set (columns f)\<close>
      by (simp add: streamline_frame_def drop_duplicates_def sort_values_def
          deduplicated_sorted_def[symmetric] masked_dropna[OF ne] column_def iloc0_map
          rebased_rows_def Let_def after_preload_filter_simps)
  qed
qed

lemma upt_2: "[0..<2] = [0, 1]"
  by (simp add: upt_rec)

lemma upt_5: "[0..<5] = [0, 1, 2, 3, 4]"
  by (simp add: upt_rec)

lemmas run_simps = streamline_frame_def drop_duplicates_def sort_values_def dropna_def where_rows_def
  column_def iloc0_def assign_values_def set_cell_def rebased_strain_def complete_row_def
  parse_def row_cells_def sort_rank_def cge_def csub_def isub_def wrap64_def is_int64_def
  cdiv_def cmul_def stub_externals_def upt_2 upt_3 upt_5

text \<open>
  C4 as stated fails with the preload option: two rows with the same tool distance get
  the same recomputed strain, so the cleaned strains (here 0 and 0) are neither
  strictly increasing nor free of duplicates.
\<close>

theorem cleaning_with_preload_counterexample:
  "\<exists>g. streamline_frame (Some 1) 100 (stub_externals None)
         (parse [''tool_distance'', ''strain'', ''stress'']
            [[Some 10, Some 0, Some 5], [Some 10, Some 1, Some 6]]) = Inr g \<and>
       strain_values g = [Some 0, Some 0] \<and>
       \<not> strictly_increasing (strain_values g) \<and> \<not> distinct (strain_values g)"
  by (simp add: run_simps strain_values_def strictly_increasing_def cless_def Let_def)

text \<open>
  C4, amended: without the preload option, cleaning succeeds on every curve that has a
  strain column, and the curve it returns has strictly increasing strain values, no
  duplicate strain, no missing value in any column, and is returned unchanged by a
  second cleaning.
\<close>

theorem cleaning_without_preload:
  "(''strain'' \<in> set (columns f) \<longrightarrow> (\<exists>g. streamline_frame None factor ext f = Inr g)) \<and>
   (streamline_frame None factor ext f = Inr g \<longrightarrow>
      strictly_increasing (strain_values g) \<and> distinct (strain_values g) \<and> value_complete g \<and>
      streamline_frame None factor ext g = Inr g)"
proof (intro conjI impI)
  assume "''strain'' \<in> set (columns f)"
  then show "\<exists>g. streamline_frame None factor ext f = Inr g"
    by (simp add: streamline_frame_no_preload)
next
  assume run: "streamline_frame None factor ext f = Inr g"
  show "strictly_increasing (strain_values g)" using run by (rule cleaned_no_preload(1))
  show "distinct (strain_values g)" using run by (rule cleaned_no_preload(2))
  show "value_complete g" using run by (rule cleaned_no_preload(3))
  show "streamline_frame None factor ext g = Inr g" using run by (rule cleaned_no_preload(4))
qed

theorem cleaning_without_preload_witness:
  "streamline_frame None 100 (stub_externals None)
      (parse [''tool_distance'', ''strain'', ''stress'']
         [[Some 10, Some 3, Some 5], [None, Some 1, Some 6], [Some 12, Some 2, Some 7],
          [Some 12, Some 2, Some 8], [Some 12, None, Some 8]])
    = Inr \<lparr>columns = [''tool_distance'', ''strain'', ''stress''],
           rows = [\<lparr>label = 2, cells = row_cells [''tool_distance'', ''strain'', ''stress'']
                                   [Some 12, Some 2, Some 7]\<rparr>,
                   \<lparr>label = 0, cells = row_cells [''tool_distance'', ''strain'', ''stress'']
                                   [Some 10, Some 3, Some 5]\<rparr>],
           int64_columns = [''stress'']\<rparr> \<and>
   strictly_increasing (strain_values \<lparr>columns = [''tool_distance'', ''strain'', ''stress''],
           rows = [\<lparr>label = 2, cells = row_cells [''tool_distance'', ''strain'', ''stress'']
                                   [Some 12, Some 2, Some 7]\<rparr>,
                   \<lparr>label = 0, cells = row_cells [''tool_distance'', ''strain'', ''stress'']
                                   [Some 10, Some 3, Some 5]\<rparr>],
           int64_columns = [''stress'']\<rparr>) \<and>
   streamline_frame None 100 (stub_externals None)
      \<lparr>columns = [''tool_distance'', ''strain'', ''stress''],
           rows = [\<lparr>label = 2, cells = row_cells [''tool_distance'', ''strain'', ''stress'']
                                   [Some 12, Some 2, Some 7]\<rparr>,
                   \<lparr>label = 0, cells = row_cells [''tool_distance'', ''strain'', ''stress'']
                                   [Some 10, Some 3, Some 5]\<rparr>],
           int64_columns = [''stress'']\<rparr>
    = Inr \<lparr>columns = [''tool_distance'', ''strain'', ''stress''],
           rows = [\<lparr>label = 2, cells = row_cells [''tool_distance'', ''strain'', ''stress'']
                                   [Some 12, Some 2, Some 7]\<rparr>,
                   \<lparr>label = 0, cells = row_cells [''tool_distance'', ''strain'', ''stress'']
                                   [Some 10, Some 3, Some 5]\<rparr>],
           int64_columns = [''stress'']\<rparr>"
proof -
  let ?f = "parse [''tool_distance'', ''strain'', ''stress'']
         [[Some 10, Some 3, Some 5], [None, Some 1, Some 6], [Some 12, Some 2, Some 7],
          [Some 12, Some 2, Some 8], [Some 12, None, Some 8]]"
  let ?g = "\<lparr>columns = [''tool_distance'', ''strain'', ''stress''],
           rows = [\<lparr>label = 2, cells = row_cells [''tool_distance'', ''strain'', ''stress'']
                                   [Some 12, Some 2, Some 7]\<rparr>,
                   \<lparr>label = 0, cells = row_cells [''tool_distance'', ''strain'', ''stress'']
                                   [Some 10, Some 3, Some 5]\<rparr>],
           int64_columns = [''stress'']\<rparr>"
  have run: "streamline_frame None 100 (stub_externals None) ?f = Inr ?g"
    by (simp add: run_simps)
  with cleaning_without_preload[of ?f 100 "stub_externals None" ?g] show ?thesis by blast
qed

lemma preload_result:
  assumes run: "streamline_frame (Some p) factor ext f = Inr g"
  defines "D \<equiv> derivative ext (map (\<lambda>r. cells r ''strain'') (rebased_rows p factor f))
                                (map (\<lambda>r. cells r ''stress'') (rebased_rows p factor f))"
  shows "''tool_distance'' \<in> set (columns f)"
    and "kept_rows p f \<noteq> []"
    and "length D = length (kept_rows p f)"
    and "length (rows g) = length (kept_rows p f)"
    and "\<And>i. i < length (kept_rows p f) \<Longrightarrow>
           rows g ! i = set_cell ''deriv'' (rebased_rows p factor f ! i) (D ! i)"
    and "columns g = (if ''deriv'' \<in> set (columns f) then columns f else columns f @ [''deriv''])"
proof -
  let ?s4 = "(after_preload_filter p f)\<lparr>rows := rebased_rows p factor f,
                int64_columns := removeAll ''strain'' (int64_columns (after_preload_filter p f))\<rparr>"
  have cf: "streamline_frame (Some p) factor ext f =
      (if ''strain'' \<notin> set (columns f) then Inl (KeyError ''strain'')
      else if ''stress'' \<notin> set (columns f) then Inl (KeyError ''stress'')
      else if ''tool_distance'' \<notin> set (columns f) then Inl (KeyError ''tool_distance'')
      else if kept_rows p f = [] then Inl (IndexError ''single positional indexer is out-of-bounds'')
      else assign_values ''deriv'' D ?s4)"
    unfolding D_def by (rule streamline_frame_preload)
  have s4: "rows ?s4 = rebased_rows p factor f" "columns ?s4 = columns f"
    by (simp_all add: after_preload_filter_simps)
  show td: "''tool_distance'' \<in> set (columns f)"
    using run cf by (auto split: if_splits)
  show ne: "kept_rows p f \<noteq> []"
    using run cf by (auto split: if_splits)
  have asg: "assign_values ''deriv'' D ?s4 = Inr g"
    using run cf by (auto split: if_splits)
  have lr: "length (rebased_rows p factor f) = length (kept_rows p f)"
    by (simp add: rebased_rows_def)
  show len: "length D = length (kept_rows p f)"
    using asg lr unfolding assign_values_def s4 by (auto split: if_splits)
  have rg: "rows g = map2 (set_cell ''deriv'') (rebased_rows p factor f) D"
    using asg unfolding assign_values_def s4 by (auto split: if_splits)
  show "columns g = (if ''deriv'' \<in> set (columns f) then columns f else columns f @ [''deriv''])"
    using asg unfolding assign_values_def s4 by (auto split: if_splits)
  show "length (rows g) = length (kept_rows p f)"
    using rg len lr by simp
  show "\<And>i. i < length (kept_rows p f) \<Longrightarrow>
           rows g ! i = set_cell ''deriv'' (rebased_rows p factor f ! i) (D ! i)"
    using rg len lr by simp
qed

lemma kept_rows_complete:
  "r \<in> set (kept_rows p f) \<Longrightarrow> c \<in> set (columns f) \<Longrightarrow> cells r c \<noteq> None"
  by (auto simp: kept_rows_def complete_row_def list_all_iff)

lemma isub_exact:
  assumes "integer_below 61 a" "integer_below 61 b"
  shows "isub a b = csub a b"
proof -
  from assms(1) obtain k where k: "a = Some (of_int k)" "\<bar>k\<bar> \<le> 2 ^ 61"
    by (rule integer_below_obtain)
  from assms(2) obtain l where l: "b = Some (of_int l)" "\<bar>l\<bar> \<le> 2 ^ 61"
    by (rule integer_below_obtain)
  have "\<bar>k - l\<bar> \<le> 2 ^ 62" using k(2) l(2) by simp
  then have "wrap64 (k - l) = k - l" by (intro wrap64_id) simp_all
  then show ?thesis by (simp add: isub_def csub_def k(1) l(1))
qed

lemma rebased_strain_value:
  assumes "h \<noteq> 0"
    and "distance_int \<longrightarrow> integer_below 61 (Some h) \<and> integer_below 61 (Some t)"
  shows "rebased_strain distance_int (Some h) factor (Some t) = Some ((h - t) / h * factor)"
proof -
  have "(if distance_int then isub else csub) (Some h) (Some t) = Some (h - t)"
    using assms(2) isub_exact[of "Some h" "Some t"] by (simp add: csub_def)
  then show ?thesis using assms(1) by (simp add: rebased_strain_def cdiv_def cmul_def)
qed

lemma after_preload_filter_int64:
  "c \<in> set (int64_columns (after_preload_filter p f)) \<Longrightarrow> c \<in> set (int64_columns f)"
  by (simp add: after_preload_filter_def split: if_splits)

lemma preload_general:
  assumes run: "streamline_frame (Some p) factor ext f = Inr g"
  shows "kept_rows p f \<noteq> [] \<and>
     map label (rows g) = map label (kept_rows p f) \<and>
     (\<exists>h. cells (hd (kept_rows p f)) ''tool_distance'' = Some h \<and>
        (h \<noteq> 0 \<and> (''tool_distance'' \<notin> set (int64_columns f) \<or>
                    integers_below 61 ''tool_distance'' (kept_rows p f)) \<longrightarrow>
           (\<forall>i<length (kept_rows p f). \<exists>t.
              cells (kept_rows p f ! i) ''tool_distance'' = Some t \<and>
              cells (rows g ! i) ''strain'' = Some ((h - t) / h * factor)))) \<and>
     columns g = (if ''deriv'' \<in> set (columns f) then columns f else columns f @ [''deriv'']) \<and>
     column g ''deriv'' =
       Inr (derivative ext (strain_values g) (map (\<lambda>r. cells r ''stress'') (rows g))) \<and>
     map (\<lambda>r. cells r ''deriv'') (rows g) =
       derivative ext (strain_values g) (map (\<lambda>r. cells r ''stress'') (rows g)) \<and>
     (\<forall>i<length (kept_rows p f). \<forall>c. c \<noteq> ''strain'' \<and> c \<noteq> ''deriv'' \<longrightarrow>
        cells (rows g ! i) c = cells (kept_rows p f ! i) c)"
proof -
  define D where "D = derivative ext (map (\<lambda>r. cells r ''strain'') (rebased_rows p factor f))
                                (map (\<lambda>r. cells r ''stress'') (rebased_rows p factor f))"
  define flag where "flag = (''tool_distance'' \<in> set (int64_columns (after_preload_filter p f)))"
  note res = preload_result[OF run, folded D_def]
  let ?kept = "kept_rows p f"
  let ?reb = "rebased_rows p factor f"
  have ne: "?kept \<noteq> []" by (rule res(2))
  have lr: "length ?reb = length ?kept" by (simp add: rebased_rows_def)
  have reb_i: "\<And>i. i < length ?kept \<Longrightarrow> ?reb ! i = set_cell ''strain'' (?kept ! i)
      (rebased_strain flag (cells (hd ?kept) ''tool_distance'') factor
         (cells (?kept ! i) ''tool_distance''))"
    by (simp add: rebased_rows_def flag_def)
  have g_i: "\<And>i. i < length ?kept \<Longrightarrow> rows g ! i = set_cell ''deriv'' (?reb ! i) (D ! i)"
    by (rule res(5))
  have labels: "map label (rows g) = map label ?kept"
  proof (rule nth_equalityI)
    show "length (map label (rows g)) = length (map label ?kept)" using res(4) by simp
    fix i assume "i < length (map label (rows g))"
    then have i: "i < length ?kept" using res(4) by simp
    then show "map label (rows g) ! i = map label ?kept ! i"
      using res(4) g_i[OF i] reb_i[OF i] by (simp add: set_cell_def)
  qed
  have hd_in: "hd ?kept \<in> set ?kept" using ne by simp
  then obtain h where h: "cells (hd ?kept) ''tool_distance'' = Some h"
    using kept_rows_complete[OF _ res(1)] by blast
  have strain: "h \<noteq> 0 \<and> (''tool_distance'' \<notin> set (int64_columns f) \<or>
                    integers_below 61 ''tool_distance'' ?kept) \<longrightarrow>
           (\<forall>i<length ?kept. \<exists>t.
              cells (?kept ! i) ''tool_distance'' = Some t \<and>
              cells (rows g ! i) ''strain'' = Some ((h - t) / h * factor))"
  proof (intro impI allI)
    fix i
    assume a: "h \<noteq> 0 \<and> (''tool_distance'' \<notin> set (int64_columns f) \<or>
                    integers_below 61 ''tool_distance'' ?kept)"
      and i: "i < length ?kept"
    then have in_kept: "?kept ! i \<in> set ?kept" by simp
    then obtain t where t: "cells (?kept ! i) ''tool_distance'' = Some t"
      using kept_rows_complete[OF _ res(1)] by blast
    have small: "flag \<longrightarrow> integer_below 61 (Some h) \<and> integer_below 61 (Some t)"
    proof
      assume flag
      then have "''tool_distance'' \<in> set (int64_columns f)"
        unfolding flag_def by (rule after_preload_filter_int64)
      with a have "\<forall>r\<in>set ?kept. integer_below 61 (cells r ''tool_distance'')"
        by (simp add: integers_below_def list_all_iff)
      with hd_in in_kept h t show "integer_below 61 (Some h) \<and> integer_below 61 (Some t)"
        by force
    qed
    have "rebased_strain flag (Some h) factor (Some t) = Some ((h - t) / h * factor)"
      using a small by (intro rebased_strain_value) simp_all
    then have "cells (rows g ! i) ''strain'' = Some ((h - t) / h * factor)"
      using g_i[OF i] reb_i[OF i] h t by (simp add: set_cell_def)
    with t show "\<exists>t. cells (?kept ! i) ''tool_distance'' = Some t \<and>
            cells (rows g ! i) ''strain'' = Some ((h - t) / h * factor)" by blast
  qed
  have col_eq: "\<And>c. c \<noteq> ''deriv'' \<Longrightarrow> map (\<lambda>r. cells r c) (rows g) = map (\<lambda>r. cells r c) ?reb"
  proof (rule nth_equalityI)
    fix c :: string assume c: "c \<noteq> ''deriv''"
    show "length (map (\<lambda>r. cells r c) (rows g)) = length (map (\<lambda>r. cells r c) ?reb)"
      using res(4) lr by simp
    fix i assume "i < length (map (\<lambda>r. cells r c) (rows g))"
    then have i: "i < length ?kept" using res(4) by simp
    then show "map (\<lambda>r. cells r c) (rows g) ! i = map (\<lambda>r. cells r c) ?reb ! i"
      using res(4) lr g_i[OF i] c by (simp add: set_cell_def)
  qed
  have "map (\<lambda>r. cells r ''deriv'') (rows g) = D"
  proof (rule nth_equalityI)
    show "length (map (\<lambda>r. cells r ''deriv'') (rows g)) = length D" using res(3,4) by simp
    fix i assume "i < length (map (\<lambda>r. cells r ''deriv'') (rows g))"
    then have i: "i < length ?kept" using res(4) by simp
    then show "map (\<lambda>r. cells r ''deriv'') (rows g) ! i = D ! i"
      using res(4) g_i[OF i] by (simp add: set_cell_def)
  qed
  then have deriv: "map (\<lambda>r. cells r ''deriv'') (rows g) =
       derivative ext (strain_values g) (map (\<lambda>r. cells r ''stress'') (rows g))"
    using col_eq[of "''strain''"] col_eq[of "''stress''"] by (simp add: D_def strain_values_def)
  have cols: "columns g = (if ''deriv'' \<in> set (columns f) then columns f else columns f @ [''deriv''])"
    by (rule res(6))
  then have "''deriv'' \<in> set (columns g)" by simp
  then have attached: "column g ''deriv'' =
       Inr (derivative ext (strain_values g) (map (\<lambda>r. cells r ''stress'') (rows g)))"
    using deriv by (simp add: column_def)
  have others: "\<forall>i<length ?kept. \<forall>c. c \<noteq> ''strain'' \<and> c \<noteq> ''deriv'' \<longrightarrow>
        cells (rows g ! i) c = cells (?kept ! i) c"
    using g_i reb_i by (simp add: set_cell_def)
  show ?thesis using ne labels h strain cols attached deriv others by blast
qed

text \<open>
  Index labels stay unique: an import numbers the rows of a frame, and cleaning only
  removes and reorders rows.
\<close>

lemma parse_labels: "map label (rows (parse names sheet)) = [0..<length sheet]"
  by (auto simp: parse_def intro: nth_equalityI)

lemma parse_labels_distinct: "labels_distinct (parse names sheet)"
  by (simp add: labels_distinct_def parse_labels)

lemma streamline_frame_labels_distinct:
  assumes "labels_distinct f" and "streamline_frame pre factor ext f = Inr g"
  shows "labels_distinct g"
proof (cases pre)
  case None
  then show ?thesis using assms cleaned_no_preload(6) by blast
next
  case (Some p)
  then have "map label (rows g) = map label (kept_rows p f)"
    using assms(2) preload_general by blast
  moreover have "distinct (map label (deduplicated_sorted (rows f)))"
    using assms(1) unfolding labels_distinct_def deduplicated_sorted_def
    by (rule sorted_deduplicated(4))
  then have "distinct (map label (kept_rows p f))"
    unfolding kept_rows_def by (rule distinct_map_filter)
  ultimately show ?thesis by (simp add: labels_distinct_def)
qed

text \<open>
  C6 as stated fails: the row with index label 1 has the stress 6, not below the
  preload 1, but a missing tool distance, and cleaning drops it.
\<close>

theorem preload_keeps_rows_counterexample:
  "\<exists>g. streamline_frame (Some 1) 100 (stub_externals None)
         (parse [''tool_distance'', ''strain'', ''stress'']
            [[Some 10, Some 0, Some 5], [None, Some 1, Some 6], [Some 12, Some 2, Some 7]]) = Inr g \<and>
       map label (rows g) = [0, 2] \<and>
       map (\<lambda>r. (label r, cells r ''stress''))
         (rows (parse [''tool_distance'', ''strain'', ''stress'']
            [[Some 10, Some 0, Some 5], [None, Some 1, Some 6], [Some 12, Some 2, Some 7]]))
         = [(0, Some 5), (1, Some 6), (2, Some 7)]"
  by (simp add: run_simps Let_def)

text \<open>
  C6, amended: when preload is set and cleaning succeeds, it keeps, of the rows left
  after duplicate strains are removed and the rows are sorted by strain, exactly those
  that have no missing value and whose stress is not below preload (there is at least
  one); h0 is the tool distance of the first kept row; if h0 is not 0, and the tool
  distance is a float column or its kept values are integers of magnitude at most 2 to
  the power 61 (the difference of two int64 values wraps around at 64 bits), the
  strain of every kept row becomes
  (h0 - tool_distance) / h0 * strain_conversion_factor; the cleaned curve has the
  columns of the input and, after them, the column deriv if the input had none; the
  column deriv holds, row by row, what the derivative collaborator returns for the new
  strain and the stress; every other cell is unchanged.
\<close>

theorem cleaning_with_preload:
  "streamline_frame (Some p) factor ext f = Inr g \<longrightarrow>
     kept_rows p f \<noteq> [] \<and>
     map label (rows g) = map label (kept_rows p f) \<and>
     (\<exists>h. cells (hd (kept_rows p f)) ''tool_distance'' = Some h \<and>
        (h \<noteq> 0 \<and> (''tool_distance'' \<notin> set (int64_columns f) \<or>
                    integers_below 61 ''tool_distance'' (kept_rows p f)) \<longrightarrow>
           (\<forall>i<length (kept_rows p f). \<exists>t.
              cells (kept_rows p f ! i) ''tool_distance'' = Some t \<and>
              cells (rows g ! i) ''strain'' = Some ((h - t) / h * factor)))) \<and>
     columns g = (if ''deriv'' \<in> set (columns f) then columns f else columns f @ [''deriv'']) \<and>
     column g ''deriv'' =
       Inr (derivative ext (strain_values g) (map (\<lambda>r. cells r ''stress'') (rows g))) \<and>
     map (\<lambda>r. cells r ''deriv'') (rows g) =
       derivative ext (strain_values g) (map (\<lambda>r. cells r ''stress'') (rows g)) \<and>
     (\<forall>i<length (kept_rows p f). \<forall>c. c \<noteq> ''strain'' \<and> c \<noteq> ''deriv'' \<longrightarrow>
        cells (rows g ! i) c = cells (kept_rows p f ! i) c)"
  using preload_general by blast

theorem cleaning_with_preload_witness:
  "\<exists>g. streamline_frame (Some 1) 100 (stub_externals None)
         (parse [''tool_distance'', ''strain'', ''stress'']
            [[Some 10, Some 0, Some 5], [None, Some 1, Some 6], [Some 12, Some 2, Some 7]]) = Inr g \<and>
       map label (rows g) = map label (kept_rows 1
         (parse [''tool_distance'', ''strain'', ''stress'']
            [[Some 10, Some 0, Some 5], [None, Some 1, Some 6], [Some 12, Some 2, Some 7]])) \<and>
       columns g = [''tool_distance'', ''strain'', ''stress'', ''deriv''] \<and>
       column g ''deriv'' =
         Inr (derivative (stub_externals None) (strain_values g) (map (\<lambda>r. cells r ''stress'') (rows g))) \<and>
       map (\<lambda>r. cells r ''deriv'') (rows g) =
         derivative (stub_externals None) (strain_values g) (map (\<lambda>r. cells r ''stress'') (rows g)) \<and>
       (\<exists>h. cells (hd (kept_rows 1
               (parse [''tool_distance'', ''strain'', ''stress'']
                  [[Some 10, Some 0, Some 5], [None, Some 1, Some 6], [Some 12, Some 2, Some 7]])))
               ''tool_distance'' = Some h \<and>
            (\<forall>i<length (kept_rows 1
                (parse [''tool_distance'', ''strain'', ''stress'']
                  [[Some 10, Some 0, Some 5], [None, Some 1, Some 6], [Some 12, Some 2, Some 7]])). \<exists>t.
               cells (kept_rows 1
                 (parse [''tool_distance'', ''strain'', ''stress'']
                  [[Some 10, Some 0, Some 5], [None, Some 1, Some 6], [Some 12, Some 2, Some 7]]) ! i)
                 ''tool_distance'' = Some t \<and>
               cells (rows g ! i) ''strain'' = Some ((h - t) / h * 100))) \<and>
       strain_values g = [Some 0, Some (- 20)]"
proof -
  let ?f = "parse [''tool_distance'', ''strain'', ''stress'']
            [[Some 10, Some 0, Some 5], [None, Some 1, Some 6], [Some 12, Some 2, Some 7]]"
  have "\<exists>g. streamline_frame (Some 1) 100 (stub_externals None) ?f = Inr g \<and>
          strain_values g = [Some 0, Some (- 20)]"
    by (simp add: run_simps strain_values_def Let_def)
  then obtain g where g: "streamline_frame (Some 1) 100 (stub_externals None) ?f = Inr g"
    "strain_values g = [Some 0, Some (- 20)]"
    by blast
  have cols: "columns ?f = [''tool_distance'', ''strain'', ''stress'']"
    and float: "''tool_distance'' \<notin> set (int64_columns ?f)"
    by (simp_all add: parse_def row_cells_def is_int64_def)
  have first: "cells (hd (kept_rows 1 ?f)) ''tool_distance'' = Some 10"
    by (simp add: kept_rows_def deduplicated_sorted_def run_simps)
  note claim = cleaning_with_preload[of 1 100 "stub_externals None" ?f g]
  from claim g(1)
  have labels: "map label (rows g) = map label (kept_rows 1 ?f)"
    and columns_g: "columns g = (if ''deriv'' \<in> set (columns ?f) then columns ?f
                                 else columns ?f @ [''deriv''])"
    and attached: "column g ''deriv'' =
         Inr (derivative (stub_externals None) (strain_values g) (map (\<lambda>r. cells r ''stress'') (rows g)))"
    and deriv: "map (\<lambda>r. cells r ''deriv'') (rows g) =
         derivative (stub_externals None) (strain_values g) (map (\<lambda>r. cells r ''stress'') (rows g))"
    by blast+
  from claim g(1) first float
  have strain: "\<forall>i<length (kept_rows 1 ?f). \<exists>t.
               cells (kept_rows 1 ?f ! i) ''tool_distance'' = Some t \<and>
               cells (rows g ! i) ''strain'' = Some ((10 - t) / 10 * 100)"
    by force
  have "columns g = [''tool_distance'', ''strain'', ''stress'', ''deriv'']"
    using columns_g unfolding cols by simp
  with g labels attached deriv first strain show ?thesis by blast
qed

section \<open>Properties of the construction and of the later computations\<close>

lemma new_frames_props:
  "new_frames fs h = (rs, h') \<Longrightarrow>
     rs = [next_ref h..<next_ref h + length fs] \<and> next_ref h' = next_ref h + length fs \<and>
     (\<forall>r<next_ref h. mem h' r = mem h r) \<and> map (mem h') rs = fs"
proof (induction fs arbitrary: h rs h')
  case Nil
  then show ?case by simp
next
  case (Cons f fs)
  let ?h1 = "\<lparr>mem = (mem h)(next_ref h := f), next_ref = Suc (next_ref h)\<rparr>"
  obtain rs1 h2 where r: "new_frames fs ?h1 = (rs1, h2)" by (cases "new_frames fs ?h1")
  have eq: "rs = next_ref h # rs1" "h' = h2"
    using r Cons.prems by (simp_all add: new_frame_def)
  note ih0 = Cons.IH[OF r]
  have ih1: "rs1 = [Suc (next_ref h)..<Suc (next_ref h) + length fs]"
    using ih0 by (simp del: upt_Suc)
  have ih2: "next_ref h2 = Suc (next_ref h) + length fs" using ih0 by simp
  have ih3: "\<forall>r<Suc (next_ref h). mem h2 r = ((mem h)(next_ref h := f)) r"
    using ih0 by simp
  have ih4: "map (mem h2) rs1 = fs" using ih0 by blast
  have "rs = [next_ref h..<next_ref h + length (f # fs)]"
    using eq ih1 by (simp add: upt_conv_Cons del: upt_Suc)
  moreover have "next_ref h' = next_ref h + length (f # fs)" using eq ih2 by simp
  moreover have "\<forall>r<next_ref h. mem h' r = mem h r" using eq ih3 by simp
  moreover have "map (mem h') rs = f # fs" using eq ih3 ih4 by simp
  ultimately show ?case by blast
qed

lemma streamline_data_effect:
  assumes "streamline_data self ext h sample = Inr (h1, r)"
  shows "r = sample" and "next_ref h1 = next_ref h"
    and "\<forall>q. q \<noteq> sample \<longrightarrow> mem h1 q = mem h q"
    and "streamline_frame (preload self) (strain_conversion_factor self) ext (mem h sample)
           = Inr (mem h1 sample)"
  using assms by (auto simp: streamline_data_def split: sum.splits)

lemma streamline_all_frame:
  "streamline_all self ext ss h = Inr h' \<Longrightarrow>
     next_ref h' = next_ref h \<and> (\<forall>q. q \<notin> set ss \<longrightarrow> mem h' q = mem h q)"
proof (induction ss arbitrary: h)
  case Nil
  then show ?case by simp
next
  case (Cons s ss)
  from Cons.prems obtain h1 r where d: "streamline_data self ext h s = Inr (h1, r)"
    and rest: "streamline_all self ext ss h1 = Inr h'"
    by (auto split: sum.splits)
  from streamline_data_effect[OF d] Cons.IH[OF rest] show ?case by auto
qed

lemma streamline_all_cleaned:
  "distinct ss \<Longrightarrow> streamline_all self ext ss h = Inr h' \<Longrightarrow>
     \<forall>s\<in>set ss. streamline_frame (preload self) (strain_conversion_factor self) ext (mem h s)
                   = Inr (mem h' s)"
proof (induction ss arbitrary: h)
  case Nil
  then show ?case by simp
next
  case (Cons s ss)
  from Cons.prems obtain h1 r where d: "streamline_data self ext h s = Inr (h1, r)"
    and rest: "streamline_all self ext ss h1 = Inr h'"
    by (auto split: sum.splits)
  note eff = streamline_data_effect[OF d]
  have "mem h' s = mem h1 s"
    using streamline_all_frame[OF rest] Cons.prems(1) by simp
  then have first: "streamline_frame (preload self) (strain_conversion_factor self) ext (mem h s)
                   = Inr (mem h' s)"
    using eff(4) by simp
  have "\<forall>q\<in>set ss. streamline_frame (preload self) (strain_conversion_factor self) ext (mem h1 q)
                   = Inr (mem h' q)"
    using Cons.IH[OF _ rest] Cons.prems(1) by simp
  moreover have "\<forall>q\<in>set ss. mem h1 q = mem h q"
    using eff(3) Cons.prems(1) by auto
  ultimately show ?case using first by simp
qed

lemma streamline_all_no_preload:
  "preload self = None \<Longrightarrow> \<forall>s\<in>set ss. ''strain'' \<in> set (columns (mem h s)) \<Longrightarrow>
     \<exists>h'. streamline_all self ext ss h = Inr h'"
proof (induction ss arbitrary: h)
  case Nil
  then show ?case by simp
next
  case (Cons s ss)
  let ?g = "(mem h s)\<lparr>rows := filter (complete_row (columns (mem h s))) (deduplicated_sorted (rows (mem h s)))\<rparr>"
  let ?h1 = "h\<lparr>mem := (mem h)(s := ?g)\<rparr>"
  have d: "streamline_data self ext h s = Inr (?h1, s)"
    using Cons.prems by (simp add: streamline_data_def streamline_frame_no_preload)
  have "\<forall>q\<in>set ss. ''strain'' \<in> set (columns (mem ?h1 q))"
    using Cons.prems(2) by simp
  from Cons.IH[OF Cons.prems(1) this] d show ?case by simp
qed

lemma import_data_layout:
  "import_data self h =
     (case mode_layout (import_mode self) of
        None \<Rightarrow> Inl (ValueError ''No valid import mode entered.'')
      | Some (skip, names) \<Rightarrow> load_sheets skip names self h)"
  by (simp add: import_data_def mode_layout_def)

lemma mode_layout_columns:
  "mode_layout mode = Some (skip, names) \<Longrightarrow> ''strain'' \<in> set names \<and> ''stress'' \<in> set names"
  by (auto simp: mode_layout_def split: if_splits)

lemma load_sheets_fresh:
  assumes "results self = []"
  shows "\<exists>h1. load_sheets skip names self h =
           Inr (self\<lparr>results := named_rows skip (import_file self),
                     raw_original := [next_ref h..<next_ref h + length (drop skip (import_file self))]\<rparr>, h1) \<and>
         next_ref h1 = next_ref h + length (drop skip (import_file self)) \<and>
         (\<forall>r<next_ref h. mem h1 r = mem h r) \<and>
         map (mem h1) [next_ref h..<next_ref h + length (drop skip (import_file self))]
           = imported_frames skip names (import_file self)"
proof -
  let ?fs = "map (\<lambda>sheet. parse names (snd sheet)) (drop skip (import_file self))"
  obtain refs h1 where nf: "new_frames ?fs h = (refs, h1)" by (cases "new_frames ?fs h")
  note p = new_frames_props[OF nf]
  have "load_sheets skip names self h =
           Inr (self\<lparr>results := named_rows skip (import_file self), raw_original := refs\<rparr>, h1)"
    using assms nf by (simp add: load_sheets_def set_results_name_def named_rows_def Let_def)
  then show ?thesis using p by (auto simp: imported_frames_def simp del: upt_Suc)
qed

lemma construct_result:
  assumes fresh: "results self0 = []"
    and run: "construct ext self0 h = Inr (self, h3)"
  shows "\<exists>skip names. mode_layout (import_mode self0) = Some (skip, names) \<and>
      self = self0\<lparr>results := named_rows skip (import_file self0),
          raw_original := [next_ref h..<next_ref h + length (drop skip (import_file self0))],
          raw := [next_ref h + length (drop skip (import_file self0))..<
                  next_ref h + length (drop skip (import_file self0)) + length (drop skip (import_file self0))]\<rparr> \<and>
      next_ref h3 = next_ref h + length (drop skip (import_file self0)) + length (drop skip (import_file self0)) \<and>
      (\<forall>r<next_ref h. mem h3 r = mem h r) \<and>
      map (mem h3) (raw_original self) = imported_frames skip names (import_file self0) \<and>
      (\<forall>i<length (drop skip (import_file self0)).
         streamline_frame (preload self0) (strain_conversion_factor self0) ext
             (imported_frames skip names (import_file self0) ! i) = Inr (mem h3 (raw self ! i)))"
proof -
  obtain skip names where lay: "mode_layout (import_mode self0) = Some (skip, names)"
    using run by (cases "mode_layout (import_mode self0)") (auto simp: construct_def import_data_layout)
  let ?n = "length (drop skip (import_file self0))"
  let ?ro = "[next_ref h..<next_ref h + ?n]"
  let ?self1 = "self0\<lparr>results := named_rows skip (import_file self0), raw_original := ?ro\<rparr>"
  from load_sheets_fresh[OF fresh, of skip names h] obtain h1 where
    ld: "load_sheets skip names self0 h = Inr (?self1, h1)"
    and n1: "next_ref h1 = next_ref h + ?n"
    and k1: "\<forall>r<next_ref h. mem h1 r = mem h r"
    and v1: "map (mem h1) ?ro = imported_frames skip names (import_file self0)"
    by blast
  have imp: "import_data self0 h = Inr (?self1, h1)"
    using lay ld by (simp add: import_data_layout)
  obtain copies h2 where dc: "deepcopy ?ro h1 = (copies, h2)" by (cases "deepcopy ?ro h1")
  then have nf: "new_frames (imported_frames skip names (import_file self0)) h1 = (copies, h2)"
    using v1 by (simp add: deepcopy_def)
  have len: "length (imported_frames skip names (import_file self0)) = ?n"
    by (simp add: imported_frames_def)
  note p = new_frames_props[OF nf, unfolded len n1]
  have copies: "copies = [next_ref h + ?n..<next_ref h + ?n + ?n]" using p by blast
  have n2: "next_ref h2 = next_ref h + ?n + ?n" using p by blast
  have k2: "\<forall>r<next_ref h + ?n. mem h2 r = mem h1 r" using p by blast
  have v2: "map (mem h2) copies = imported_frames skip names (import_file self0)" using p by blast
  have sa: "streamline_all (?self1\<lparr>raw := copies\<rparr>) ext copies h2 = Inr h3"
    and self: "self = ?self1\<lparr>raw := copies\<rparr>"
    using run imp dc by (auto simp: construct_def split: sum.splits)
  note fr = streamline_all_frame[OF sa]
  have dist: "distinct copies" using copies by simp
  note cl = streamline_all_cleaned[OF dist sa]
  have ro_keep: "\<forall>r<next_ref h + ?n. mem h3 r = mem h1 r"
    using fr k2 copies by auto
  have e: "map (mem h3) ?ro = map (mem h1) ?ro"
    using ro_keep by (intro map_cong) auto
  have "raw_original self = ?ro" using self by simp
  then have "map (mem h3) (raw_original self) = map (mem h3) ?ro" by (rule arg_cong)
  also have "\<dots> = map (mem h1) ?ro" by (rule e)
  also have "\<dots> = imported_frames skip names (import_file self0)" by (rule v1)
  finally have ro_vals: "map (mem h3) (raw_original self) = imported_frames skip names (import_file self0)" .
  have cleaned: "\<forall>i<?n. streamline_frame (preload self0) (strain_conversion_factor self0) ext
             (imported_frames skip names (import_file self0) ! i) = Inr (mem h3 (raw self ! i))"
  proof (intro allI impI)
    fix i assume i: "i < ?n"
    then have ic: "i < length copies" using copies by simp
    then have "copies ! i \<in> set copies" by simp
    then have "streamline_frame (preload self0) (strain_conversion_factor self0) ext (mem h2 (copies ! i))
        = Inr (mem h3 (copies ! i))"
      using cl by simp
    moreover have "mem h2 (copies ! i) = imported_frames skip names (import_file self0) ! i"
      using v2 ic by (metis nth_map)
    ultimately show "streamline_frame (preload self0) (strain_conversion_factor self0) ext
             (imported_frames skip names (import_file self0) ! i) = Inr (mem h3 (raw self ! i))"
      using self by simp
  qed
  have "\<forall>r<next_ref h. mem h3 r = mem h r" using ro_keep k1 by auto
  then show ?thesis
    using lay self copies fr n2 ro_vals cleaned by (intro exI[of _ skip] exI[of _ names]) simp
qed

lemma parse_columns: "columns (parse names sheet) = names"
  by (simp add: parse_def)

lemma construct_no_preload:
  assumes fresh: "results self0 = []" and pre: "preload self0 = None"
    and lay: "mode_layout (import_mode self0) = Some (skip, names)"
  shows "\<exists>self h3. construct ext self0 h = Inr (self, h3)"
proof -
  let ?n = "length (drop skip (import_file self0))"
  let ?ro = "[next_ref h..<next_ref h + ?n]"
  let ?self1 = "self0\<lparr>results := named_rows skip (import_file self0), raw_original := ?ro\<rparr>"
  from load_sheets_fresh[OF fresh, of skip names h] obtain h1 where
    ld: "load_sheets skip names self0 h = Inr (?self1, h1)"
    and v1: "map (mem h1) ?ro = imported_frames skip names (import_file self0)"
    by blast
  have imp: "import_data self0 h = Inr (?self1, h1)"
    using lay ld by (simp add: import_data_layout)
  obtain copies h2 where dc: "deepcopy ?ro h1 = (copies, h2)" by (cases "deepcopy ?ro h1")
  then have nf: "new_frames (imported_frames skip names (import_file self0)) h1 = (copies, h2)"
    using v1 by (simp add: deepcopy_def)
  have v2: "map (mem h2) copies = imported_frames skip names (import_file self0)"
    using new_frames_props[OF nf] by blast
  have "\<forall>s\<in>set copies. ''strain'' \<in> set (columns (mem h2 s))"
  proof
    fix s assume "s \<in> set copies"
    then have "mem h2 s \<in> set (map (mem h2) copies)" by simp
    then have "mem h2 s \<in> set (imported_frames skip names (import_file self0))"
      using v2 by simp
    then have "columns (mem h2 s) = names"
      by (auto simp: imported_frames_def parse_columns)
    then show "''strain'' \<in> set (columns (mem h2 s))"
      using mode_layout_columns[OF lay] by simp
  qed
  moreover have "preload (?self1\<lparr>raw := copies\<rparr>) = None" using pre by simp
  ultimately obtain h3 where "streamline_all (?self1\<lparr>raw := copies\<rparr>) ext copies h2 = Inr h3"
    using streamline_all_no_preload by blast
  then show ?thesis using imp dc by (simp add: construct_def)
qed

lemma streamline_frame_errors:
  "streamline_frame pre factor ext f = Inl e \<Longrightarrow> e \<noteq> ValueError ''No valid unit_strain.''"
  by (cases pre)
     (auto simp: streamline_frame_no_preload streamline_frame_preload assign_values_def
       split: if_splits)

lemma streamline_all_errors:
  "streamline_all self ext ss h = Inl e \<Longrightarrow> e \<noteq> ValueError ''No valid unit_strain.''"
proof (induction ss arbitrary: h)
  case Nil
  then show ?case by simp
next
  case (Cons s ss)
  show ?case
  proof (cases "streamline_data self ext h s")
    case (Inl e')
    then have "e' = e" using Cons.prems by simp
    moreover have "e' \<noteq> ValueError ''No valid unit_strain.''"
      using Inl streamline_frame_errors by (auto simp: streamline_data_def split: sum.splits)
    ultimately show ?thesis by simp
  next
    case (Inr p)
    then show ?thesis using Cons by (cases p) auto
  qed
qed

lemma construct_errors:
  "construct ext self0 h = Inl e \<Longrightarrow> e \<noteq> ValueError ''No valid unit_strain.''"
  using streamline_all_errors
  by (auto simp: construct_def import_data_layout load_sheets_def set_results_name_def Let_def
      split: sum.splits option.splits prod.splits if_splits)

lemma smooth_all_frame:
  "smooth_all ext w p dp ss h = Inr (rs, h') \<Longrightarrow>
     next_ref h \<le> next_ref h' \<and> (\<forall>q<next_ref h. mem h' q = mem h q)"
proof (induction ss arbitrary: h rs)
  case Nil
  then show ?case by simp
next
  case (Cons s ss)
  from Cons.prems obtain f rs1 where
    rest: "smooth_all ext w p dp ss \<lparr>mem = (mem h)(next_ref h := f), next_ref = Suc (next_ref h)\<rparr> = Inr (rs1, h')"
    by (auto simp: new_frame_def split: sum.splits prod.splits)
  from Cons.IH[OF rest] show ?case by auto
qed

lemma regress_all_frame:
  "regress_all ext factor r2 lo up ss h = Inr (outs, h') \<Longrightarrow>
     next_ref h \<le> next_ref h' \<and> (\<forall>q<next_ref h. mem h' q = mem h q)"
proof (induction ss arbitrary: h outs)
  case Nil
  then show ?case by simp
next
  case (Cons s ss)
  from Cons.prems obtain f outs1 where
    rest: "regress_all ext factor r2 lo up ss \<lparr>mem = (mem h)(next_ref h := f), next_ref = Suc (next_ref h)\<rparr> = Inr (outs1, h')"
    by (auto simp: new_frame_def split: sum.splits prod.splits)
  from Cons.IH[OF rest] show ?case by auto
qed

lemma calc_e_modulus_frame:
  assumes "calc_e_modulus ext self h r2 lo up sm w p dp = Inr (self2, h2)"
  shows "raw_original self2 = raw_original self \<and> raw self2 = raw self \<and>
         (\<forall>q<next_ref h. mem h2 q = mem h q)"
proof -
  from assms obtain processed h1 outs where
    s: "(if sm then smooth_all ext w p dp (raw self) h else Inr (raw self, h)) = Inr (processed, h1)"
    and r: "regress_all ext (strain_conversion_factor self) r2 lo up processed h1 = Inr (outs, h2)"
    and f: "raw_original self2 = raw_original self \<and> raw self2 = raw self"
    by (auto simp: calc_e_modulus_def split: sum.splits prod.splits)
  have "next_ref h \<le> next_ref h1 \<and> (\<forall>q<next_ref h. mem h1 q = mem h q)"
    using s smooth_all_frame by (cases sm) auto
  then show ?thesis using regress_all_frame[OF r] f by auto
qed

lemma collect_all_ok:
  "\<forall>x\<in>set xs. g x = Inr (k x) \<Longrightarrow> collect g xs = Inr (map k xs)"
  by (induction xs) simp_all

lemma set_results_column_ok:
  assumes "length vs = length rs"
  shows "\<exists>res. set_results_column t vs rs = Inr res \<and> length res = length vs \<and>
           (\<forall>i<length vs. entries (res ! i) t = vs ! i) \<and>
           (rs \<noteq> [] \<longrightarrow> map name res = map name rs)"
proof (cases "rs = []")
  case True
  then show ?thesis using assms by (simp add: set_results_column_def)
next
  case False
  let ?res = "map2 (\<lambda>r v. r\<lparr>entries := (entries r)(t := v)\<rparr>) rs vs"
  have "set_results_column t vs rs = Inr ?res"
    using False assms by (simp add: set_results_column_def)
  moreover have "length ?res = length vs" using assms by simp
  moreover have "\<forall>i<length vs. entries (?res ! i) t = vs ! i" using assms by simp
  moreover have "map name ?res = map name rs"
    using assms by (auto intro: nth_equalityI)
  ultimately show ?thesis by blast
qed

lemma init_no_preload:
  assumes lay: "mode_layout mode = Some (skip, names)" and unit: "u = [] \<or> u = ''%''"
  shows "\<exists>self h1. init ext h file mode u us None = Inr (self, h1) \<and>
      strain_conversion_factor self = (if u = [] then 1 else 100) \<and>
      strength_title self = ''strength ['' @ us @ '']'' \<and>
      raw_original self = [next_ref h..<next_ref h + length (drop skip file)] \<and>
      raw self = [next_ref h + length (drop skip file)..<
                  next_ref h + length (drop skip file) + length (drop skip file)] \<and>
      results self = named_rows skip file \<and>
      next_ref h1 = next_ref h + length (drop skip file) + length (drop skip file) \<and>
      map (mem h1) (raw_original self) = imported_frames skip names file \<and>
      (\<forall>i<length (drop skip file).
         streamline_frame None (strain_conversion_factor self) ext (imported_frames skip names file ! i)
           = Inr (mem h1 (raw self ! i)))"
proof -
  define factor :: real where "factor = (if u = [] then 1 else 100)"
  let ?self0 = "new_tensile_test file mode u us None factor"
  have i: "init ext h file mode u us None = construct ext ?self0 h"
    using unit by (auto simp: init_def factor_def)
  have f0: "results ?self0 = []" "preload ?self0 = None" "import_mode ?self0 = mode"
    "import_file ?self0 = file" "strain_conversion_factor ?self0 = factor"
    by (simp_all add: new_tensile_test_def)
  from construct_no_preload[of ?self0 skip names ext h] f0 lay
  obtain self h1 where c: "construct ext ?self0 h = Inr (self, h1)" by auto
  from construct_result[OF f0(1) c] lay f0
  have self: "self = ?self0\<lparr>results := named_rows skip file,
          raw_original := [next_ref h..<next_ref h + length (drop skip file)],
          raw := [next_ref h + length (drop skip file)..<
                  next_ref h + length (drop skip file) + length (drop skip file)]\<rparr>"
    and n: "next_ref h1 = next_ref h + length (drop skip file) + length (drop skip file)"
    and ro: "map (mem h1) (raw_original self) = imported_frames skip names file"
    and cl: "\<forall>i<length (drop skip file).
         streamline_frame None factor ext (imported_frames skip names file ! i) = Inr (mem h1 (raw self ! i))"
    by auto
  have "strain_conversion_factor self = factor" "strength_title self = ''strength ['' @ us @ '']''"
    "raw_original self = [next_ref h..<next_ref h + length (drop skip file)]"
    "raw self = [next_ref h + length (drop skip file)..<
                  next_ref h + length (drop skip file) + length (drop skip file)]"
    "results self = named_rows skip file"
    unfolding self by (simp_all add: new_tensile_test_def)
  then show ?thesis using i c n ro cl unfolding factor_def by (intro exI[of _ self] exI[of _ h1]) simp
qed

lemma sample_strength_value:
  "''stress'' \<in> set (columns g) \<Longrightarrow>
     sample_strength g = Inr (around_cell 1 (series_max (map (\<lambda>r. cells r ''stress'') (rows g))))"
  by (simp add: sample_strength_def column_def)

lemma calc_strength_after_init:
  assumes lay: "mode_layout mode = Some (skip, names)"
    and raw_len: "length (raw self) = length (results self)"
    and cleaned: "\<forall>i<length (raw self). \<exists>f. columns f = names \<and>
                    streamline_frame None factor ext f = Inr (mem h1 (raw self ! i))"
  shows "\<exists>self2. calc_strength self h1 = Inr self2 \<and>
          map name (results self2) = map name (results self) \<and>
          (\<forall>i<length (raw self).
              entries (results self2 ! i) (strength_title self) =
                around_cell 1 (series_max (map (\<lambda>r. cells r ''stress'') (rows (mem h1 (raw self ! i))))))"
proof -
  let ?k = "\<lambda>g. around_cell 1 (series_max (map (\<lambda>r. cells r ''stress'') (rows g)))"
  let ?vs = "map ?k (map (mem h1) (raw self))"
  have "\<forall>g\<in>set (map (mem h1) (raw self)). sample_strength g = Inr (?k g)"
  proof
    fix g assume "g \<in> set (map (mem h1) (raw self))"
    then obtain i where i: "i < length (raw self)" "g = mem h1 (raw self ! i)"
      by (auto simp: in_set_conv_nth)
    then obtain f where f: "columns f = names" "streamline_frame None factor ext f = Inr g"
      using cleaned by blast
    have "columns g = names" using cleaned_no_preload(5)[OF f(2)] f(1) by simp
    then show "sample_strength g = Inr (?k g)"
      using mode_layout_columns[OF lay] by (simp add: sample_strength_value)
  qed
  then have col: "collect sample_strength (map (mem h1) (raw self)) = Inr ?vs"
    by (rule collect_all_ok)
  have "length ?vs = length (results self)" using raw_len by simp
  from set_results_column_ok[OF this, of "strength_title self"] obtain res where
    res: "set_results_column (strength_title self) ?vs (results self) = Inr res"
    "length res = length ?vs"
    "\<forall>i<length ?vs. entries (res ! i) (strength_title self) = ?vs ! i"
    "results self \<noteq> [] \<longrightarrow> map name res = map name (results self)"
    by blast
  have names: "map name res = map name (results self)"
  proof (cases "results self = []")
    case True
    then show ?thesis using res(2) raw_len by simp
  next
    case False
    then show ?thesis using res(4) by simp
  qed
  have "calc_strength self h1 = Inr (self\<lparr>strength := ?vs, results := res\<rparr>)"
    using col res(1) by (simp add: calc_strength_def)
  moreover have "\<forall>i<length (raw self).
      entries (res ! i) (strength_title self) = ?k (mem h1 (raw self ! i))"
    using res(3) by simp
  ultimately show ?thesis using names by (intro exI[of _ "self\<lparr>strength := ?vs, results := res\<rparr>"]) simp
qed

lemma imported_frames_columns:
  "i < length (drop skip file) \<Longrightarrow> columns (imported_frames skip names file ! i) = names"
  by (simp add: imported_frames_def parse_columns)

lemma empty_sample_general:
  assumes lay: "mode_layout mode = Some (skip, names)" and unit: "u = [] \<or> u = ''%''"
  shows "\<exists>self h1. init ext h file mode u us None = Inr (self, h1) \<and>
      length (raw self) = length (drop skip file) \<and>
      map name (results self) = map (\<lambda>sheet. Some (fst sheet)) (drop skip file) \<and>
      (\<forall>row\<in>set (results self). \<forall>t. entries row t = None) \<and>
      (\<forall>i<length (drop skip file).
         streamline_frame None (strain_conversion_factor self) ext (imported_frames skip names file ! i)
           = Inr (mem h1 (raw self ! i))) \<and>
      (\<exists>self2. calc_strength self h1 = Inr self2 \<and>
          map name (results self2) = map name (results self) \<and>
          (\<forall>i<length (drop skip file).
              entries (results self2 ! i) (strength_title self) =
                around_cell 1 (series_max (map (\<lambda>r. cells r ''stress'') (rows (mem h1 (raw self ! i))))) \<and>
              (rows (mem h1 (raw self ! i)) = [] \<longrightarrow>
                 entries (results self2 ! i) (strength_title self) = None)))"
proof -
  from init_no_preload[OF lay unit] obtain self h1 where
    i: "init ext h file mode u us None = Inr (self, h1)"
    and raw: "raw self = [next_ref h + length (drop skip file)..<
                  next_ref h + length (drop skip file) + length (drop skip file)]"
    and res: "results self = named_rows skip file"
    and cl: "\<forall>i<length (drop skip file).
         streamline_frame None (strain_conversion_factor self) ext (imported_frames skip names file ! i)
           = Inr (mem h1 (raw self ! i))"
    by blast
  have len: "length (raw self) = length (drop skip file)" using raw by simp
  have names: "map name (results self) = map (\<lambda>sheet. Some (fst sheet)) (drop skip file)"
    using res by (simp add: named_rows_def comp_def)
  have missing: "\<forall>row\<in>set (results self). \<forall>t. entries row t = None"
    using res by (auto simp: named_rows_def)
  have "length (raw self) = length (results self)" using len res by (simp add: named_rows_def)
  moreover have "\<forall>i<length (raw self). \<exists>f. columns f = names \<and>
       streamline_frame None (strain_conversion_factor self) ext f = Inr (mem h1 (raw self ! i))"
    using cl len imported_frames_columns by metis
  ultimately obtain self2 where s2: "calc_strength self h1 = Inr self2"
    "map name (results self2) = map name (results self)"
    "\<forall>i<length (raw self).
              entries (results self2 ! i) (strength_title self) =
                around_cell 1 (series_max (map (\<lambda>r. cells r ''stress'') (rows (mem h1 (raw self ! i)))))"
    using calc_strength_after_init[OF lay] by blast
  have "\<forall>i<length (drop skip file).
              entries (results self2 ! i) (strength_title self) =
                around_cell 1 (series_max (map (\<lambda>r. cells r ''stress'') (rows (mem h1 (raw self ! i))))) \<and>
              (rows (mem h1 (raw self ! i)) = [] \<longrightarrow>
                 entries (results self2 ! i) (strength_title self) = None)"
    using s2(3) len by (auto simp: around_cell_def)
  then show ?thesis using i len names missing cl s2(1,2) by blast
qed

text \<open>
  C5 as stated fails: with preload 10, every row of the first sample of the example
  workbook has a stress below preload, and the construction raises IndexError; no
  object and no results table exist afterwards.
\<close>

theorem preload_empties_sample_counterexample:
  "init (stub_externals None) empty_heap example_workbook ''Lena_Schunter'' ''%'' ''kPa'' (Some 10)
     = Inl (IndexError ''single positional indexer is out-of-bounds'')"
  by (simp add: init_def construct_def new_tensile_test_def import_data_def load_sheets_def
      set_results_name_def example_workbook_def empty_heap_def new_frame_def deepcopy_def
      streamline_data_def Let_def run_simps)

text \<open>
  C5, amended: without the preload option, for a recognized strain unit and a valid
  import mode, construction never aborts, also when cleaning leaves a sample without
  rows: every sample is cleaned, the results table has exactly one row per imported
  sample, carrying its name, with every numeric field missing; \<open>calc_strength\<close> then
  succeeds, keeps one row per sample, records the strength of every sample, and
  records a missing strength for a sample without rows.
\<close>

theorem construction_without_preload_keeps_every_sample:
  "mode_layout mode = Some (skip, names) \<and> (u = [] \<or> u = ''%'') \<longrightarrow>
   (\<exists>self h1. init ext h file mode u us None = Inr (self, h1) \<and>
      length (raw self) = length (drop skip file) \<and>
      map name (results self) = map (\<lambda>sheet. Some (fst sheet)) (drop skip file) \<and>
      (\<forall>row\<in>set (results self). \<forall>t. entries row t = None) \<and>
      (\<forall>i<length (drop skip file).
         streamline_frame None (strain_conversion_factor self) ext (imported_frames skip names file ! i)
           = Inr (mem h1 (raw self ! i))) \<and>
      (\<exists>self2. calc_strength self h1 = Inr self2 \<and>
          map name (results self2) = map name (results self) \<and>
          (\<forall>i<length (drop skip file).
              entries (results self2 ! i) (strength_title self) =
                around_cell 1 (series_max (map (\<lambda>r. cells r ''stress'') (rows (mem h1 (raw self ! i))))) \<and>
              (rows (mem h1 (raw self ! i)) = [] \<longrightarrow>
                 entries (results self2 ! i) (strength_title self) = None))))"
  using empty_sample_general by blast

theorem construction_without_preload_keeps_every_sample_witness:
  "\<exists>self h1. init (stub_externals None) empty_heap example_workbook ''Lena_Schunter'' ''%'' ''kPa'' None
        = Inr (self, h1) \<and>
      length (raw self) = 2 \<and>
      map name (results self) = [Some ''Probe 1'', Some ''Probe 2''] \<and>
      rows (mem h1 (raw self ! 1)) = [] \<and>
      (\<exists>self2. calc_strength self h1 = Inr self2 \<and>
          map name (results self2) = [Some ''Probe 1'', Some ''Probe 2''] \<and>
          entries (results self2 ! 0) (strength_title self) = Some 6 \<and>
          entries (results self2 ! 1) (strength_title self) = None)"
proof -
  let ?names = "[''tool_distance'', ''strain'', ''stress'']"
  have hyp: "mode_layout ''Lena_Schunter'' = Some (2, ?names) \<and> (''%'' = [] \<or> ''%'' = ''%'')"
    by (simp add: mode_layout_def)
  have d: "drop 2 example_workbook =
      [(''Probe 1'', [[Some 10, Some 0, Some 5], [Some 12, Some 1, Some 6]]),
       (''Probe 2'', [[None, Some 0, Some 5]])]"
    by (simp add: example_workbook_def)
  from construction_without_preload_keeps_every_sample[of "''Lena_Schunter''" 2 ?names "''%''"
      "stub_externals None" empty_heap example_workbook "''kPa''"] hyp
  obtain self h1 self2 where
    i: "init (stub_externals None) empty_heap example_workbook ''Lena_Schunter'' ''%'' ''kPa'' None
        = Inr (self, h1)"
    and len: "length (raw self) = length (drop 2 example_workbook)"
    and nm: "map name (results self) = map (\<lambda>sheet. Some (fst sheet)) (drop 2 example_workbook)"
    and cl: "\<forall>i<length (drop 2 example_workbook).
         streamline_frame None (strain_conversion_factor self) (stub_externals None)
            (imported_frames 2 ?names example_workbook ! i) = Inr (mem h1 (raw self ! i))"
    and cs: "calc_strength self h1 = Inr self2"
    and nm2: "map name (results self2) = map name (results self)"
    and st: "\<forall>i<length (drop 2 example_workbook).
              entries (results self2 ! i) (strength_title self) =
                around_cell 1 (series_max (map (\<lambda>r. cells r ''stress'') (rows (mem h1 (raw self ! i))))) \<and>
              (rows (mem h1 (raw self ! i)) = [] \<longrightarrow>
                 entries (results self2 ! i) (strength_title self) = None)"
    by blast
  have c0: "streamline_frame None (strain_conversion_factor self) (stub_externals None)
            (imported_frames 2 ?names example_workbook ! 0) = Inr (mem h1 (raw self ! 0))"
    and c1: "streamline_frame None (strain_conversion_factor self) (stub_externals None)
            (imported_frames 2 ?names example_workbook ! 1) = Inr (mem h1 (raw self ! 1))"
    using cl d by simp_all
  have r0: "map (\<lambda>r. cells r ''stress'') (rows (mem h1 (raw self ! 0))) = [Some 5, Some 6]"
    using c0[symmetric] by (simp add: imported_frames_def d run_simps)
  have r1: "rows (mem h1 (raw self ! 1)) = []"
    using c1[symmetric] by (simp add: imported_frames_def d run_simps)
  have s0: "entries (results self2 ! 0) (strength_title self) = Some 6"
    using st d r0 by (simp add: around_cell_def around_def rint_def)
  have s1: "entries (results self2 ! 1) (strength_title self) = None"
    using st d r1 by (simp add: around_cell_def)
  have "length (raw self) = 2" using len d by simp
  moreover have "map name (results self) = [Some ''Probe 1'', Some ''Probe 2'']" using nm d by simp
  ultimately show ?thesis using i r1 cs nm2 s0 s1
    by (intro exI[of _ self] exI[of _ h1] conjI exI[of _ self2]) simp_all
qed

text \<open>
  C7 as stated fails: with the recognized unit '' the construction raises ValueError
  for an import mode that is not one of the three known modes, and IndexError when
  the preload 10 leaves no row of the first sample of the example workbook.
\<close>

theorem recognized_unit_raises_counterexample:
  "init (stub_externals None) empty_heap example_workbook ''Nobody'' [] ''kPa'' None
     = Inl (ValueError ''No valid import mode entered.'') \<and>
   init (stub_externals None) empty_heap example_workbook ''Lena_Schunter'' [] ''kPa'' (Some 10)
     = Inl (IndexError ''single positional indexer is out-of-bounds'')"
  by (simp add: init_def construct_def new_tensile_test_def import_data_def load_sheets_def
      set_results_name_def example_workbook_def empty_heap_def new_frame_def deepcopy_def
      streamline_data_def Let_def run_simps)

text \<open>
  C7, amended: a strain unit other than '' and '%' makes the construction fail with
  the configuration error, whatever the file, the import mode and the preload are, so
  nothing is imported or cleaned; for the two recognized units the construction never
  fails with that error, a constructed object has the conversion factor 1 for '' and
  100 for '%', with a valid import mode and no preload the construction succeeds, and
  with an import mode that is not one of the three known modes it fails with the
  ValueError of the import.
\<close>

theorem unit_strain_check:
  "(u \<noteq> [] \<and> u \<noteq> ''%'' \<longrightarrow>
      init ext h file mode u us pre = Inl (ValueError ''No valid unit_strain.'')) \<and>
   (u = [] \<or> u = ''%'' \<longrightarrow>
      init ext h file mode u us pre \<noteq> Inl (ValueError ''No valid unit_strain.'')) \<and>
   (init ext h file mode [] us pre = Inr (self, h1) \<longrightarrow> strain_conversion_factor self = 1) \<and>
   (init ext h file mode ''%'' us pre = Inr (self, h1) \<longrightarrow> strain_conversion_factor self = 100) \<and>
   (mode_layout mode = Some (skip, names) \<longrightarrow>
      (\<exists>self h1. init ext h file mode [] us None = Inr (self, h1) \<and> strain_conversion_factor self = 1) \<and>
      (\<exists>self h1. init ext h file mode ''%'' us None = Inr (self, h1) \<and>
         strain_conversion_factor self = 100)) \<and>
   ((u = [] \<or> u = ''%'') \<and> mode_layout mode = None \<longrightarrow>
      init ext h file mode u us pre = Inl (ValueError ''No valid import mode entered.''))"
proof (intro conjI impI)
  assume "u \<noteq> [] \<and> u \<noteq> ''%''"
  then show "init ext h file mode u us pre = Inl (ValueError ''No valid unit_strain.'')"
    by (simp add: init_def)
next
  assume "u = [] \<or> u = ''%''"
  then show "init ext h file mode u us pre \<noteq> Inl (ValueError ''No valid unit_strain.'')"
    using construct_errors by (auto simp: init_def)
next
  assume "init ext h file mode [] us pre = Inr (self, h1)"
  then have "construct ext (new_tensile_test file mode [] us pre 1) h = Inr (self, h1)"
    by (simp add: init_def)
  from construct_result[OF _ this] show "strain_conversion_factor self = 1"
    by (auto simp: new_tensile_test_def)
next
  assume "init ext h file mode ''%'' us pre = Inr (self, h1)"
  then have "construct ext (new_tensile_test file mode ''%'' us pre 100) h = Inr (self, h1)"
    by (simp add: init_def)
  from construct_result[OF _ this] show "strain_conversion_factor self = 100"
    by (auto simp: new_tensile_test_def)
next
  assume lay: "mode_layout mode = Some (skip, names)"
  show "\<exists>self h1. init ext h file mode [] us None = Inr (self, h1) \<and> strain_conversion_factor self = 1"
    using init_no_preload[OF lay, of "[]" ext h "file" us] by auto
next
  assume lay: "mode_layout mode = Some (skip, names)"
  show "\<exists>self h1. init ext h file mode ''%'' us None = Inr (self, h1) \<and>
         strain_conversion_factor self = 100"
    using init_no_preload[OF lay, of "''%''" ext h "file" us] by auto
next
  assume a: "(u = [] \<or> u = ''%'') \<and> mode_layout mode = None"
  then have m: "mode \<noteq> ''Marc_Stuhlmueller''" "mode \<noteq> ''Philipp Manglkammer''"
    "mode \<noteq> ''Lena_Schunter''"
    by (auto simp: mode_layout_def split: if_splits)
  have "\<And>factor. construct ext (new_tensile_test file mode u us pre factor) h
      = Inl (ValueError ''No valid import mode entered.'')"
    using m by (simp add: construct_def import_data_def new_tensile_test_def)
  with a show "init ext h file mode u us pre = Inl (ValueError ''No valid import mode entered.'')"
    by (auto simp: init_def)
qed

theorem unit_strain_check_witness:
  "init (stub_externals None) empty_heap example_workbook ''Lena_Schunter'' ''kg'' ''kPa'' (Some 10)
     = Inl (ValueError ''No valid unit_strain.'') \<and>
   init (stub_externals None) empty_heap example_workbook ''Lena_Schunter'' ''%'' ''kPa'' (Some 10)
     \<noteq> Inl (ValueError ''No valid unit_strain.'') \<and>
   (\<exists>self h1. init (stub_externals None) empty_heap example_workbook ''Lena_Schunter'' [] ''kPa'' None
        = Inr (self, h1) \<and> strain_conversion_factor self = 1) \<and>
   (\<exists>self h1. init (stub_externals None) empty_heap example_workbook ''Lena_Schunter'' ''%'' ''kPa'' None
        = Inr (self, h1) \<and> strain_conversion_factor self = 100) \<and>
   init (stub_externals None) empty_heap example_workbook ''Nobody'' ''%'' ''kPa'' (Some 10)
     = Inl (ValueError ''No valid import mode entered.'')"
proof -
  have lay: "mode_layout ''Lena_Schunter'' = Some (2, [''tool_distance'', ''strain'', ''stress''])"
    by (simp add: mode_layout_def)
  have nolay: "(''%'' = [] \<or> ''%'' = ''%'') \<and> mode_layout ''Nobody'' = None"
    by (simp add: mode_layout_def)
  have u1: "''kg'' \<noteq> [] \<and> ''kg'' \<noteq> ''%''" by simp
  have u2: "''%'' = [] \<or> ''%'' = ''%''" by simp
  have c1: "init (stub_externals None) empty_heap example_workbook ''Lena_Schunter'' ''kg'' ''kPa'' (Some 10)
     = Inl (ValueError ''No valid unit_strain.'')"
    using unit_strain_check[of "''kg''" "stub_externals None" empty_heap example_workbook
        "''Lena_Schunter''" "''kPa''" "Some 10", THEN conjunct1] u1 by (rule mp)
  have c2: "init (stub_externals None) empty_heap example_workbook ''Lena_Schunter'' ''%'' ''kPa'' (Some 10)
     \<noteq> Inl (ValueError ''No valid unit_strain.'')"
    using unit_strain_check[of "''%''" "stub_externals None" empty_heap example_workbook
        "''Lena_Schunter''" "''kPa''" "Some 10", THEN conjunct2, THEN conjunct1] u2 by (rule mp)
  have c3: "(\<exists>self h1. init (stub_externals None) empty_heap example_workbook ''Lena_Schunter'' [] ''kPa'' None
        = Inr (self, h1) \<and> strain_conversion_factor self = 1) \<and>
   (\<exists>self h1. init (stub_externals None) empty_heap example_workbook ''Lena_Schunter'' ''%'' ''kPa'' None
        = Inr (self, h1) \<and> strain_conversion_factor self = 100)"
    using unit_strain_check[of _ "stub_externals None" empty_heap example_workbook
        "''Lena_Schunter''" "''kPa''" _ _ _ 2 "[''tool_distance'', ''strain'', ''stress'']",
        THEN conjunct2, THEN conjunct2, THEN conjunct2, THEN conjunct2, THEN conjunct1] lay
    by (rule mp)
  have c4: "init (stub_externals None) empty_heap example_workbook ''Nobody'' ''%'' ''kPa'' (Some 10)
     = Inl (ValueError ''No valid import mode entered.'')"
    using unit_strain_check[of "''%''" "stub_externals None" empty_heap example_workbook
        "''Nobody''" "''kPa''" "Some 10",
        THEN conjunct2, THEN conjunct2, THEN conjunct2, THEN conjunct2, THEN conjunct2] nolay
    by (rule mp)
  from c1 c2 c3 c4 show ?thesis by (intro conjI) (simp_all only: simp_thms)
qed

lemma calc_fields:
  "calc_strength self h = Inr self2 \<Longrightarrow> raw_original self2 = raw_original self \<and> raw self2 = raw self"
  "calc_toughness self h = Inr self2 \<Longrightarrow> raw_original self2 = raw_original self \<and> raw self2 = raw self"
  "calc_elongation_at_break self h = Inr self2 \<Longrightarrow>
     raw_original self2 = raw_original self \<and> raw self2 = raw self"
  by (auto simp: calc_strength_def calc_toughness_def calc_elongation_at_break_def split: sum.splits)

lemma init_result:
  assumes run: "init ext h file mode u us pre = Inr (self, h1)"
  shows "\<exists>skip names. mode_layout mode = Some (skip, names) \<and>
      preload self = pre \<and>
      raw_original self = [next_ref h..<next_ref h + length (drop skip file)] \<and>
      raw self = [next_ref h + length (drop skip file)..<
                  next_ref h + length (drop skip file) + length (drop skip file)] \<and>
      next_ref h1 = next_ref h + length (drop skip file) + length (drop skip file) \<and>
      map (mem h1) (raw_original self) = imported_frames skip names file \<and>
      (\<forall>i<length (drop skip file).
         streamline_frame pre (strain_conversion_factor self) ext
             (imported_frames skip names file ! i) = Inr (mem h1 (raw self ! i)))"
proof -
  obtain factor :: real where
    c: "construct ext (new_tensile_test file mode u us pre factor) h = Inr (self, h1)"
    using run by (auto simp: init_def split: if_splits)
  let ?self0 = "new_tensile_test file mode u us pre factor"
  have f0: "results ?self0 = []" "preload ?self0 = pre" "import_mode ?self0 = mode"
    "import_file ?self0 = file" "strain_conversion_factor ?self0 = factor"
    by (simp_all add: new_tensile_test_def)
  from construct_result[OF f0(1) c] obtain skip names where
    lay: "mode_layout mode = Some (skip, names)"
    and self: "self = ?self0\<lparr>results := named_rows skip file,
          raw_original := [next_ref h..<next_ref h + length (drop skip file)],
          raw := [next_ref h + length (drop skip file)..<
                  next_ref h + length (drop skip file) + length (drop skip file)]\<rparr>"
    and n: "next_ref h1 = next_ref h + length (drop skip file) + length (drop skip file)"
    and ro: "map (mem h1) (raw_original self) = imported_frames skip names file"
    and cl: "\<forall>i<length (drop skip file).
         streamline_frame pre factor ext (imported_frames skip names file ! i) = Inr (mem h1 (raw self ! i))"
    unfolding f0 by blast
  have "preload self = pre" "strain_conversion_factor self = factor"
    "raw_original self = [next_ref h..<next_ref h + length (drop skip file)]"
    "raw self = [next_ref h + length (drop skip file)..<
                  next_ref h + length (drop skip file) + length (drop skip file)]"
    unfolding self by (simp_all add: new_tensile_test_def)
  then show ?thesis using lay n ro cl by (intro exI[of _ skip] exI[of _ names]) simp
qed

lemma raw_original_general:
  assumes run: "init ext h file mode u us pre = Inr (self, h1)"
  shows "(\<exists>skip names. mode_layout mode = Some (skip, names) \<and>
        map (mem h1) (raw_original self) = imported_frames skip names file \<and>
        length (raw self) = length (raw_original self) \<and>
        (\<forall>i<length (raw self).
            streamline_frame pre (strain_conversion_factor self) ext (mem h1 (raw_original self ! i))
              = Inr (mem h1 (raw self ! i)))) \<and>
    set (raw self) \<inter> set (raw_original self) = {} \<and> distinct (raw self) \<and>
    (\<forall>r\<in>set (raw_original self). r < next_ref h1) \<and>
    (\<forall>r2 lo up sm w p dp self2 h2.
        calc_e_modulus ext self h1 r2 lo up sm w p dp = Inr (self2, h2) \<longrightarrow>
        raw_original self2 = raw_original self \<and>
        map (mem h2) (raw_original self2) = map (mem h1) (raw_original self))"
proof -
  from init_result[OF run] obtain skip names where
    lay: "mode_layout mode = Some (skip, names)"
    and ro: "raw_original self = [next_ref h..<next_ref h + length (drop skip file)]"
    and raw: "raw self = [next_ref h + length (drop skip file)..<
                  next_ref h + length (drop skip file) + length (drop skip file)]"
    and n: "next_ref h1 = next_ref h + length (drop skip file) + length (drop skip file)"
    and vals: "map (mem h1) (raw_original self) = imported_frames skip names file"
    and cl: "\<forall>i<length (drop skip file).
         streamline_frame pre (strain_conversion_factor self) ext
             (imported_frames skip names file ! i) = Inr (mem h1 (raw self ! i))"
    by blast
  have len: "length (raw self) = length (raw_original self)" using ro raw by simp
  have cleaned: "\<forall>i<length (raw self).
            streamline_frame pre (strain_conversion_factor self) ext (mem h1 (raw_original self ! i))
              = Inr (mem h1 (raw self ! i))"
  proof (intro allI impI)
    fix i assume i: "i < length (raw self)"
    then have i': "i < length (drop skip file)" using raw by simp
    have "map (mem h1) (raw_original self) ! i = mem h1 (raw_original self ! i)"
      using i len by simp
    then have "mem h1 (raw_original self ! i) = imported_frames skip names file ! i"
      using vals by simp
    moreover have "streamline_frame pre (strain_conversion_factor self) ext
             (imported_frames skip names file ! i) = Inr (mem h1 (raw self ! i))"
      using cl i' by blast
    ultimately show "streamline_frame pre (strain_conversion_factor self) ext (mem h1 (raw_original self ! i))
              = Inr (mem h1 (raw self ! i))"
      by simp
  qed
  have disj: "set (raw self) \<inter> set (raw_original self) = {}" using ro raw by auto
  have dist: "distinct (raw self)" using raw by simp
  have below: "\<forall>r\<in>set (raw_original self). r < next_ref h1" using ro n by auto
  have later: "\<forall>r2 lo up sm w p dp self2 h2.
        calc_e_modulus ext self h1 r2 lo up sm w p dp = Inr (self2, h2) \<longrightarrow>
        raw_original self2 = raw_original self \<and>
        map (mem h2) (raw_original self2) = map (mem h1) (raw_original self)"
  proof (intro allI impI)
    fix r2 lo up sm w p dp self2 h2
    assume "calc_e_modulus ext self h1 r2 lo up sm w p dp = Inr (self2, h2)"
    from calc_e_modulus_frame[OF this] have a: "raw_original self2 = raw_original self"
      and b: "\<forall>q<next_ref h1. mem h2 q = mem h1 q" by blast+
    have "map (mem h2) (raw_original self) = map (mem h1) (raw_original self)"
      using b below by (intro map_cong) auto
    then show "raw_original self2 = raw_original self \<and>
        map (mem h2) (raw_original self2) = map (mem h1) (raw_original self)"
      using a by simp
  qed
  show ?thesis using lay vals len cleaned disj dist below later by blast
qed

text \<open>
  Every curve that \<open>calc_e_modulus\<close> processes has unique index labels: the cleaned
  curves of \<open>raw\<close> and the smoothed curves alike.
\<close>

lemma raw_frames_labels_distinct:
  assumes run: "init ext h file mode u us pre = Inr (self, h1)"
  shows "\<forall>r\<in>set (raw self). labels_distinct (mem h1 r)"
proof
  fix r assume r: "r \<in> set (raw self)"
  from init_result[OF run] obtain skip names where
    raw: "raw self = [next_ref h + length (drop skip file)..<
                  next_ref h + length (drop skip file) + length (drop skip file)]"
    and cl: "\<forall>i<length (drop skip file).
         streamline_frame pre (strain_conversion_factor self) ext
             (imported_frames skip names file ! i) = Inr (mem h1 (raw self ! i))"
    by blast
  from r obtain i where i: "i < length (raw self)" "r = raw self ! i"
    by (auto simp: in_set_conv_nth)
  then have il: "i < length (drop skip file)" using raw by simp
  then have "streamline_frame pre (strain_conversion_factor self) ext
             (imported_frames skip names file ! i) = Inr (mem h1 r)"
    using cl i(2) by simp
  moreover have "labels_distinct (imported_frames skip names file ! i)"
    using il by (simp add: imported_frames_def parse_labels_distinct)
  ultimately show "labels_distinct (mem h1 r)"
    by (rule streamline_frame_labels_distinct[rotated])
qed

lemma frame_of_curve_labels_distinct: "labels_distinct (frame_of_curve x y)"
  using parse_labels_distinct[of "[''strain'', ''stress'']" "map2 (\<lambda>a b. [a, b]) x y"]
  by (simp add: frame_of_curve_def labels_distinct_def)

lemma smooth_data_labels_distinct:
  "smooth_data ext sample window poly_order data_points = Inr smoothed \<Longrightarrow> labels_distinct smoothed"
  by (auto simp: smooth_data_def frame_of_curve_labels_distinct Let_def
      split: sum.splits prod.splits)

text \<open>
  C10: after a successful construction, the objects behind \<open>raw_original\<close> hold
  exactly the imported frames; \<open>raw\<close> holds as many objects, none of them shared with
  \<open>raw_original\<close>, each with the cleaned value of its original. \<open>streamline_data\<close>
  returns the reference it was given and changes the object behind it, and no other
  object, to the cleaned value. \<open>calc_e_modulus\<close> leaves the list \<open>raw_original\<close>
  and the values of its objects as they are; \<open>calc_strength\<close>, \<open>calc_toughness\<close>
  and \<open>calc_elongation_at_break\<close> only read the heap and leave the list as it is.
\<close>

theorem raw_original_is_left_unchanged:
  "init ext h file mode u us pre = Inr (self, h1) \<longrightarrow>
    (\<exists>skip names. mode_layout mode = Some (skip, names) \<and>
        map (mem h1) (raw_original self) = imported_frames skip names file \<and>
        length (raw self) = length (raw_original self) \<and>
        (\<forall>i<length (raw self).
            streamline_frame pre (strain_conversion_factor self) ext (mem h1 (raw_original self ! i))
              = Inr (mem h1 (raw self ! i)))) \<and>
    set (raw self) \<inter> set (raw_original self) = {} \<and> distinct (raw self) \<and>
    (\<forall>r\<in>set (raw_original self). r < next_ref h1) \<and>
    (\<forall>sample ha hb r. streamline_data self ext ha sample = Inr (hb, r) \<longrightarrow>
        r = sample \<and> (\<forall>q. q \<noteq> sample \<longrightarrow> mem hb q = mem ha q) \<and>
        streamline_frame (preload self) (strain_conversion_factor self) ext (mem ha sample)
          = Inr (mem hb sample)) \<and>
    (\<forall>r2 lo up sm w p dp self2 h2.
        calc_e_modulus ext self h1 r2 lo up sm w p dp = Inr (self2, h2) \<longrightarrow>
        raw_original self2 = raw_original self \<and>
        map (mem h2) (raw_original self2) = map (mem h1) (raw_original self)) \<and>
    (\<forall>self2. calc_strength self h1 = Inr self2 \<longrightarrow> raw_original self2 = raw_original self) \<and>
    (\<forall>self2. calc_toughness self h1 = Inr self2 \<longrightarrow> raw_original self2 = raw_original self) \<and>
    (\<forall>self2. calc_elongation_at_break self h1 = Inr self2 \<longrightarrow>
        raw_original self2 = raw_original self)"
proof
  assume run: "init ext h file mode u us pre = Inr (self, h1)"
  note g = raw_original_general[OF run]
  have sd: "\<forall>sample ha hb r. streamline_data self ext ha sample = Inr (hb, r) \<longrightarrow>
        r = sample \<and> (\<forall>q. q \<noteq> sample \<longrightarrow> mem hb q = mem ha q) \<and>
        streamline_frame (preload self) (strain_conversion_factor self) ext (mem ha sample)
          = Inr (mem hb sample)"
  proof (intro allI impI)
    fix sample ha hb r
    assume a: "streamline_data self ext ha sample = Inr (hb, r)"
    show "r = sample \<and> (\<forall>q. q \<noteq> sample \<longrightarrow> mem hb q = mem ha q) \<and>
        streamline_frame (preload self) (strain_conversion_factor self) ext (mem ha sample)
          = Inr (mem hb sample)"
      using streamline_data_effect(1)[OF a] streamline_data_effect(3)[OF a]
        streamline_data_effect(4)[OF a] by blast
  qed
  have c: "(\<forall>self2. calc_strength self h1 = Inr self2 \<longrightarrow> raw_original self2 = raw_original self) \<and>
    (\<forall>self2. calc_toughness self h1 = Inr self2 \<longrightarrow> raw_original self2 = raw_original self) \<and>
    (\<forall>self2. calc_elongation_at_break self h1 = Inr self2 \<longrightarrow>
        raw_original self2 = raw_original self)"
    using calc_fields by blast
  show "(\<exists>skip names. mode_layout mode = Some (skip, names) \<and>
        map (mem h1) (raw_original self) = imported_frames skip names file \<and>
        length (raw self) = length (raw_original self) \<and>
        (\<forall>i<length (raw self).
            streamline_frame pre (strain_conversion_factor self) ext (mem h1 (raw_original self ! i))
              = Inr (mem h1 (raw self ! i)))) \<and>
    set (raw self) \<inter> set (raw_original self) = {} \<and> distinct (raw self) \<and>
    (\<forall>r\<in>set (raw_original self). r < next_ref h1) \<and>
    (\<forall>sample ha hb r. streamline_data self ext ha sample = Inr (hb, r) \<longrightarrow>
        r = sample \<and> (\<forall>q. q \<noteq> sample \<longrightarrow> mem hb q = mem ha q) \<and>
        streamline_frame (preload self) (strain_conversion_factor self) ext (mem ha sample)
          = Inr (mem hb sample)) \<and>
    (\<forall>r2 lo up sm w p dp self2 h2.
        calc_e_modulus ext self h1 r2 lo up sm w p dp = Inr (self2, h2) \<longrightarrow>
        raw_original self2 = raw_original self \<and>
        map (mem h2) (raw_original self2) = map (mem h1) (raw_original self)) \<and>
    (\<forall>self2. calc_strength self h1 = Inr self2 \<longrightarrow> raw_original self2 = raw_original self) \<and>
    (\<forall>self2. calc_toughness self h1 = Inr self2 \<longrightarrow> raw_original self2 = raw_original self) \<and>
    (\<forall>self2. calc_elongation_at_break self h1 = Inr self2 \<longrightarrow>
        raw_original self2 = raw_original self)"
    using g sd c by (intro conjI) blast+
qed

theorem raw_original_is_left_unchanged_witness:
  "\<exists>self h1. init (stub_externals (Some 2)) empty_heap example_workbook ''Lena_Schunter'' ''%'' ''kPa'' None
        = Inr (self, h1) \<and>
      raw_original self = [0, 1] \<and> raw self = [2, 3] \<and>
      map (mem h1) (raw_original self) =
        imported_frames 2 [''tool_distance'', ''strain'', ''stress''] example_workbook \<and>
      (\<exists>hb. streamline_data self (stub_externals (Some 2)) h1 2 = Inr (hb, 2) \<and>
          map (mem hb) (raw_original self) = map (mem h1) (raw_original self)) \<and>
      (\<exists>self2 h2. calc_e_modulus (stub_externals (Some 2)) self h1 (995 / 1000) 0 50 True 500 2 (Some 10)
            = Inr (self2, h2) \<and>
          map (mem h2) (raw_original self2) =
            imported_frames 2 [''tool_distance'', ''strain'', ''stress''] example_workbook) \<and>
      (\<exists>self2. calc_strength self h1 = Inr self2 \<and> raw_original self2 = [0, 1])"
proof -
  let ?names = "[''tool_distance'', ''strain'', ''stress'']"
  let ?ext = "stub_externals (Some 2)"
  have lay: "mode_layout ''Lena_Schunter'' = Some (2, ?names)" by (simp add: mode_layout_def)
  have d: "drop 2 example_workbook =
      [(''Probe 1'', [[Some 10, Some 0, Some 5], [Some 12, Some 1, Some 6]]),
       (''Probe 2'', [[None, Some 0, Some 5]])]"
    by (simp add: example_workbook_def)
  have len: "length (drop 2 example_workbook) = 2" by (simp add: d)
  have e0: "next_ref empty_heap = 0" by (simp add: empty_heap_def)
  from init_no_preload[OF lay, of "''%''" ?ext empty_heap example_workbook "''kPa''"]
  obtain self h1 where
    i: "init ?ext empty_heap example_workbook ''Lena_Schunter'' ''%'' ''kPa'' None = Inr (self, h1)"
    and fac0: "strain_conversion_factor self = (if ''%'' = [] then 1 else 100)"
    and ro0: "raw_original self = [next_ref empty_heap..<next_ref empty_heap + length (drop 2 example_workbook)]"
    and raw0: "raw self = [next_ref empty_heap + length (drop 2 example_workbook)..<
         next_ref empty_heap + length (drop 2 example_workbook) + length (drop 2 example_workbook)]"
    and res: "results self = named_rows 2 example_workbook"
    and n0: "next_ref h1 = next_ref empty_heap + length (drop 2 example_workbook) + length (drop 2 example_workbook)"
    and vals: "map (mem h1) (raw_original self) = imported_frames 2 ?names example_workbook"
    and cl0: "\<forall>i<length (drop 2 example_workbook).
         streamline_frame None (strain_conversion_factor self) ?ext
            (imported_frames 2 ?names example_workbook ! i) = Inr (mem h1 (raw self ! i))"
    by blast
  have fac: "strain_conversion_factor self = 100" using fac0 by simp
  have ro: "raw_original self = [0, 1]"
    using ro0 unfolding len e0 by (simp add: upt_rec[of 0 2] upt_rec[of 1 2])
  have raw: "raw self = [2, 3]"
    using raw0 unfolding len e0 by (simp add: upt_rec[of 2 4] upt_rec[of 3 4])
  have n: "next_ref h1 = 4" using n0 unfolding len e0 by simp
  have c0: "streamline_frame None 100 ?ext (imported_frames 2 ?names example_workbook ! 0)
      = Inr (mem h1 2)"
    using cl0[rule_format, of 0] len fac raw by simp
  have c1: "streamline_frame None 100 ?ext (imported_frames 2 ?names example_workbook ! 1)
      = Inr (mem h1 3)"
    using cl0[rule_format, of 1] len fac raw by simp
  have m2: "mem h1 2 = \<lparr>columns = ?names,
      rows = [\<lparr>label = 0, cells = row_cells ?names [Some 10, Some 0, Some 5]\<rparr>,
              \<lparr>label = 1, cells = row_cells ?names [Some 12, Some 1, Some 6]\<rparr>],
      int64_columns = ?names\<rparr>"
    using c0[symmetric] by (simp add: imported_frames_def d run_simps)
  have m3: "mem h1 3 = \<lparr>columns = ?names, rows = [], int64_columns = [''strain'', ''stress'']\<rparr>"
    using c1[symmetric] by (simp add: imported_frames_def d run_simps)
  have nr: "named_rows 2 example_workbook =
      [\<lparr>name = Some ''Probe 1'', entries = (\<lambda>t. None)\<rparr>,
       \<lparr>name = Some ''Probe 2'', entries = (\<lambda>t. None)\<rparr>]"
    by (simp add: named_rows_def d)
  note unchanged = raw_original_is_left_unchanged[of ?ext empty_heap example_workbook "''Lena_Schunter''"
      "''%''" "''kPa''" None self h1, rule_format, OF i]
  have pre: "preload self = None"
    using init_result[OF i] by blast
  have "\<exists>hb. streamline_data self ?ext h1 2 = Inr (hb, 2)"
    by (simp add: streamline_data_def pre fac m2 run_simps)
  then obtain hb where sd: "streamline_data self ?ext h1 2 = Inr (hb, 2)" by blast
  have "\<forall>q. q \<noteq> 2 \<longrightarrow> mem hb q = mem h1 q"
    using unchanged sd by blast
  then have keep: "map (mem hb) (raw_original self) = map (mem h1) (raw_original self)"
    using ro by simp
  have "\<exists>self2 h2. calc_e_modulus ?ext self h1 (995 / 1000) 0 50 True 500 2 (Some 10) = Inr (self2, h2)"
    by (simp add: calc_e_modulus_def raw m2 m3 res nr fac n smooth_data_def column_def
        stub_externals_def frame_of_curve_def parse_def row_cells_def new_frame_def
        sample_e_modulus_def crop_def cle_def cge_def drop_labels_def reset_index_def
        set_results_column_def upt_2 upt_rec[of 1 2] Let_def)
  then obtain self2 h2 where
    ce: "calc_e_modulus ?ext self h1 (995 / 1000) 0 50 True 500 2 (Some 10) = Inr (self2, h2)"
    by blast
  have "map (mem h2) (raw_original self2) = map (mem h1) (raw_original self)"
    using unchanged ce by blast
  then have e: "map (mem h2) (raw_original self2) = imported_frames 2 ?names example_workbook"
    using vals by simp
  have "\<exists>self3. calc_strength self h1 = Inr self3"
    by (simp add: calc_strength_def raw m2 m3 res nr sample_strength_def column_def
        set_results_column_def)
  then obtain self3 where cs: "calc_strength self h1 = Inr self3" by blast
  have "raw_original self3 = [0, 1]" using unchanged cs ro by simp
  then show ?thesis using i ro raw vals sd keep ce e cs
    by (intro exI[of _ self] exI[of _ h1] conjI exI[of _ hb] exI[of _ self2] exI[of _ h2]
        exI[of _ self3]) simp_all
qed

section \<open>Properties of the linear region detector\<close>

lemma add_point_sums_of: "add_point (sums_of pre) p = sums_of (pre @ [p])"
  by (simp add: add_point_def sums_of_def)

lemma sums_of_single: "add_point no_points p = sums_of [p]"
  by (simp add: add_point_def sums_of_def no_points_def)

lemma sweep_general:
  "sweep tau (sums_of pre) best rest =
     (map (window_fit (pre @ rest)) [Suc (length pre)..<Suc (length pre + length rest)],
      case filter (qualifies tau (pre @ rest)) (rev [Suc (length pre)..<Suc (length pre + length rest)]) of
        [] \<Rightarrow> best
      | k # ks \<Rightarrow> report (pre @ rest) k)"
proof (induction rest arbitrary: pre best)
  case Nil
  then show ?case by simp
next
  case (Cons p ps)
  let ?all = "pre @ p # ps"
  let ?n = "length pre"
  let ?f = "fit_of_sums (sums_of (pre @ [p]))"
  let ?best1 = "case ?f of None \<Rightarrow> best
                | Some ft \<Rightarrow> if cge (fit_r_squared ft) tau then Some (fst p, ft) else best"
  have wf: "window_fit ?all (Suc ?n) = ?f"
    by (simp add: window_fit_def)
  have e1: "(pre @ [p]) @ ps = pre @ p # ps" by simp
  have e2: "length (pre @ [p]) = Suc ?n" by simp
  have ih: "sweep tau (sums_of (pre @ [p])) ?best1 ps =
     (map (window_fit ?all) [Suc (Suc ?n)..<Suc (Suc ?n + length ps)],
      case filter (qualifies tau ?all) (rev [Suc (Suc ?n)..<Suc (Suc ?n + length ps)]) of
        [] \<Rightarrow> ?best1
      | k # ks \<Rightarrow> report ?all k)"
    using Cons.IH[of "pre @ [p]" ?best1] unfolding e1 e2 .
  have unfold: "sweep tau (sums_of pre) best (p # ps) =
      (?f # fst (sweep tau (sums_of (pre @ [p])) ?best1 ps),
       snd (sweep tau (sums_of (pre @ [p])) ?best1 ps))"
    by (simp add: add_point_sums_of Let_def split: prod.splits)
  have range: "[Suc ?n..<Suc (?n + length (p # ps))] = Suc ?n # [Suc (Suc ?n)..<Suc (Suc ?n + length ps)]"
    by (simp add: upt_conv_Cons del: upt_Suc)
  have best1: "?best1 = (if qualifies tau ?all (Suc ?n) then report ?all (Suc ?n) else best)"
    by (simp add: qualifies_def report_def wf split: option.splits)
  have trace: "?f # map (window_fit ?all) [Suc (Suc ?n)..<Suc (Suc ?n + length ps)]
      = map (window_fit ?all) [Suc ?n..<Suc (?n + length (p # ps))]"
    unfolding range using wf by simp
  have result: "(case filter (qualifies tau ?all) (rev [Suc (Suc ?n)..<Suc (Suc ?n + length ps)]) of
        [] \<Rightarrow> ?best1 | k # ks \<Rightarrow> report ?all k)
      = (case filter (qualifies tau ?all) (rev [Suc ?n..<Suc (?n + length (p # ps))]) of
        [] \<Rightarrow> best | k # ks \<Rightarrow> report ?all k)"
    unfolding range best1
    by (cases "filter (qualifies tau ?all) (rev [Suc (Suc ?n)..<Suc (Suc ?n + length ps)])") simp_all
  show ?case unfolding unfold ih using trace result by simp
qed

lemma detector_general:
  assumes "2 \<le> length points"
  shows "linear_region_detector tau points =
     Inr (map (window_fit points) [2..<Suc (length points)],
          Option.bind (last_qualifying tau points [2..<Suc (length points)]) (report points))"
proof -
  obtain p1 p2 rest where p: "points = p1 # p2 # rest"
    using assms by (cases points; cases "tl points") auto
  have e1: "[p1] @ p2 # rest = points" by (simp add: p)
  have e2: "Suc (length [p1]) = 2" by simp
  have e3: "Suc (length [p1] + length (p2 # rest)) = Suc (length points)" by (simp add: p)
  have "sweep tau (sums_of [p1]) None (p2 # rest) =
     (map (window_fit points) [2..<Suc (length points)],
      case filter (qualifies tau points) (rev [2..<Suc (length points)]) of
        [] \<Rightarrow> None
      | k # ks \<Rightarrow> report points k)"
    using sweep_general[of tau "[p1]" None "p2 # rest"] unfolding e1 e2 e3 .
  moreover have "(case filter (qualifies tau points) (rev [2..<Suc (length points)]) of
        [] \<Rightarrow> None | k # ks \<Rightarrow> report points k)
      = Option.bind (last_qualifying tau points [2..<Suc (length points)]) (report points)"
    by (simp add: last_qualifying_def split: list.splits)
  ultimately have "sweep tau (sums_of [p1]) None (p2 # rest) =
     (map (window_fit points) [2..<Suc (length points)],
      Option.bind (last_qualifying tau points [2..<Suc (length points)]) (report points))"
    by simp
  moreover have "linear_region_detector tau points = Inr (sweep tau (sums_of [p1]) None (p2 # rest))"
    unfolding p by (simp add: linear_region_detector_def sums_of_single del: sweep.simps)
  ultimately show ?thesis by simp
qed

lemma last_qualifying_range:
  "last_qualifying tau points [a..<b] = Some k \<longleftrightarrow>
     a \<le> k \<and> k < b \<and> qualifies tau points k \<and> (\<forall>j. k < j \<and> j < b \<longrightarrow> \<not> qualifies tau points j)"
proof (induction b)
  case 0
  then show ?case by (simp add: last_qualifying_def)
next
  case (Suc b)
  show ?case
  proof (cases "a \<le> b")
    case False
    then show ?thesis by (auto simp: last_qualifying_def)
  next
    case True
    show ?thesis
    proof (cases "qualifies tau points b")
      case q: True
      have "last_qualifying tau points [a..<Suc b] = Some b"
        using True q by (simp add: last_qualifying_def)
      moreover have "(a \<le> k \<and> k < Suc b \<and> qualifies tau points k \<and>
          (\<forall>j. k < j \<and> j < Suc b \<longrightarrow> \<not> qualifies tau points j)) \<longleftrightarrow> k = b"
        using True q by (auto simp: less_Suc_eq)
      ultimately show ?thesis by auto
    next
      case nq: False
      have "last_qualifying tau points [a..<Suc b] = last_qualifying tau points [a..<b]"
        using True nq by (simp add: last_qualifying_def)
      moreover have "(a \<le> k \<and> k < Suc b \<and> qualifies tau points k \<and>
          (\<forall>j. k < j \<and> j < Suc b \<longrightarrow> \<not> qualifies tau points j)) \<longleftrightarrow>
          (a \<le> k \<and> k < b \<and> qualifies tau points k \<and>
          (\<forall>j. k < j \<and> j < b \<longrightarrow> \<not> qualifies tau points j))"
        using nq by (auto simp: less_Suc_eq)
      ultimately show ?thesis using Suc.IH by simp
    qed
  qed
qed

lemma residual_sum:
  "sum_list (map (\<lambda>p. snd p - (a * fst p + b)) ps)
     = sum_list (map snd ps) - a * sum_list (map fst ps) - real (length ps) * b"
  by (induction ps) (simp_all add: algebra_simps)

lemma weighted_residual_sum:
  "sum_list (map (\<lambda>p. fst p * (snd p - ((a::real) * fst p + b))) ps)
     = sum_list (map (\<lambda>p. fst p * snd p) ps) - a * sum_list (map (\<lambda>p. fst p * fst p) ps)
       - b * sum_list (map fst ps)"
  by (induction ps) (simp_all add: algebra_simps)

lemma fit_normal_equations:
  assumes "fit_of_sums (sums_of ps) = Some (Fit a b r)"
  shows "sum_list (map (\<lambda>p. snd p - (a * fst p + b)) ps) = 0"
    and "sum_list (map (\<lambda>p. fst p * (snd p - (a * fst p + b))) ps) = 0"
proof -
  define n where "n = real (length ps)"
  define sx where "sx = sum_list (map fst ps)"
  define sy where "sy = sum_list (map snd ps)"
  define sxy where "sxy = sum_list (map (\<lambda>p. fst p * snd p) ps)"
  define sxx where "sxx = sum_list (map (\<lambda>p. fst p * fst p) ps)"
  define var_x where "var_x = n * sxx - sx * sx"
  define cov where "cov = n * sxy - sx * sy"
  have v: "var_x \<noteq> 0" and a: "a = cov / var_x" and b: "b = (sy - cov / var_x * sx) / n"
    using assms
    by (auto simp: fit_of_sums_def sums_of_def Let_def n_def sx_def sy_def sxy_def sxx_def
        var_x_def cov_def split: if_splits)
  have n0: "n \<noteq> 0"
  proof
    assume "n = 0"
    then have "ps = []" by (simp add: n_def)
    then have "var_x = 0" by (simp add: var_x_def n_def sxx_def sx_def)
    with v show False by simp
  qed
  have nb: "n * b = sy - a * sx" using n0 a b by simp
  show "sum_list (map (\<lambda>p. snd p - (a * fst p + b)) ps) = 0"
    unfolding residual_sum using nb by (simp add: n_def sx_def sy_def)
  have av: "a * var_x = cov" using v a by simp
  have "n * (sxy - a * sxx - b * sx) = n * sxy - a * (n * sxx) - (n * b) * sx"
    by (simp add: algebra_simps)
  also have "\<dots> = n * sxy - a * (n * sxx) - (sy - a * sx) * sx"
    by (simp only: nb)
  also have "\<dots> = cov - a * var_x"
    by (simp add: cov_def var_x_def algebra_simps)
  finally have "n * (sxy - a * sxx - b * sx) = cov - a * var_x" .
  then have "n * (sxy - a * sxx - b * sx) = 0" using av by simp
  then have "sxy - a * sxx - b * sx = 0" using n0 by simp
  then show "sum_list (map (\<lambda>p. fst p * (snd p - (a * fst p + b))) ps) = 0"
    unfolding weighted_residual_sum by (simp add: sxy_def sxx_def sx_def)
qed

text \<open>
  C1: with fewer than 2 points the detector fails with InsufficientDataError; with
  M >= 2 points its trace holds, for k = 2..M, the fit of the first k points, computed
  from the running sums, and it reports the strain of the last point, the slope and
  the intercept of the last window k in 2..M whose R squared is not below tau (nothing
  when no window qualifies). The fit of a window satisfies the two normal equations of
  the least-squares line. On the piecewise curve of the specification with
  tau = 0.995, handed over whole or cut to the strain range between 0 and 50, the
  linear limit is 5 and the slope at the limit is 2.
\<close>

theorem detector_reports_last_qualifying_window:
  "(length points < 2 \<longrightarrow> linear_region_detector tau points = Inl InsufficientDataError) \<and>
   (2 \<le> length points \<longrightarrow>
      linear_region_detector tau points =
        Inr (map (window_fit points) [2..<Suc (length points)],
             Option.bind (last_qualifying tau points [2..<Suc (length points)]) (report points))) \<and>
   (last_qualifying tau points [2..<Suc (length points)] = Some k \<longleftrightarrow>
      2 \<le> k \<and> k \<le> length points \<and> qualifies tau points k \<and>
      (\<forall>j. k < j \<and> j \<le> length points \<longrightarrow> \<not> qualifies tau points j)) \<and>
   (window_fit points k = Some (Fit a b r) \<longrightarrow>
      sum_list (map (\<lambda>p. snd p - (a * fst p + b)) (take k points)) = 0 \<and>
      sum_list (map (\<lambda>p. fst p * (snd p - (a * fst p + b))) (take k points)) = 0) \<and>
   map_sum id snd (linear_region_detector (995 / 1000) piecewise_curve)
     = Inr (Some (5, Fit 2 0 (Some 1))) \<and>
   map_sum id snd (linear_region_detector (995 / 1000)
       (filter (\<lambda>p. 0 < fst p \<and> fst p < 50) piecewise_curve))
     = Inr (Some (5, Fit 2 0 (Some 1)))"
proof (intro conjI impI)
  assume "length points < 2"
  then have "points = [] \<or> (\<exists>p. points = [p])"
    by (cases points; cases "tl points") auto
  then show "linear_region_detector tau points = Inl InsufficientDataError"
    by (auto simp: linear_region_detector_def)
next
  assume "2 \<le> length points"
  then show "linear_region_detector tau points =
        Inr (map (window_fit points) [2..<Suc (length points)],
             Option.bind (last_qualifying tau points [2..<Suc (length points)]) (report points))"
    by (rule detector_general)
next
  show "last_qualifying tau points [2..<Suc (length points)] = Some k \<longleftrightarrow>
      2 \<le> k \<and> k \<le> length points \<and> qualifies tau points k \<and>
      (\<forall>j. k < j \<and> j \<le> length points \<longrightarrow> \<not> qualifies tau points j)"
    unfolding last_qualifying_range by (simp add: less_Suc_eq_le)
next
  assume "window_fit points k = Some (Fit a b r)"
  then have f: "fit_of_sums (sums_of (take k points)) = Some (Fit a b r)"
    by (simp add: window_fit_def)
  show "sum_list (map (\<lambda>p. snd p - (a * fst p + b)) (take k points)) = 0"
    using f by (rule fit_normal_equations(1))
  show "sum_list (map (\<lambda>p. fst p * (snd p - (a * fst p + b))) (take k points)) = 0"
    using f by (rule fit_normal_equations(2))
next
  show "map_sum id snd (linear_region_detector (995 / 1000) piecewise_curve)
     = Inr (Some (5, Fit 2 0 (Some 1)))"
    by code_simp
next
  show "map_sum id snd (linear_region_detector (995 / 1000)
       (filter (\<lambda>p. 0 < fst p \<and> fst p < 50) piecewise_curve))
     = Inr (Some (5, Fit 2 0 (Some 1)))"
    by code_simp
qed

theorem detector_reports_last_qualifying_window_witness:
  "2 \<le> length piecewise_curve \<and>
   linear_region_detector (995 / 1000) piecewise_curve =
     Inr (map (window_fit piecewise_curve) [2..<Suc (length piecewise_curve)],
          Option.bind (last_qualifying (995 / 1000) piecewise_curve [2..<Suc (length piecewise_curve)])
            (report piecewise_curve)) \<and>
   last_qualifying (995 / 1000) piecewise_curve [2..<Suc (length piecewise_curve)] = Some 6 \<and>
   qualifies (995 / 1000) piecewise_curve 6 \<and>
   report piecewise_curve 6 = Some (5, Fit 2 0 (Some 1)) \<and>
   sum_list (map (\<lambda>p. snd p - (2 * fst p + 0)) (take 6 piecewise_curve)) = 0"
proof -
  have len: "2 \<le> length piecewise_curve" by (simp add: piecewise_curve_def)
  have lq: "last_qualifying (995 / 1000) piecewise_curve [2..<Suc (length piecewise_curve)] = Some 6"
    by code_simp
  have rp: "report piecewise_curve 6 = Some (5, Fit 2 0 (Some 1))"
    by code_simp
  have wf: "window_fit piecewise_curve 6 = Some (Fit 2 0 (Some 1))"
    by code_simp
  show ?thesis
    using detector_reports_last_qualifying_window[of piecewise_curve "995 / 1000" 6 2 0 "Some 1"]
      len lq rp wf by simp
qed

end
